(* ===== verification/Kdct_Prelude.thy ===== *)
theory Kdct_Prelude
  imports Main "HOL-Library.Word" "HOL-Library.Sublist" "HOL-Library.AList"
    "HOL-Library.Char_ord" "HOL-Library.List_Lexorder"
begin

text \<open>
  Shared vocabulary of the development: names for the machine integers of the Rust sources,
  the operations of Rust's \<^verbatim>\<open>str\<close> that the sources call, hash maps as association
  lists, ordered sets as strictly sorted lists, and reachability for step relations.

  A Rust \<^verbatim>\<open>str\<close> or \<^verbatim>\<open>String\<close> is modelled by its UTF-8 bytes, a \<^typ>\<open>string\<close>; its
  \<^verbatim>\<open>len()\<close> is then the length of the list. A \<^verbatim>\<open>HashMap\<close> that the code iterates is an
  association list with distinct keys whose order stands for the (unspecified) iteration
  order; a map that is only looked up is a partial function.
\<close>

named_theorems kdct_simps \<open>equations of the operations, unfolded by the component proofs\<close>

named_theorems inv_intros \<open>the operations keep the invariants\<close>

section \<open>Machine integers\<close>

type_synonym u8 = "8 word"
type_synonym u16 = "16 word"
type_synonym u32 = "32 word"
type_synonym u64 = "64 word"
type_synonym bytes = "8 word list"

text \<open>The cast \<^verbatim>\<open>x as u16\<close> of a wider integer keeps the low sixteen bits.\<close>

abbreviation as_u16 :: "int \<Rightarrow> u16" where
  "as_u16 i \<equiv> word_of_int i"

text \<open>The inclusive range \<^verbatim>\<open>a..=b\<close> of \<^verbatim>\<open>u16\<close>; empty when \<open>a > b\<close>.\<close>

definition u16_range :: "u16 \<Rightarrow> u16 \<Rightarrow> u16 list" where
  "u16_range a b = map word_of_nat [unat a..<Suc (unat b)]"

lemma unat_u16_bound: "unat (w :: u16) < 65536"
proof -
  have "unat w < 2 ^ LENGTH(16)" by (rule unsigned_less)
  then show ?thesis by simp
qed

lemma u16_of_nat_inj:
  "n < 65536 \<Longrightarrow> m < 65536 \<Longrightarrow> ((word_of_nat n :: u16) = word_of_nat m) = (n = m)"
  by (simp add: word_of_nat_eq_iff take_bit_nat_eq_self)

lemma set_u16_range [simp]: "set (u16_range a b) = {p. a \<le> p \<and> p \<le> b}"
proof
  show "set (u16_range a b) \<subseteq> {p. a \<le> p \<and> p \<le> b}"
  proof
    fix p assume "p \<in> set (u16_range a b)"
    then obtain n where n: "p = word_of_nat n" "unat a \<le> n" "n \<le> unat b"
      by (auto simp: u16_range_def)
    have "unat p = n"
      using n unat_u16_bound [of b] by (simp add: unat_of_nat)
    with n show "p \<in> {p. a \<le> p \<and> p \<le> b}" by (simp add: word_le_nat_alt)
  qed
next
  show "{p. a \<le> p \<and> p \<le> b} \<subseteq> set (u16_range a b)"
  proof
    fix p assume "p \<in> {p. a \<le> p \<and> p \<le> b}"
    then have "unat p \<in> set [unat a..<Suc (unat b)]" by (auto simp: word_le_nat_alt)
    then have "word_of_nat (unat p) \<in> set (u16_range a b)"
      unfolding u16_range_def by (metis imageI set_map)
    then show "p \<in> set (u16_range a b)" by simp
  qed
qed

lemma length_u16_range: "length (u16_range a b) = Suc (unat b) - unat a"
  unfolding u16_range_def by (simp only: length_map length_upt)

lemma distinct_u16_range [simp]: "distinct (u16_range a b)"
proof -
  have "inj_on (word_of_nat :: nat \<Rightarrow> u16) (set [unat a..<Suc (unat b)])"
  proof (rule inj_onI)
    fix x y assume "x \<in> set [unat a..<Suc (unat b)]" "y \<in> set [unat a..<Suc (unat b)]"
      and eq: "(word_of_nat x :: u16) = word_of_nat y"
    then have "x < 65536" "y < 65536" using unat_u16_bound [of b] by auto
    with eq show "x = y" by (simp add: u16_of_nat_inj)
  qed
  then show ?thesis unfolding u16_range_def by (simp add: distinct_map)
qed

section \<open>Strings\<close>

text \<open>\<^verbatim>\<open>str::split\<close> on a character: always at least one piece.\<close>

fun split_on :: "char \<Rightarrow> string \<Rightarrow> string list" where
  "split_on c [] = [[]]"
| "split_on c (x # xs) =
     (if x = c then [] # split_on c xs
      else case split_on c xs of [] \<Rightarrow> [[x]] | p # ps \<Rightarrow> (x # p) # ps)"

text \<open>\<^verbatim>\<open>str::split_once\<close>: the text before and after the first occurrence.\<close>

fun split_once :: "char \<Rightarrow> string \<Rightarrow> (string \<times> string) option" where
  "split_once c [] = None"
| "split_once c (x # xs) =
     (if x = c then Some ([], xs)
      else map_option (\<lambda>(a, b). (x # a, b)) (split_once c xs))"

text \<open>\<^verbatim>\<open>str::splitn(2, c)\<close>: the first piece and, if the separator occurs, the rest.\<close>

definition splitn2 :: "char \<Rightarrow> string \<Rightarrow> string \<times> string option" where
  "splitn2 c s = (case split_once c s of None \<Rightarrow> (s, None) | Some (a, b) \<Rightarrow> (a, Some b))"

definition strip_prefix :: "string \<Rightarrow> string \<Rightarrow> string option" where
  "strip_prefix p s = (if prefix p s then Some (drop (length p) s) else None)"

definition strip_suffix :: "string \<Rightarrow> string \<Rightarrow> string option" where
  "strip_suffix p s = (if suffix p s then Some (take (length s - length p) s) else None)"

text \<open>\<^verbatim>\<open>str::contains\<close> with a string pattern.\<close>

fun contains_str :: "string \<Rightarrow> string \<Rightarrow> bool" where
  "contains_str pat [] = (pat = [])"
| "contains_str pat (x # xs) = (prefix pat (x # xs) \<or> contains_str pat xs)"

text \<open>\<^verbatim>\<open>[..].join(sep)\<close>.\<close>

fun join_with :: "string \<Rightarrow> string list \<Rightarrow> string" where
  "join_with sep [] = []"
| "join_with sep [s] = s"
| "join_with sep (s # ss) = s @ sep @ join_with sep ss"

text \<open>\<^verbatim>\<open>str::replace\<close> of every character of a set by a string.\<close>

definition replace_chars :: "char list \<Rightarrow> string \<Rightarrow> string \<Rightarrow> string" where
  "replace_chars cs r s = concat (map (\<lambda>c. if c \<in> set cs then r else [c]) s)"

lemma split_on_not_Nil [simp]: "split_on c s \<noteq> []"
  by (induction s) (auto split: list.splits)

lemma split_on_free: "c \<notin> set s \<Longrightarrow> split_on c s = [s]"
  by (induction s) auto

lemma split_on_append_sep: "c \<notin> set s \<Longrightarrow> split_on c (s @ c # t) = s # split_on c t"
  by (induction s) auto

lemma split_on_pieces_free: "p \<in> set (split_on c s) \<Longrightarrow> c \<notin> set p"
  by (induction s arbitrary: p) (auto split: list.splits if_splits)

lemma join_split_on: "join_with [c] (split_on c s) = s"
proof (induction s)
  case Nil
  show ?case by simp
next
  case (Cons x s)
  obtain p ps where "split_on c s = p # ps" by (cases "split_on c s") auto
  with Cons.IH show ?case by (cases ps) auto
qed

lemma split_on_join:
  "ps \<noteq> [] \<Longrightarrow> \<forall>p \<in> set ps. c \<notin> set p \<Longrightarrow> split_on c (join_with [c] ps) = ps"
proof (induction ps)
  case (Cons p ps)
  then show ?case by (cases ps) (auto simp: split_on_free split_on_append_sep)
qed simp

lemma split_once_Some: "split_once c s = Some (a, b) \<Longrightarrow> s = a @ c # b \<and> c \<notin> set a"
  by (induction s arbitrary: a) (auto split: if_splits)

lemma split_once_None: "split_once c s = None \<longleftrightarrow> c \<notin> set s"
  by (induction s) auto

lemma split_once_append: "c \<notin> set a \<Longrightarrow> split_once c (a @ c # b) = Some (a, b)"
  by (induction a) auto

lemma strip_prefix_Some: "strip_prefix p s = Some t \<longleftrightarrow> s = p @ t"
  by (auto simp: strip_prefix_def prefix_def split: if_splits)

lemma strip_prefix_None: "strip_prefix p s = None \<longleftrightarrow> \<not> prefix p s"
  by (simp add: strip_prefix_def)

lemma strip_suffix_Some: "strip_suffix p s = Some t \<longleftrightarrow> s = t @ p"
  by (auto simp: strip_suffix_def suffix_def split: if_splits)

lemma contains_str_iff: "contains_str pat s \<longleftrightarrow> sublist pat s"
proof (induction s)
  case (Cons x s)
  then show ?case by (simp add: sublist_Cons_right del: sublist_code(2))
qed simp

subsection \<open>Whitespace\<close>

text \<open>
  The UTF-8 encodings of the characters with the Unicode property White\_Space, which is what
  \<^verbatim>\<open>char::is_whitespace\<close> tests and \<^verbatim>\<open>str::trim\<close> removes at both ends.
\<close>

definition white_space :: "string list" where
  "white_space =
     [[CHR 0x09], [CHR 0x0A], [CHR 0x0B], [CHR 0x0C], [CHR 0x0D], [CHR 0x20],
      [CHR 0xC2, CHR 0x85], [CHR 0xC2, CHR 0xA0], [CHR 0xE1, CHR 0x9A, CHR 0x80],
      [CHR 0xE2, CHR 0x80, CHR 0x80], [CHR 0xE2, CHR 0x80, CHR 0x81], [CHR 0xE2, CHR 0x80, CHR 0x82],
      [CHR 0xE2, CHR 0x80, CHR 0x83], [CHR 0xE2, CHR 0x80, CHR 0x84], [CHR 0xE2, CHR 0x80, CHR 0x85],
      [CHR 0xE2, CHR 0x80, CHR 0x86], [CHR 0xE2, CHR 0x80, CHR 0x87], [CHR 0xE2, CHR 0x80, CHR 0x88],
      [CHR 0xE2, CHR 0x80, CHR 0x89], [CHR 0xE2, CHR 0x80, CHR 0x8A], [CHR 0xE2, CHR 0x80, CHR 0xA8],
      [CHR 0xE2, CHR 0x80, CHR 0xA9], [CHR 0xE2, CHR 0x80, CHR 0xAF], [CHR 0xE2, CHR 0x81, CHR 0x9F],
      [CHR 0xE3, CHR 0x80, CHR 0x80]]"

function drop_ws :: "string list \<Rightarrow> string \<Rightarrow> string" where
  "drop_ws ws s =
     (case find (\<lambda>w. w \<noteq> [] \<and> prefix w s) ws of
        None \<Rightarrow> s
      | Some w \<Rightarrow> drop_ws ws (drop (length w) s))"
  by pat_completeness auto
termination
  by (relation "measure (\<lambda>(ws, s). length s)") (auto simp: find_Some_iff prefix_def)

declare drop_ws.simps [simp del]

definition trim_start :: "string \<Rightarrow> string" where
  "trim_start s = drop_ws white_space s"

definition trim_end :: "string \<Rightarrow> string" where
  "trim_end s = rev (drop_ws (map rev white_space) (rev s))"

definition trim :: "string \<Rightarrow> string" where
  "trim s = trim_end (trim_start s)"

text \<open>\<^verbatim>\<open>str::trim_start_matches(c)\<close> on one character.\<close>

definition trim_start_char :: "char \<Rightarrow> string \<Rightarrow> string" where
  "trim_start_char c s = dropWhile (\<lambda>x. x = c) s"


text \<open>A byte that neither starts nor ends a whitespace character.\<close>

definition plain_byte :: "char \<Rightarrow> bool" where
  "plain_byte c \<longleftrightarrow> (\<forall>w \<in> set white_space. hd w \<noteq> c \<and> last w \<noteq> c)"

lemma white_space_not_Nil: "w \<in> set white_space \<Longrightarrow> w \<noteq> []"
  unfolding white_space_def by auto

lemma drop_ws_id: "(\<And>w. w \<in> set ws \<Longrightarrow> \<not> prefix w s) \<Longrightarrow> drop_ws ws s = s"
  by (subst drop_ws.simps) (auto simp: find_Some_iff split: option.splits)

lemma trim_plain:
  assumes "s \<noteq> []" "plain_byte (hd s)" "plain_byte (last s)"
  shows "trim s = s"
proof -
  have "\<not> prefix w s" if "w \<in> set white_space" for w
    using that assms(1,2) white_space_not_Nil [OF that]
    by (auto simp: plain_byte_def prefix_def)
  then have "trim_start s = s" unfolding trim_start_def by (intro drop_ws_id) auto
  moreover have "\<not> prefix w (rev s)" if "w \<in> set (map rev white_space)" for w
  proof -
    from that obtain v where v: "w = rev v" "v \<in> set white_space" by auto
    then have "v \<noteq> []" "last v \<noteq> last s"
      using white_space_not_Nil assms(3) by (auto simp: plain_byte_def)
    then show ?thesis
      using v(1) assms(1) by (metis hd_rev prefix_code(1) prefix_def hd_append2 rev_is_Nil_conv)
  qed
  then have "trim_end s = s" unfolding trim_end_def by (subst drop_ws_id) auto
  ultimately show ?thesis by (simp add: trim_def)
qed

subsection \<open>Decimal numbers\<close>

definition digit_val :: "char \<Rightarrow> nat option" where
  "digit_val c = (let n = of_char c in if 48 \<le> n \<and> n \<le> 57 then Some (n - 48) else None)"

fun dec_acc :: "nat \<Rightarrow> string \<Rightarrow> nat option" where
  "dec_acc a [] = Some a"
| "dec_acc a (c # cs) =
     (case digit_val c of None \<Rightarrow> None | Some d \<Rightarrow> dec_acc (10 * a + d) cs)"

definition parse_dec :: "string \<Rightarrow> nat option" where
  "parse_dec s = (if s = [] then None else dec_acc 0 s)"

text \<open>
  \<^verbatim>\<open>from_str\<close> of an unsigned type with values below \<open>bound\<close>: an optional plus sign, at
  least one ASCII digit and nothing else, and no overflow.
\<close>

definition parse_unsigned :: "nat \<Rightarrow> string \<Rightarrow> nat option" where
  "parse_unsigned bound s =
     (case parse_dec (case s of [] \<Rightarrow> [] | c # cs \<Rightarrow> if c = CHR ''+'' then cs else c # cs) of
        None \<Rightarrow> None
      | Some n \<Rightarrow> if n < bound then Some n else None)"

definition parse_u16 :: "string \<Rightarrow> u16 option" where
  "parse_u16 s = map_option word_of_nat (parse_unsigned 65536 s)"

text \<open>\<^verbatim>\<open>i64::from_str\<close>: as above, with a sign of either kind.\<close>

definition parse_i64 :: "string \<Rightarrow> int option" where
  "parse_i64 s =
     (case s of
        [] \<Rightarrow> None
      | c # cs \<Rightarrow>
          if c = CHR ''-'' then
            (case parse_dec cs of None \<Rightarrow> None
             | Some n \<Rightarrow> if n \<le> 2 ^ 63 then Some (- int n) else None)
          else map_option int (parse_unsigned (2 ^ 63) s))"

definition digit_char :: "nat \<Rightarrow> char" where
  "digit_char d = ''0123456789'' ! d"

fun show_nat :: "nat \<Rightarrow> string" where
  "show_nat n = (if n < 10 then [digit_char n] else show_nat (n div 10) @ [digit_char (n mod 10)])"

declare show_nat.simps [simp del]

definition show_int :: "int \<Rightarrow> string" where
  "show_int i = (if i < 0 then CHR ''-'' # show_nat (nat (- i)) else show_nat (nat i))"

lemma dec_acc_append: "dec_acc a (s @ t) = Option.bind (dec_acc a s) (\<lambda>b. dec_acc b t)"
  by (induction s arbitrary: a) (auto split: option.splits)

lemma digit_val_digit_char: "d < 10 \<Longrightarrow> digit_val (digit_char d) = Some d"
proof -
  have "\<forall>d \<in> set [0..<10]. digit_val (digit_char d) = Some d"
    by (simp add: upt_rec digit_val_def digit_char_def)
  then show "d < 10 \<Longrightarrow> ?thesis" by simp
qed

lemma show_nat_not_Nil [simp]: "show_nat n \<noteq> []"
  by (subst show_nat.simps) auto

lemma show_nat_digits: "c \<in> set (show_nat n) \<Longrightarrow> digit_val c \<noteq> None"
proof (induction n arbitrary: c rule: show_nat.induct)
  case (1 n)
  have d: "digit_val (digit_char (n mod 10)) \<noteq> None" for n :: nat
    using digit_val_digit_char [of "n mod 10"] by simp
  show ?case
  proof (cases "n < 10")
    case True
    with "1.prems" d [of n] show ?thesis by (simp add: show_nat.simps [of n])
  next
    case False
    with "1.prems" "1.IH" d [of n] show ?thesis by (auto simp: show_nat.simps [of n])
  qed
qed

lemma digit_plain: "digit_val c \<noteq> None \<Longrightarrow> plain_byte c"
  unfolding plain_byte_def white_space_def digit_val_def
  by (auto simp: Let_def split: if_splits)

lemma dec_acc_show_nat: "dec_acc 0 (show_nat n) = Some n"
proof (induction n rule: show_nat.induct)
  case (1 n)
  show ?case
  proof (cases "n < 10")
    case True
    then show ?thesis by (simp add: show_nat.simps [of n] digit_val_digit_char)
  next
    case False
    then show ?thesis
      using "1.IH" by (simp add: show_nat.simps [of n] dec_acc_append digit_val_digit_char)
  qed
qed

lemma show_nat_no_sign: "CHR ''-'' \<notin> set (show_nat n)" "CHR ''+'' \<notin> set (show_nat n)"
proof -
  have "digit_val (CHR ''-'') = None" "digit_val (CHR ''+'') = None"
    by (simp_all add: digit_val_def)
  then show "CHR ''-'' \<notin> set (show_nat n)" "CHR ''+'' \<notin> set (show_nat n)"
    using show_nat_digits [of _ n] by fastforce+
qed

lemma parse_unsigned_show_nat: "n < b \<Longrightarrow> parse_unsigned b (show_nat n) = Some n"
  using show_nat_no_sign(2) [of n] dec_acc_show_nat [of n]
  by (auto simp: parse_unsigned_def parse_dec_def split: list.splits)

lemma parse_u16_show_nat [simp]: "parse_u16 (show_nat (unat p)) = Some p"
  using parse_unsigned_show_nat [OF unat_u16_bound [of p]] by (simp add: parse_u16_def)

lemma trim_show_nat [simp]: "trim (show_nat n) = show_nat n"
  by (intro trim_plain digit_plain show_nat_digits [of _ n]) simp_all

lemma parse_i64_show_int:
  "- (2 ^ 63) \<le> i \<Longrightarrow> i < 2 ^ 63 \<Longrightarrow> parse_i64 (show_int i) = Some i"
proof (cases "i < 0")
  case True
  assume "- (2 ^ 63) \<le> i"
  with True have "nat (- i) \<le> 2 ^ 63" by (simp add: nat_le_iff)
  with True show ?thesis
    by (simp add: show_int_def parse_i64_def parse_dec_def dec_acc_show_nat)
next
  case False
  assume "i < 2 ^ 63"
  with False have lt: "nat i < 2 ^ 63" by (simp add: nat_less_iff)
  obtain c cs where s: "show_nat (nat i) = c # cs" by (cases "show_nat (nat i)") auto
  then have "c \<noteq> CHR ''-''" using show_nat_no_sign(1) [of "nat i"] by auto
  with False s parse_unsigned_show_nat [OF lt] show ?thesis
    by (simp add: show_int_def parse_i64_def)
qed

text \<open>Equations for evaluation: they unfold only on constructors and numerals.\<close>

lemma drop_ws_eval:
  "drop_ws ws [] = []"
  "drop_ws ws (c # cs) =
     (case find (\<lambda>w. w \<noteq> [] \<and> prefix w (c # cs)) ws of
        None \<Rightarrow> c # cs | Some w \<Rightarrow> drop_ws ws (drop (length w) (c # cs)))"
  by (auto simp: drop_ws.simps [of ws "[]"] drop_ws.simps [of ws "c # cs"] find_Some_iff split: option.splits)

lemma trim_leading_space: "s \<noteq> [] \<Longrightarrow> plain_byte (hd s) \<Longrightarrow> plain_byte (last s) \<Longrightarrow> trim ('' '' @ s) = s"
proof -
  assume a: "s \<noteq> []" "plain_byte (hd s)" "plain_byte (last s)"
  have "find (\<lambda>w. w \<noteq> [] \<and> prefix w (CHR '' '' # s)) white_space = Some '' ''"
    by (simp add: white_space_def)
  then have "trim_start ('' '' @ s) = trim_start s"
    by (simp add: trim_start_def drop_ws_eval)
  then show "trim ('' '' @ s) = s" using trim_plain [OF a] by (simp add: trim_def)
qed

lemma show_nat_eval:
  "show_nat 0 = ''0''" "show_nat (Suc 0) = ''1''"
  "show_nat (numeral k) =
     (if numeral k < (10 :: nat) then [digit_char (numeral k)]
      else show_nat (numeral k div 10) @ [digit_char (numeral k mod 10)])"
  by (simp_all add: digit_char_def show_nat.simps [of 0] show_nat.simps [of "Suc 0"] show_nat.simps [of "numeral k"])

lemmas [kdct_simps] = u16_range_def splitn2_def strip_prefix_def strip_suffix_def replace_chars_def
  white_space_def drop_ws_eval trim_start_def trim_end_def trim_def trim_start_char_def
  digit_val_def parse_dec_def parse_unsigned_def parse_u16_def parse_i64_def
  show_nat_eval digit_char_def show_int_def

subsection \<open>Lines, words and paths\<close>

text \<open>
  \<^verbatim>\<open>str::lines\<close>: pieces that end in a newline lose it and one carriage return before it; what follows the last
  newline is a line of its own unless it is empty.
\<close>

definition strip_cr :: "string \<Rightarrow> string" where
  "strip_cr l = (if l \<noteq> [] \<and> last l = CHR 0x0D then butlast l else l)"

definition str_lines :: "string \<Rightarrow> string list" where
  "str_lines s =
     (let ls = split_on (CHR 0x0A) s in
      map strip_cr (butlast ls) @ (if last ls = [] then [] else [last ls]))"

lemma str_lines_join:
  assumes "\<forall>l \<in> set ls. CHR 0x0A \<notin> set l \<and> l \<noteq> [] \<and> last l \<noteq> CHR 0x0D"
  shows "str_lines (join_with [CHR 0x0A] ls) = ls"
proof (cases "ls = []")
  case False
  have "split_on (CHR 0x0A) (join_with [CHR 0x0A] ls) = ls"
    using False assms by (intro split_on_join) auto
  moreover have "map strip_cr (butlast ls) = butlast ls"
    using assms by (intro map_idI) (auto simp: strip_cr_def dest: in_set_butlastD)
  moreover have "last ls \<noteq> []" using False assms by auto
  ultimately show ?thesis using False by (simp add: str_lines_def)
qed (simp add: str_lines_def)

text \<open>\<^verbatim>\<open>str::split_whitespace\<close>.\<close>

fun break_ws :: "string \<Rightarrow> string \<times> string" where
  "break_ws [] = ([], [])"
| "break_ws (c # s) =
     (if \<exists>w \<in> set white_space. prefix w (c # s) then ([], c # s)
      else case break_ws s of (a, b) \<Rightarrow> (c # a, b))"

lemma break_ws_length: "length (snd (break_ws s)) \<le> length s"
  by (induction s) (auto split: prod.splits)

lemma drop_ws_length: "length (drop_ws ws s) \<le> length s"
  by (induction ws s rule: drop_ws.induct) (subst drop_ws.simps, auto split: option.splits)

function split_whitespace :: "string \<Rightarrow> string list" where
  "split_whitespace s =
     (case trim_start s of
        [] \<Rightarrow> []
      | c # t \<Rightarrow> (c # fst (break_ws t)) # split_whitespace (snd (break_ws t)))"
  by pat_completeness auto
termination
proof (relation "measure length")
  fix s :: string and c t assume "trim_start s = c # t"
  then have "Suc (length t) \<le> length s" using drop_ws_length [of white_space s] by (simp add: trim_start_def)
  then show "(snd (break_ws t), s) \<in> measure length" using break_ws_length [of t] by simp
qed simp

declare split_whitespace.simps [simp del]

definition parse_u64 :: "string \<Rightarrow> u64 option" where
  "parse_u64 s = map_option word_of_nat (parse_unsigned (2 ^ 64) s)"

text \<open>The first piece of \<^verbatim>\<open>str::split\<close> by a non-empty string.\<close>

fun before_str :: "string \<Rightarrow> string \<Rightarrow> string" where
  "before_str pat [] = []"
| "before_str pat (c # s) = (if prefix pat (c # s) then [] else c # before_str pat s)"

lemma before_str_append:
  assumes "pat \<noteq> []" "hd pat \<notin> set a"
  shows "before_str pat (a @ pat @ b) = a"
  using assms(2)
proof (induction a)
  case Nil
  then show ?case using assms(1) by (cases pat) auto
next
  case (Cons c a)
  have "\<not> prefix pat (c # a @ pat @ b)" using Cons.prems assms(1) by (cases pat) (auto simp: prefix_def)
  then show ?case using Cons by simp
qed

text \<open>\<^verbatim>\<open>PathBuf::join\<close> and \<^verbatim>\<open>is_absolute\<close> on Unix.\<close>

definition path_absolute :: "string \<Rightarrow> bool" where
  "path_absolute p \<longleftrightarrow> prefix ''/'' p"

definition path_join :: "string \<Rightarrow> string \<Rightarrow> string" where
  "path_join a b =
     (if path_absolute b \<or> a = [] then b else if last a = CHR ''/'' then a @ b else a @ ''/'' @ b)"

lemma split_whitespace_eval:
  "split_whitespace [] = []"
  "split_whitespace (x # xs) =
     (case trim_start (x # xs) of
        [] \<Rightarrow> []
      | c # t \<Rightarrow> (c # fst (break_ws t)) # split_whitespace (snd (break_ws t)))"
  by (subst split_whitespace.simps, simp add: trim_start_def drop_ws_eval)
    (subst split_whitespace.simps, simp)

lemmas [kdct_simps] = strip_cr_def str_lines_def split_whitespace_eval parse_u64_def path_absolute_def path_join_def

section \<open>Hash maps and ordered sets\<close>

text \<open>\<^verbatim>\<open>HashMap::insert\<close>, \<^verbatim>\<open>remove\<close>, \<^verbatim>\<open>get\<close> and \<^verbatim>\<open>contains_key\<close> on association lists.\<close>

type_synonym ('k, 'v) hmap = "('k \<times> 'v) list"

abbreviation hm_insert :: "'k \<Rightarrow> 'v \<Rightarrow> ('k, 'v) hmap \<Rightarrow> ('k, 'v) hmap" where
  "hm_insert \<equiv> AList.update"

abbreviation hm_remove :: "'k \<Rightarrow> ('k, 'v) hmap \<Rightarrow> ('k, 'v) hmap" where
  "hm_remove \<equiv> AList.delete"

abbreviation hm_get :: "('k, 'v) hmap \<Rightarrow> 'k \<Rightarrow> 'v option" where
  "hm_get \<equiv> map_of"

abbreviation hm_keys :: "('k, 'v) hmap \<Rightarrow> 'k set" where
  "hm_keys m \<equiv> fst ` set m"

abbreviation hm_wf :: "('k, 'v) hmap \<Rightarrow> bool" where
  "hm_wf m \<equiv> distinct (map fst m)"

lemma hm_get_None: "hm_get m k = None \<longleftrightarrow> k \<notin> hm_keys m"
  by (rule map_of_eq_None_iff)

lemma hm_get_remove: "hm_get (hm_remove k m) j = (if j = k then None else hm_get m j)"
  by (simp add: delete_conv')

lemma hm_get_insert: "hm_get (hm_insert k v m) j = (if j = k then Some v else hm_get m j)"
  by (simp add: update_conv')

lemma hm_keys_remove [simp]: "hm_keys (hm_remove k m) = hm_keys m - {k}"
  by (simp flip: set_map add: delete_keys set_removeAll)

lemma hm_keys_insert [simp]: "hm_keys (hm_insert k v m) = insert k (hm_keys m)"
  by (simp add: dom_update)

lemma hm_remove_insert_fresh: "k \<notin> hm_keys m \<Longrightarrow> hm_remove k (hm_insert k v m) = m"
  by (induction m) (auto simp: AList.delete_eq filter_id_conv)

lemmas hm_simps = hm_get_remove hm_get_insert hm_keys_remove hm_keys_insert

lemma hm_wf_filter: "hm_wf m \<Longrightarrow> hm_wf (filter P m)"
  by (induction m) auto

lemma hm_get_filter_value:
  "hm_wf m \<Longrightarrow> hm_get (filter (\<lambda>(k, v). P k v) m) k =
     (case hm_get m k of None \<Rightarrow> None | Some v \<Rightarrow> if P k v then Some v else None)"
proof (induction m)
  case (Cons kv m)
  obtain a b where kv: "kv = (a, b)" by (cases kv)
  from Cons have "hm_get m a = None" by (simp add: kv hm_get_None)
  with Cons show ?case by (auto simp: kv split: option.splits)
qed simp

text \<open>A \<^verbatim>\<open>BTreeSet\<close> is its strictly ascending list of elements.\<close>

definition bset_insert :: "'a::linorder \<Rightarrow> 'a list \<Rightarrow> 'a list" where
  "bset_insert x xs = (if x \<in> set xs then xs else insort x xs)"

lemmas [kdct_simps] = bset_insert_def

abbreviation bset_wf :: "'a::linorder list \<Rightarrow> bool" where
  "bset_wf xs \<equiv> sorted xs \<and> distinct xs"

lemma set_bset_insert [simp]: "set (bset_insert x xs) = insert x (set xs)"
  by (auto simp: bset_insert_def set_insort_key)

lemma bset_wf_insert: "bset_wf xs \<Longrightarrow> bset_wf (bset_insert x xs)"
  by (simp add: bset_insert_def sorted_insort distinct_insort)

lemma bset_insert_Cons: "bset_wf (x # xs) \<Longrightarrow> bset_insert x xs = x # xs"
  by (cases xs) (auto simp: bset_insert_def)

lemma find_Some_set: "find P xs = Some x \<Longrightarrow> x \<in> set xs \<and> P x"
  by (auto simp: find_Some_iff)

section \<open>Step relations\<close>

inductive reach :: "('s \<Rightarrow> bool) \<Rightarrow> ('s \<Rightarrow> 's \<Rightarrow> bool) \<Rightarrow> 's \<Rightarrow> bool"
  for init :: "'s \<Rightarrow> bool" and step :: "'s \<Rightarrow> 's \<Rightarrow> bool" where
  start: "init s \<Longrightarrow> reach init step s"
| more: "reach init step s \<Longrightarrow> step s t \<Longrightarrow> reach init step t"

text \<open>
  The contract of an inductive invariant; what it gives is proved once here and used by
  every component that is a state machine.
\<close>

locale inductive_invariant =
  fixes init :: "'s \<Rightarrow> bool" and step :: "'s \<Rightarrow> 's \<Rightarrow> bool" and inv :: "'s \<Rightarrow> bool"
  assumes inv_init: "init s \<Longrightarrow> inv s"
    and inv_step: "inv s \<Longrightarrow> step s t \<Longrightarrow> inv t"
begin

lemma reach_inv: "reach init step s \<Longrightarrow> inv s"
  by (induction rule: reach.induct) (auto intro: inv_init inv_step)

lemma steps_inv: "step\<^sup>*\<^sup>* s t \<Longrightarrow> inv s \<Longrightarrow> inv t"
  by (induction rule: rtranclp_induct) (auto intro: inv_step)

end

text \<open>
  The contract of a refinement: under the invariant every step of the detailed system is, seen through \<open>abs\<close>, a step of the
  abstract one or none at all.
\<close>

locale refinement_map = inductive_invariant +
  fixes abs :: "'s \<Rightarrow> 'a" and ainit :: "'a \<Rightarrow> bool" and astep :: "'a \<Rightarrow> 'a \<Rightarrow> bool"
  assumes abs_init: "init s \<Longrightarrow> ainit (abs s)"
    and abs_step: "inv s \<Longrightarrow> step s t \<Longrightarrow> abs t = abs s \<or> astep (abs s) (abs t)"
begin

lemma steps_abs: "step\<^sup>*\<^sup>* s t \<Longrightarrow> inv s \<Longrightarrow> astep\<^sup>*\<^sup>* (abs s) (abs t)"
proof (induction rule: rtranclp_induct)
  case (step t u)
  have "inv t" using step.hyps(1) step.prems by (rule steps_inv)
  from abs_step [OF this step.hyps(2)] step.IH [OF step.prems] show ?case
    by (metis rtranclp.rtrancl_into_rtrancl)
qed simp

lemma reach_abs: "reach init step s \<Longrightarrow> reach ainit astep (abs s)"
proof (induction rule: reach.induct)
  case (more s t)
  from abs_step [OF reach_inv [OF more.hyps(1)] more.hyps(2)] more.IH show ?case
    by (metis reach.more)
qed (simp add: reach.start abs_init)

end

end
