(* ===== verification/Multi_Map.thy ===== *)
theory Multi_Map
  imports Kdct_Prelude
begin

text \<open>
  The map with two keys, \<^verbatim>\<open>crates/tunnel/src/multi_map.rs\<close>. It owns its items through raw
  pointers: an item is one boxed triple, and each of the two hash maps holds, for that box,
  a key that points into the box and a value that points to it. An entry is
  therefore the address of one box, a lookup reads the keys through the heap, and a removal
  frees the box. An address that is not allocated is a dangling pointer.
\<close>

section \<open>Operations\<close>

record ('k1, 'k2, 'v) multi_map =
  mm_heap :: "(nat, 'k1 \<times> 'k2 \<times> 'v) hmap"
  mm_map1 :: "nat list"
  mm_map2 :: "nat list"

definition mm_new :: "('k1, 'k2, 'v) multi_map" where
  "mm_new = \<lparr>mm_heap = [], mm_map1 = [], mm_map2 = []\<rparr>"

text \<open>The hash maps compare keys by reading through the pointer.\<close>

definition deref1 :: "(nat, 'k1 \<times> 'k2 \<times> 'v) hmap \<Rightarrow> nat \<Rightarrow> 'k1 option" where
  "deref1 h a = map_option fst (hm_get h a)"

definition deref2 :: "(nat, 'k1 \<times> 'k2 \<times> 'v) hmap \<Rightarrow> nat \<Rightarrow> 'k2 option" where
  "deref2 h a = map_option (\<lambda>i. fst (snd i)) (hm_get h a)"

definition find1 :: "'k1 \<Rightarrow> ('k1, 'k2, 'v) multi_map \<Rightarrow> nat option" where
  "find1 k m = find (\<lambda>a. deref1 (mm_heap m) a = Some k) (mm_map1 m)"

definition find2 :: "'k2 \<Rightarrow> ('k1, 'k2, 'v) multi_map \<Rightarrow> nat option" where
  "find2 k m = find (\<lambda>a. deref2 (mm_heap m) a = Some k) (mm_map2 m)"

text \<open>\<^verbatim>\<open>Box::new\<close> yields an address that is not in use.\<close>

definition fresh_addr :: "(nat, 'i) hmap \<Rightarrow> nat" where
  "fresh_addr h = Suc (fold max (map fst h) 0)"

definition mm_insert ::
  "'k1 \<Rightarrow> 'k2 \<Rightarrow> 'v \<Rightarrow> ('k1, 'k2, 'v) multi_map \<Rightarrow> ('k1, 'k2, 'v) multi_map \<times> ('k1 \<times> 'k2 \<times> 'v + unit)" where
  "mm_insert k1 k2 v m =
     (if find1 k1 m \<noteq> None \<or> find2 k2 m \<noteq> None then (m, Inl (k1, k2, v))
      else
        let a = fresh_addr (mm_heap m) in
        (m\<lparr>mm_heap := hm_insert a (k1, k2, v) (mm_heap m), mm_map1 := a # mm_map1 m, mm_map2 := a # mm_map2 m\<rparr>,
         Inr ()))"

definition mm_get1 :: "('k1, 'k2, 'v) multi_map \<Rightarrow> 'k1 \<Rightarrow> 'v option" where
  "mm_get1 m k = Option.bind (find1 k m) (\<lambda>a. map_option (\<lambda>i. snd (snd i)) (hm_get (mm_heap m) a))"

definition mm_get2 :: "('k1, 'k2, 'v) multi_map \<Rightarrow> 'k2 \<Rightarrow> 'v option" where
  "mm_get2 m k = Option.bind (find2 k m) (\<lambda>a. map_option (\<lambda>i. snd (snd i)) (hm_get (mm_heap m) a))"

text \<open>\<^verbatim>\<open>get1_mut\<close> and \<^verbatim>\<open>get_mut2\<close> let the caller store through the pointer they return.\<close>

definition mm_store :: "nat \<Rightarrow> 'v \<Rightarrow> ('k1, 'k2, 'v) multi_map \<Rightarrow> ('k1, 'k2, 'v) multi_map" where
  "mm_store a v m =
     (case hm_get (mm_heap m) a of
        None \<Rightarrow> m
      | Some (k1, k2, _) \<Rightarrow> m\<lparr>mm_heap := hm_insert a (k1, k2, v) (mm_heap m)\<rparr>)"

definition mm_get1_mut :: "'k1 \<Rightarrow> 'v \<Rightarrow> ('k1, 'k2, 'v) multi_map \<Rightarrow> ('k1, 'k2, 'v) multi_map" where
  "mm_get1_mut k v m = (case find1 k m of None \<Rightarrow> m | Some a \<Rightarrow> mm_store a v m)"

definition mm_get_mut2 :: "'k2 \<Rightarrow> 'v \<Rightarrow> ('k1, 'k2, 'v) multi_map \<Rightarrow> ('k1, 'k2, 'v) multi_map" where
  "mm_get_mut2 k v m = (case find2 k m of None \<Rightarrow> m | Some a \<Rightarrow> mm_store a v m)"

text \<open>
  Removal by one key: the entry leaves its own map, the other map is searched with the other
  key while the box is still alive, and the box is freed at the end.
\<close>

definition mm_remove1 :: "'k1 \<Rightarrow> ('k1, 'k2, 'v) multi_map \<Rightarrow> ('k1, 'k2, 'v) multi_map \<times> 'v option" where
  "mm_remove1 k m =
     (case find1 k m of
        None \<Rightarrow> (m, None)
      | Some a \<Rightarrow>
          (let m = m\<lparr>mm_map1 := remove1 a (mm_map1 m)\<rparr> in
           case hm_get (mm_heap m) a of
             None \<Rightarrow> (m, None)
           | Some (_, k2, v) \<Rightarrow>
               (let m = (case find2 k2 m of None \<Rightarrow> m | Some b \<Rightarrow> m\<lparr>mm_map2 := remove1 b (mm_map2 m)\<rparr>) in
                (m\<lparr>mm_heap := hm_remove a (mm_heap m)\<rparr>, Some v))))"

definition mm_remove2 :: "'k2 \<Rightarrow> ('k1, 'k2, 'v) multi_map \<Rightarrow> ('k1, 'k2, 'v) multi_map \<times> 'v option" where
  "mm_remove2 k m =
     (case find2 k m of
        None \<Rightarrow> (m, None)
      | Some a \<Rightarrow>
          (let m = m\<lparr>mm_map2 := remove1 a (mm_map2 m)\<rparr> in
           case hm_get (mm_heap m) a of
             None \<Rightarrow> (m, None)
           | Some (k1, _, v) \<Rightarrow>
               (let m = (case find1 k1 m of None \<Rightarrow> m | Some b \<Rightarrow> m\<lparr>mm_map1 := remove1 b (mm_map1 m)\<rparr>) in
                (m\<lparr>mm_heap := hm_remove a (mm_heap m)\<rparr>, Some v))))"

text \<open>Dropping the map frees the boxes the second hash map points to; what is left is leaked.\<close>

definition mm_drop :: "('k1, 'k2, 'v) multi_map \<Rightarrow> (nat, 'k1 \<times> 'k2 \<times> 'v) hmap" where
  "mm_drop m = fold hm_remove (mm_map2 m) (mm_heap m)"

lemmas [kdct_simps] = mm_new_def deref1_def deref2_def find1_def find2_def fresh_addr_def mm_insert_def
  mm_get1_def mm_get2_def mm_store_def mm_get1_mut_def mm_get_mut2_def mm_remove1_def mm_remove2_def mm_drop_def

section \<open>Every pointer is live\<close>

text \<open>
  The two hash maps point to exactly the allocated boxes, each once, and no two boxes share
  a first or a second key.
\<close>

definition mm_wf :: "('k1, 'k2, 'v) multi_map \<Rightarrow> bool" where
  "mm_wf m \<longleftrightarrow>
     hm_wf (mm_heap m) \<and> distinct (mm_map1 m) \<and> distinct (mm_map2 m)
     \<and> set (mm_map1 m) = hm_keys (mm_heap m) \<and> set (mm_map2 m) = hm_keys (mm_heap m)
     \<and> inj_on (deref1 (mm_heap m)) (hm_keys (mm_heap m)) \<and> inj_on (deref2 (mm_heap m)) (hm_keys (mm_heap m))"

definition mm_items :: "('k1, 'k2, 'v) multi_map \<Rightarrow> ('k1 \<times> 'k2 \<times> 'v) set" where
  "mm_items m = snd ` set (mm_heap m)"

lemma fold_max_le: "fold max xs (b :: nat) \<ge> b \<and> (\<forall>x \<in> set xs. x \<le> fold max xs b)"
  by (induction xs arbitrary: b) (auto, (meson max.bounded_iff)+)

lemma fresh_addr_fresh: "fresh_addr h \<notin> hm_keys h"
  using fold_max_le [of 0 "map fst h"] by (auto simp: fresh_addr_def)

lemma mm_items_iff:
  assumes "mm_wf m"
  shows "i \<in> mm_items m \<longleftrightarrow> (\<exists>a. hm_get (mm_heap m) a = Some i)"
proof -
  have "hm_wf (mm_heap m)" using assms by (simp add: mm_wf_def)
  then show ?thesis
    unfolding mm_items_def by (force simp: map_of_eq_Some_iff image_iff)
qed

lemma key_allocated: "deref1 h a = Some k1 \<Longrightarrow> a \<in> hm_keys h" "deref2 h a = Some k2 \<Longrightarrow> a \<in> hm_keys h"
  by (auto simp: deref1_def deref2_def dest!: map_of_SomeD)
    (metis fst_conv image_eqI)+

lemma find1_iff:
  assumes "mm_wf m"
  shows "find1 k m = Some a \<longleftrightarrow> deref1 (mm_heap m) a = Some k"
proof
  show "find1 k m = Some a \<Longrightarrow> deref1 (mm_heap m) a = Some k"
    by (auto simp: find1_def find_Some_iff)
next
  assume k: "deref1 (mm_heap m) a = Some k"
  have "a \<in> set (mm_map1 m)" using assms key_allocated(1) [OF k] by (simp add: mm_wf_def)
  then obtain b where b: "find1 k m = Some b" "deref1 (mm_heap m) b = Some k"
    using k unfolding find1_def
    by (cases "find (\<lambda>a. deref1 (mm_heap m) a = Some k) (mm_map1 m)") (auto simp: find_None_iff find_Some_iff)
  have "a = b"
    using assms k b(2) key_allocated(1) [OF k] key_allocated(1) [OF b(2)] unfolding mm_wf_def
    by (metis inj_onD)
  then show "find1 k m = Some a" using b by simp
qed

lemma find2_iff:
  assumes "mm_wf m"
  shows "find2 k m = Some a \<longleftrightarrow> deref2 (mm_heap m) a = Some k"
proof
  show "find2 k m = Some a \<Longrightarrow> deref2 (mm_heap m) a = Some k"
    by (auto simp: find2_def find_Some_iff)
next
  assume k: "deref2 (mm_heap m) a = Some k"
  have "a \<in> set (mm_map2 m)" using assms key_allocated(2) [OF k] by (simp add: mm_wf_def)
  then obtain b where b: "find2 k m = Some b" "deref2 (mm_heap m) b = Some k"
    using k unfolding find2_def
    by (cases "find (\<lambda>a. deref2 (mm_heap m) a = Some k) (mm_map2 m)") (auto simp: find_None_iff find_Some_iff)
  have "a = b"
    using assms k b(2) key_allocated(2) [OF k] key_allocated(2) [OF b(2)] unfolding mm_wf_def
    by (metis inj_onD)
  then show "find2 k m = Some a" using b by simp
qed

lemma find1_None:
  assumes "mm_wf m"
  shows "find1 k m = None \<longleftrightarrow> (\<forall>k2 v. (k, k2, v) \<notin> mm_items m)"
proof -
  have "find1 k m = None \<longleftrightarrow> (\<forall>a. deref1 (mm_heap m) a \<noteq> Some k)"
    using find1_iff [OF assms] by (metis not_None_eq)
  then show ?thesis by (force simp: mm_items_iff [OF assms] deref1_def)
qed

lemma find2_None:
  assumes "mm_wf m"
  shows "find2 k m = None \<longleftrightarrow> (\<forall>k1 v. (k1, k, v) \<notin> mm_items m)"
proof -
  have "find2 k m = None \<longleftrightarrow> (\<forall>a. deref2 (mm_heap m) a \<noteq> Some k)"
    using find2_iff [OF assms] by (metis not_None_eq)
  then show ?thesis by (force simp: mm_items_iff [OF assms] deref2_def)
qed

lemma mm_get1_iff:
  assumes "mm_wf m"
  shows "mm_get1 m k = Some v \<longleftrightarrow> (\<exists>k2. (k, k2, v) \<in> mm_items m)"
proof -
  have "mm_get1 m k = Some v \<longleftrightarrow> (\<exists>a k2. hm_get (mm_heap m) a = Some (k, k2, v))"
    by (simp add: mm_get1_def bind_eq_Some_conv find1_iff [OF assms] deref1_def) (force simp: split_paired_all)
  then show ?thesis by (auto simp: mm_items_iff [OF assms])
qed

lemma mm_get2_iff:
  assumes "mm_wf m"
  shows "mm_get2 m k = Some v \<longleftrightarrow> (\<exists>k1. (k1, k, v) \<in> mm_items m)"
proof -
  have "mm_get2 m k = Some v \<longleftrightarrow> (\<exists>a k1. hm_get (mm_heap m) a = Some (k1, k, v))"
    by (simp add: mm_get2_def bind_eq_Some_conv find2_iff [OF assms] deref2_def) (force simp: split_paired_all)
  then show ?thesis by (auto simp: mm_items_iff [OF assms])
qed


lemma filter_unique_key:
  "x \<in> A \<Longrightarrow> f x = k \<Longrightarrow> (\<And>y. y \<in> A \<Longrightarrow> f y = k \<Longrightarrow> y = x) \<Longrightarrow> {y \<in> A. f y \<noteq> k} = A - {x}"
  by blast

lemma mm_keys_unique:
  assumes "mm_wf m" "(a, b, v) \<in> mm_items m" "(a', b', v') \<in> mm_items m" "a = a' \<or> b = b'"
  shows "(a, b, v) = (a', b', v')"
proof -
  obtain p q where "hm_get (mm_heap m) p = Some (a, b, v)" "hm_get (mm_heap m) q = Some (a', b', v')"
    using assms(2,3) by (auto simp: mm_items_iff [OF assms(1)])
  moreover from this have "find1 a m = Some p" "find2 b m = Some p" "find1 a' m = Some q" "find2 b' m = Some q"
    by (simp_all add: find1_iff [OF assms(1)] find2_iff [OF assms(1)] deref1_def deref2_def)
  with assms(4) have "p = q" by auto
  ultimately show ?thesis by simp
qed

lemma mm_item_unique:
  "mm_wf m \<Longrightarrow> i \<in> mm_items m \<Longrightarrow> j \<in> mm_items m \<Longrightarrow> fst i = fst j \<or> fst (snd i) = fst (snd j) \<Longrightarrow> i = j"
  using mm_keys_unique [of m "fst i" "fst (snd i)" "snd (snd i)" "fst j" "fst (snd j)" "snd (snd j)"] by simp

lemma mm_wf_new [inv_intros]: "mm_wf mm_new"
  by (simp add: mm_wf_def mm_new_def)

lemma mm_insert_taken:
  assumes "mm_wf m" "(a, b, w) \<in> mm_items m" "a = k1 \<or> b = k2"
  shows "mm_insert k1 k2 v m = (m, Inl (k1, k2, v))"
  using assms find1_None [OF assms(1)] find2_None [OF assms(1)] by (auto simp: mm_insert_def)

lemma mm_insert_free:
  assumes wf: "mm_wf m" and free: "\<forall>(a, b, w) \<in> mm_items m. a \<noteq> k1 \<and> b \<noteq> k2"
  shows "snd (mm_insert k1 k2 v m) = Inr ()" "mm_wf (fst (mm_insert k1 k2 v m))"
    "mm_items (fst (mm_insert k1 k2 v m)) = insert (k1, k2, v) (mm_items m)"
proof -
  let ?h = "mm_heap m" let ?a = "fresh_addr ?h"
  have none: "find1 k1 m = None" "find2 k2 m = None"
    using free by (auto simp: find1_None [OF wf] find2_None [OF wf])
  then show "snd (mm_insert k1 k2 v m) = Inr ()" by (simp add: mm_insert_def Let_def)
  let ?h' = "hm_insert ?a (k1, k2, v) ?h"
  have fresh: "?a \<notin> hm_keys ?h" by (rule fresh_addr_fresh)
  have eq: "fst (mm_insert k1 k2 v m) =
      m\<lparr>mm_heap := ?h', mm_map1 := ?a # mm_map1 m, mm_map2 := ?a # mm_map2 m\<rparr>"
    using none by (simp add: mm_insert_def Let_def)
  have new: "deref1 ?h' = (deref1 ?h)(?a := Some k1)" "deref2 ?h' = (deref2 ?h)(?a := Some k2)"
    by (auto simp: fun_eq_iff deref1_def deref2_def hm_get_insert)
  have clash: "Some k1 \<notin> deref1 ?h ` A" "Some k2 \<notin> deref2 ?h ` A" for A
    using none find1_iff [OF wf, of k1] find2_iff [OF wf, of k2] by force+
  have "inj_on (deref1 ?h') (insert ?a (hm_keys ?h))" "inj_on (deref2 ?h') (insert ?a (hm_keys ?h))"
    using wf fresh clash by (auto simp: new mm_wf_def inj_on_fun_updI)
  then show wf': "mm_wf (fst (mm_insert k1 k2 v m))"
    using wf fresh unfolding eq mm_wf_def by (simp add: distinct_update)
  show "mm_items (fst (mm_insert k1 k2 v m)) = insert (k1, k2, v) (mm_items m)"
    unfolding set_eq_iff mm_items_iff [OF wf'] insert_iff mm_items_iff [OF wf]
    using fresh hm_get_None [of ?h ?a] by (auto simp: eq hm_get_insert; metis option.distinct(1))
qed

lemma mm_others:
  assumes wf: "mm_wf m" and a: "hm_get (mm_heap m) a = Some i"
  shows "(\<exists>x. x \<noteq> a \<and> hm_get (mm_heap m) x = Some j) \<longleftrightarrow> j \<in> mm_items m - {i}"
proof -
  have "hm_get (mm_heap m) x = Some i \<Longrightarrow> x = a" for x
    using find1_iff [OF wf, of "fst i" x] find1_iff [OF wf, of "fst i" a] a by (simp add: deref1_def)
  then show ?thesis
    using a unfolding Diff_iff singleton_iff mm_items_iff [OF wf] by (metis option.inject)
qed

lemma mm_free:
  assumes wf: "mm_wf m" and a: "hm_get (mm_heap m) a = Some i"
  defines "m' \<equiv> m\<lparr>mm_map1 := remove1 a (mm_map1 m), mm_map2 := remove1 a (mm_map2 m), mm_heap := hm_remove a (mm_heap m)\<rparr>"
  shows "mm_wf m'" "mm_items m' = mm_items m - {i}"
proof -
  have get: "hm_get (mm_heap m') x = (if x = a then None else hm_get (mm_heap m) x)" for x
    by (simp add: m'_def hm_get_remove)
  have old: "deref1 (mm_heap m') x = (if x = a then None else deref1 (mm_heap m) x)"
    "deref2 (mm_heap m') x = (if x = a then None else deref2 (mm_heap m) x)" for x
    by (simp_all add: deref1_def deref2_def get)
  have keys: "hm_keys (mm_heap m') = hm_keys (mm_heap m) - {a}" by (simp add: m'_def)
  have "inj_on (deref1 (mm_heap m')) (hm_keys (mm_heap m'))" "inj_on (deref2 (mm_heap m')) (hm_keys (mm_heap m'))"
    using wf unfolding keys mm_wf_def
    by (auto simp: inj_on_def old)
  then show wf': "mm_wf m'"
    using wf unfolding mm_wf_def keys by (simp add: m'_def distinct_delete)
  have "j \<in> mm_items m' \<longleftrightarrow> (\<exists>x. x \<noteq> a \<and> hm_get (mm_heap m) x = Some j)" for j
    unfolding mm_items_iff [OF wf'] get by (metis option.distinct(1))
  then show "mm_items m' = mm_items m - {i}" unfolding set_eq_iff mm_others [OF wf a] by blast
qed

lemma mm_remove1_hit:
  assumes wf: "mm_wf m" and i: "(k, k2, v) \<in> mm_items m"
  shows "mm_wf (fst (mm_remove1 k m))" "mm_items (fst (mm_remove1 k m)) = mm_items m - {(k, k2, v)}"
    "snd (mm_remove1 k m) = Some v"
proof -
  obtain a where a: "hm_get (mm_heap m) a = Some (k, k2, v)" using i by (auto simp: mm_items_iff [OF wf])
  then have "find1 k m = Some a" "find2 k2 m = Some a"
    by (simp_all add: find1_iff [OF wf] find2_iff [OF wf] deref1_def deref2_def)
  then have "mm_remove1 k m = (m\<lparr>mm_map1 := remove1 a (mm_map1 m), mm_map2 := remove1 a (mm_map2 m),
      mm_heap := hm_remove a (mm_heap m)\<rparr>, Some v)"
    using a by (simp add: mm_remove1_def find2_def)
  then show "mm_wf (fst (mm_remove1 k m))" "mm_items (fst (mm_remove1 k m)) = mm_items m - {(k, k2, v)}"
    "snd (mm_remove1 k m) = Some v"
    using mm_free [OF wf a] by simp_all
qed

lemma mm_remove2_hit:
  assumes wf: "mm_wf m" and i: "(k1, k, v) \<in> mm_items m"
  shows "mm_wf (fst (mm_remove2 k m))" "mm_items (fst (mm_remove2 k m)) = mm_items m - {(k1, k, v)}"
    "snd (mm_remove2 k m) = Some v"
proof -
  obtain a where a: "hm_get (mm_heap m) a = Some (k1, k, v)" using i by (auto simp: mm_items_iff [OF wf])
  then have "find2 k m = Some a" "find1 k1 m = Some a"
    by (simp_all add: find1_iff [OF wf] find2_iff [OF wf] deref1_def deref2_def)
  then have "mm_remove2 k m = (m\<lparr>mm_map1 := remove1 a (mm_map1 m), mm_map2 := remove1 a (mm_map2 m),
      mm_heap := hm_remove a (mm_heap m)\<rparr>, Some v)"
    using a by (simp add: mm_remove2_def find1_def)
  then show "mm_wf (fst (mm_remove2 k m))" "mm_items (fst (mm_remove2 k m)) = mm_items m - {(k1, k, v)}"
    "snd (mm_remove2 k m) = Some v"
    using mm_free [OF wf a] by simp_all
qed

lemma mm_remove_miss:
  "mm_wf m \<Longrightarrow> \<forall>k2 v. (k, k2, v) \<notin> mm_items m \<Longrightarrow> mm_remove1 k m = (m, None)"
  "mm_wf m \<Longrightarrow> \<forall>k1 v. (k1, j, v) \<notin> mm_items m \<Longrightarrow> mm_remove2 j m = (m, None)"
  using find1_None [of m k] find2_None [of m j] by (simp_all add: mm_remove1_def mm_remove2_def)

lemma mm_store_law:
  assumes wf: "mm_wf m" and a: "hm_get (mm_heap m) a = Some (k1, k2, w)"
  shows "mm_wf (mm_store a v m)" "mm_items (mm_store a v m) = insert (k1, k2, v) (mm_items m - {(k1, k2, w)})"
proof -
  have eq: "mm_store a v m = m\<lparr>mm_heap := hm_insert a (k1, k2, v) (mm_heap m)\<rparr>"
    using a by (simp add: mm_store_def)
  have mem: "a \<in> hm_keys (mm_heap m)" using a by (metis hm_get_None option.distinct(1))
  have "deref1 (hm_insert a (k1, k2, v) (mm_heap m)) = deref1 (mm_heap m)"
    "deref2 (hm_insert a (k1, k2, v) (mm_heap m)) = deref2 (mm_heap m)"
    using a by (auto simp: fun_eq_iff deref1_def deref2_def hm_get_insert)
  then show wf': "mm_wf (mm_store a v m)"
    using wf mem unfolding eq mm_wf_def by (simp add: distinct_update insert_absorb)
  have "hm_get (mm_heap (mm_store a v m)) x = (if x = a then Some (k1, k2, v) else hm_get (mm_heap m) x)" for x
    by (simp add: eq hm_get_insert)
  then have "j \<in> mm_items (mm_store a v m) \<longleftrightarrow> j = (k1, k2, v) \<or> (\<exists>x. x \<noteq> a \<and> hm_get (mm_heap m) x = Some j)" for j
    unfolding mm_items_iff [OF wf'] by (metis option.inject)
  then show "mm_items (mm_store a v m) = insert (k1, k2, v) (mm_items m - {(k1, k2, w)})"
    unfolding set_eq_iff mm_others [OF wf a] by blast
qed

lemma store_image:
  assumes wf: "mm_wf m" and i: "(k1, k2, w) \<in> mm_items m"
    and P: "\<And>a b u. (a, b, u) \<in> mm_items m \<Longrightarrow> P a b \<longleftrightarrow> a = k1 \<and> b = k2"
  shows "insert (k1, k2, v) (mm_items m - {(k1, k2, w)}) = (\<lambda>(a, b, u). (a, b, if P a b then v else u)) ` mm_items m"
    (is "?L = ?f ` ?I")
proof -
  have "?f j = j" if "j \<in> ?I - {(k1, k2, w)}" for j
  proof -
    have "fst j \<noteq> k1" using that mm_item_unique [OF wf _ i, of j] by auto
    moreover have "P (fst j) (fst (snd j)) \<longleftrightarrow> fst j = k1 \<and> fst (snd j) = k2"
      using that by (intro P [of _ _ "snd (snd j)"]) simp
    ultimately have "\<not> P (fst j) (fst (snd j))" by simp
    then show ?thesis by (simp add: case_prod_beta)
  qed
  then have "?f ` (?I - {(k1, k2, w)}) = ?I - {(k1, k2, w)}" by force
  moreover have "?f (k1, k2, w) = (k1, k2, v)" using P [OF i] by simp
  moreover have "?f ` ?I = insert (?f (k1, k2, w)) (?f ` (?I - {(k1, k2, w)}))" using i by blast
  ultimately show ?thesis by simp
qed

lemma mm_drop_frees:
  assumes "mm_wf m" shows "mm_drop m = []"
proof -
  have "hm_keys (fold hm_remove as h) = hm_keys h - set as" for as and h :: "(nat, 'a \<times> 'b \<times> 'c) hmap"
    by (induction as arbitrary: h) auto
  then have "hm_keys (mm_drop m) = {}" using assms by (simp add: mm_drop_def mm_wf_def)
  then show ?thesis by simp
qed

section \<open>The interface\<close>

text \<open>
  A finite set of triples in which no two share a first or a second key: what a user of the
  map may rely on.
\<close>

locale two_key_map =
  fixes wf :: "'m \<Rightarrow> bool" and items :: "'m \<Rightarrow> ('k1 \<times> 'k2 \<times> 'v) set" and new :: 'm
    and ins :: "'k1 \<Rightarrow> 'k2 \<Rightarrow> 'v \<Rightarrow> 'm \<Rightarrow> 'm \<times> ('k1 \<times> 'k2 \<times> 'v + unit)"
    and get1 :: "'m \<Rightarrow> 'k1 \<Rightarrow> 'v option" and get2 :: "'m \<Rightarrow> 'k2 \<Rightarrow> 'v option"
    and rem1 :: "'k1 \<Rightarrow> 'm \<Rightarrow> 'm \<times> 'v option"
  assumes new: "wf new" "items new = {}"
    and unique: "wf m \<Longrightarrow> (a, b, v) \<in> items m \<Longrightarrow> (a', b', v') \<in> items m \<Longrightarrow> a = a' \<or> b = b'
        \<Longrightarrow> (a, b, v) = (a', b', v')"
    and ins_taken: "wf m \<Longrightarrow> (a, b, w) \<in> items m \<Longrightarrow> a = k1 \<or> b = k2 \<Longrightarrow> ins k1 k2 v m = (m, Inl (k1, k2, v))"
    and ins_free: "wf m \<Longrightarrow> \<forall>(a, b, w) \<in> items m. a \<noteq> k1 \<and> b \<noteq> k2 \<Longrightarrow>
        snd (ins k1 k2 v m) = Inr () \<and> wf (fst (ins k1 k2 v m)) \<and> items (fst (ins k1 k2 v m)) = insert (k1, k2, v) (items m)"
    and get1: "wf m \<Longrightarrow> get1 m k1 = Some v \<longleftrightarrow> (\<exists>k2. (k1, k2, v) \<in> items m)"
    and get2: "wf m \<Longrightarrow> get2 m k2 = Some v \<longleftrightarrow> (\<exists>k1. (k1, k2, v) \<in> items m)"
    and rem1: "wf m \<Longrightarrow> wf (fst (rem1 k1 m)) \<and> items (fst (rem1 k1 m)) = {i \<in> items m. fst i \<noteq> k1} \<and> snd (rem1 k1 m) = get1 m k1"
begin

lemma ins_cases:
  assumes "wf m"
  obtains a b w where "(a, b, w) \<in> items m" "a = k1 \<or> b = k2" "ins k1 k2 v m = (m, Inl (k1, k2, v))"
  | "snd (ins k1 k2 v m) = Inr ()" "wf (fst (ins k1 k2 v m))"
    "items (fst (ins k1 k2 v m)) = insert (k1, k2, v) (items m)"
proof (cases "\<exists>a b w. (a, b, w) \<in> items m \<and> (a = k1 \<or> b = k2)")
  case True
  then show ?thesis using that(1) ins_taken [OF assms] by metis
next
  case False
  then have "\<forall>(a, b, w) \<in> items m. a \<noteq> k1 \<and> b \<noteq> k2" by blast
  from ins_free [OF assms this, of v] show ?thesis using that(2) by blast
qed

lemma wf_ins: "wf m \<Longrightarrow> wf (fst (ins k1 k2 v m))"
  by (rule ins_cases [of m k1 k2 v]) auto

lemma get1_None: "wf m \<Longrightarrow> get1 m k1 = None \<longleftrightarrow> (\<forall>k2 v. (k1, k2, v) \<notin> items m)"
  using get1 [of m k1] by (metis not_None_eq)

lemma items_ins: "wf m \<Longrightarrow> items (fst (ins k1 k2 v m)) \<subseteq> insert (k1, k2, v) (items m)"
  by (erule ins_cases [of m k1 k2 v]) auto

lemma get1_rem1: "wf m \<Longrightarrow> get1 (fst (rem1 k1 m)) k = (if k = k1 then None else get1 m k)"
proof (cases "k = k1")
  case True
  then show "wf m \<Longrightarrow> ?thesis" using rem1 [of m k1] get1_None [of "fst (rem1 k1 m)" k1] by auto
next
  case False
  assume "wf m"
  then have "get1 (fst (rem1 k1 m)) k = Some v \<longleftrightarrow> get1 m k = Some v" for v
    using False rem1 [of m k1] get1 [of "fst (rem1 k1 m)" k v] get1 [of m k v] by auto
  then show ?thesis using False by (metis not_None_eq)
qed

text \<open>An item inserted under keys that are both free is found by either key, until it is removed.\<close>

lemma get_ins: 
  assumes "wf m" "get1 m k1 = None" "get2 m k2 = None"
  shows "get1 (fst (ins k1 k2 v m)) k1 = Some v" "get2 (fst (ins k1 k2 v m)) k2 = Some v"
proof -
  have free: "\<forall>(a, b, w) \<in> items m. a \<noteq> k1 \<and> b \<noteq> k2"
    using assms get1 [of m k1] get2 [of m k2] by auto
  have "wf (fst (ins k1 k2 v m)) \<and> (k1, k2, v) \<in> items (fst (ins k1 k2 v m))"
    using ins_free [OF assms(1) free, of v] by blast
  then show "get1 (fst (ins k1 k2 v m)) k1 = Some v" "get2 (fst (ins k1 k2 v m)) k2 = Some v"
    using get1 [of "fst (ins k1 k2 v m)" k1 v] get2 [of "fst (ins k1 k2 v m)" k2 v] by blast+
qed

end

lemma mm_remove1_law:
  assumes wf: "mm_wf m"
  shows "mm_wf (fst (mm_remove1 k1 m)) \<and> mm_items (fst (mm_remove1 k1 m)) = {i \<in> mm_items m. fst i \<noteq> k1}
    \<and> snd (mm_remove1 k1 m) = mm_get1 m k1"
proof (cases "\<exists>k2 v. (k1, k2, v) \<in> mm_items m")
  case True
  then obtain k2 v where i: "(k1, k2, v) \<in> mm_items m" by blast
  have "{j \<in> mm_items m. fst j \<noteq> k1} = mm_items m - {(k1, k2, v)}"
    by (rule filter_unique_key [OF i]) (simp, rule mm_item_unique [OF wf _ i], simp_all)
  moreover have "mm_get1 m k1 = Some v" using i by (auto simp: mm_get1_iff [OF wf])
  ultimately show ?thesis using mm_remove1_hit [OF wf i] by simp
next
  case False
  moreover from this have "mm_get1 m k1 = None" using mm_get1_iff [OF wf, of k1] by (metis not_None_eq)
  ultimately show ?thesis using wf mm_remove_miss(1) [OF wf, of k1] by auto
qed

lemma mm_remove2_law:
  assumes wf: "mm_wf m"
  shows "mm_wf (fst (mm_remove2 k m)) \<and> mm_items (fst (mm_remove2 k m)) = {i \<in> mm_items m. fst (snd i) \<noteq> k}
    \<and> snd (mm_remove2 k m) = mm_get2 m k"
proof (cases "\<exists>k1 v. (k1, k, v) \<in> mm_items m")
  case True
  then obtain k1 v where i: "(k1, k, v) \<in> mm_items m" by blast
  have "{j \<in> mm_items m. fst (snd j) \<noteq> k} = mm_items m - {(k1, k, v)}"
    by (rule filter_unique_key [OF i]) (simp, rule mm_item_unique [OF wf _ i], simp_all)
  moreover have "mm_get2 m k = Some v" using i by (auto simp: mm_get2_iff [OF wf])
  ultimately show ?thesis using mm_remove2_hit [OF wf i] by simp
next
  case False
  moreover from this have "mm_get2 m k = None" using mm_get2_iff [OF wf, of k] by (metis not_None_eq)
  ultimately show ?thesis using wf mm_remove_miss(2) [OF wf, of k] by auto
qed

interpretation mm: two_key_map mm_wf mm_items mm_new mm_insert mm_get1 mm_get2 mm_remove1
proof (unfold_locales, goal_cases)
  case 1 show ?case by (rule mm_wf_new)
next
  case 2 show ?case by (simp add: mm_items_def mm_new_def)
next
  case 3 then show ?case by (rule mm_keys_unique)
next
  case 4 then show ?case by (rule mm_insert_taken)
next
  case 5 then show ?case by (simp add: mm_insert_free)
next
  case 6 then show ?case by (rule mm_get1_iff)
next
  case 7 then show ?case by (rule mm_get2_iff)
next
  case 8 then show ?case by (rule mm_remove1_law)
qed

section \<open>Memory safety\<close>

datatype ('k1, 'k2, 'v) mm_op =
    MInsert 'k1 'k2 'v
  | MStore1 'k1 'v
  | MStore2 'k2 'v
  | MRemove1 'k1
  | MRemove2 'k2

fun mm_apply :: "('k1, 'k2, 'v) mm_op \<Rightarrow> ('k1, 'k2, 'v) multi_map \<Rightarrow> ('k1, 'k2, 'v) multi_map" where
  "mm_apply (MInsert k1 k2 v) m = fst (mm_insert k1 k2 v m)"
| "mm_apply (MStore1 k v) m = mm_get1_mut k v m"
| "mm_apply (MStore2 k v) m = mm_get_mut2 k v m"
| "mm_apply (MRemove1 k) m = fst (mm_remove1 k m)"
| "mm_apply (MRemove2 k) m = fst (mm_remove2 k m)"

text \<open>The specification: a set of triples.\<close>

fun spec_apply :: "('k1, 'k2, 'v) mm_op \<Rightarrow> ('k1 \<times> 'k2 \<times> 'v) set \<Rightarrow> ('k1 \<times> 'k2 \<times> 'v) set" where
  "spec_apply (MInsert k1 k2 v) I =
     (if \<exists>(a, b, w) \<in> I. a = k1 \<or> b = k2 then I else insert (k1, k2, v) I)"
| "spec_apply (MStore1 k v) I = (\<lambda>(a, b, w). (a, b, if a = k then v else w)) ` I"
| "spec_apply (MStore2 k v) I = (\<lambda>(a, b, w). (a, b, if b = k then v else w)) ` I"
| "spec_apply (MRemove1 k) I = {i \<in> I. fst i \<noteq> k}"
| "spec_apply (MRemove2 k) I = {i \<in> I. fst (snd i) \<noteq> k}"

lemma mm_apply_refines:
  assumes "mm_wf m"
  shows "mm_wf (mm_apply x m) \<and> mm_items (mm_apply x m) = spec_apply x (mm_items m)"
proof (cases x)
  case (MInsert k1 k2 v)
  show ?thesis
  proof (cases "\<exists>(a, b, w) \<in> mm_items m. a = k1 \<or> b = k2")
    case True
    then obtain a b w where i: "(a, b, w) \<in> mm_items m" "a = k1 \<or> b = k2" by blast
    then show ?thesis using assms MInsert mm_insert_taken [OF assms i] True by simp
  next
    case False
    then have free: "\<forall>(a, b, w) \<in> mm_items m. a \<noteq> k1 \<and> b \<noteq> k2" by blast
    show ?thesis using MInsert mm_insert_free [OF assms free] False by simp
  qed
next
  case (MStore1 k v)
  show ?thesis
  proof (cases "find1 k m")
    case None
    then have "\<forall>i \<in> mm_items m. fst i \<noteq> k" using find1_None [OF assms, of k] by auto
    then have "(\<lambda>(a, b, w). (a, b, if a = k then v else w)) ` mm_items m = mm_items m" by force
    then show ?thesis using MStore1 None assms by (simp add: mm_get1_mut_def)
  next
    case (Some p)
    then obtain b w where p: "hm_get (mm_heap m) p = Some (k, b, w)"
      by (auto simp: find1_iff [OF assms] deref1_def)
    then have i: "(k, b, w) \<in> mm_items m" by (auto simp: mm_items_iff [OF assms])
    have "a = k \<longleftrightarrow> a = k \<and> c = b" if "(a, c, u) \<in> mm_items m" for a c u
      using mm_item_unique [OF assms that i, simplified] by blast
    from store_image [OF assms i, where P = "\<lambda>a _. a = k", OF this]
    show ?thesis using MStore1 Some mm_store_law [OF assms p, of v] by (simp add: mm_get1_mut_def)
  qed
next
  case (MStore2 k v)
  show ?thesis
  proof (cases "find2 k m")
    case None
    then have "\<forall>i \<in> mm_items m. fst (snd i) \<noteq> k" using find2_None [OF assms, of k] by auto
    then have "(\<lambda>(a, b, w). (a, b, if b = k then v else w)) ` mm_items m = mm_items m" by force
    then show ?thesis using MStore2 None assms by (simp add: mm_get_mut2_def)
  next
    case (Some p)
    then obtain b w where p: "hm_get (mm_heap m) p = Some (b, k, w)"
      by (auto simp: find2_iff [OF assms] deref2_def)
    then have i: "(b, k, w) \<in> mm_items m" by (auto simp: mm_items_iff [OF assms])
    have "c = k \<longleftrightarrow> a = b \<and> c = k" if "(a, c, u) \<in> mm_items m" for a c u
      using mm_item_unique [OF assms that i, simplified] by blast
    from store_image [OF assms i, where P = "\<lambda>_ c. c = k", OF this]
    show ?thesis using MStore2 Some mm_store_law [OF assms p, of v] by (simp add: mm_get_mut2_def)
  qed
next
  case (MRemove1 k)
  then show ?thesis using mm_remove1_law [OF assms, of k] by simp
next
  case (MRemove2 k)
  then show ?thesis using mm_remove2_law [OF assms, of k] by simp
qed

text \<open>
  C20. Whatever operations are applied to a new map, the two hash maps point to exactly the
  boxes that are allocated, each once: no dangling pointer is ever left to be read or freed twice, and
  dropping the map frees every box. The items are those of a set of
  triples under the same operations, and both lookups answer from that set.
\<close>

theorem multi_map_refines_set:
  fixes ops :: "('k1, 'k2, 'v) mm_op list"
  defines "m \<equiv> fold mm_apply ops mm_new" and "I \<equiv> fold spec_apply ops {}"
  shows "distinct (mm_map1 m) \<and> set (mm_map1 m) = hm_keys (mm_heap m)
    \<and> distinct (mm_map2 m) \<and> set (mm_map2 m) = hm_keys (mm_heap m)
    \<and> mm_drop m = [] \<and> mm_items m = I
    \<and> (mm_get1 m k1 = Some v \<longleftrightarrow> (\<exists>k2. (k1, k2, v) \<in> I))
    \<and> (mm_get2 m k2 = Some v \<longleftrightarrow> (\<exists>k1. (k1, k2, v) \<in> I))"
proof -
  have "mm_wf (fold mm_apply ops m0) \<and> mm_items (fold mm_apply ops m0) = fold spec_apply ops (mm_items m0)"
    if "mm_wf m0" for m0 :: "('k1, 'k2, 'v) multi_map"
    using that
  proof (induction ops arbitrary: m0)
    case (Cons x ops)
    then show ?case using mm_apply_refines [of m0 x] by simp
  qed simp
  from this [OF mm_wf_new] have wf: "mm_wf m" and I: "mm_items m = I"
    by (simp_all add: m_def I_def mm.new)
  have "mm_get1 m k1 = Some v \<longleftrightarrow> (\<exists>k2. (k1, k2, v) \<in> I)" "mm_get2 m k2 = Some v \<longleftrightarrow> (\<exists>k1. (k1, k2, v) \<in> I)"
    using mm_get1_iff [OF wf, of k1 v] mm_get2_iff [OF wf, of k2 v] unfolding I by this+
  then show ?thesis using wf mm_drop_frees [OF wf] I unfolding mm_wf_def by blast
qed


theorem multi_map_refines_set_witness:
  "mm_drop (fold mm_apply [MInsert (1 :: nat) (2 :: nat) ''a'', MInsert 3 2 ''b'', MInsert 3 4 ''c'', MRemove2 2] mm_new) = []
   \<and> (mm_get1 (fold mm_apply [MInsert (1 :: nat) (2 :: nat) ''a'', MInsert 3 2 ''b'', MInsert 3 4 ''c'', MRemove2 2] mm_new) 3 = Some ''c'')"
proof -
  let ?ops = "[MInsert (1 :: nat) (2 :: nat) ''a'', MInsert 3 2 ''b'', MInsert 3 4 ''c'', MRemove2 2]"
  have "(3, 4, ''c'') \<in> fold spec_apply ?ops {}" by simp
  then show ?thesis using multi_map_refines_set [of ?ops 3 "''c''" 4] by blast
qed

end
