(* ===== verification/Protocol.thy ===== *)
theory Protocol
  imports Kdct_Prelude
begin

text \<open>
  The wire protocol, \<^verbatim>\<open>crates/tunnel/src/protocol.rs\<close>: the messages, the two-byte
  length framing of the control and data channels, and the framing of UDP datagrams inside
  a data channel. A connection is the sequence of bytes it carries; a read returns what is
  left of it. The encoding of a message (\<^verbatim>\<open>bincode\<close>) is a parameter: \<open>ser\<close> yields the payload
  or fails, \<open>de\<close> parses one; what the program relies on is that \<open>de\<close> inverts \<open>ser\<close>.
\<close>

unbundle bit_operations_syntax

section \<open>Messages\<close>

definition HASH_WIDTH_IN_BYTES :: nat where
  "HASH_WIDTH_IN_BYTES = 32"

definition CURRENT_PROTO_VERSION :: u8 where
  "CURRENT_PROTO_VERSION = 1"

type_synonym digest = bytes

record container_info =
  ci_container_name :: string
  ci_image :: string
  ci_ports :: "u16 list"
  ci_status :: string

datatype hello =
    ControlChannelHello u8 digest
  | DataChannelHello u8 digest

datatype auth = Auth digest

datatype ack = AckOk | ServiceNotExist | AuthFailed

fun ack_display :: "ack \<Rightarrow> string" where
  "ack_display AckOk = ''Ok''"
| "ack_display ServiceNotExist = ''Service not exist''"
| "ack_display AuthFailed = ''Incorrect token''"

text \<open>The fields of \<^verbatim>\<open>ReportNodeStatus\<close>.\<close>

record node_report =
  nr_node_uuid :: "string option"
  nr_hostname :: string
  nr_os :: string
  nr_arch :: string
  nr_docker_version :: string
  nr_port_range_start :: u16
  nr_port_range_end :: u16
  nr_cpu_cores :: u32
  nr_memory_mb :: u64
  nr_running_containers :: "container_info list"

text \<open>The fields of \<^verbatim>\<open>ImageStart\<close>.\<close>

record image_start =
  is_image_tag :: string
  is_source :: string
  is_source_type :: string
  is_container_name :: string
  is_port_map :: "(u16 \<times> u16) list"
  is_env :: "(string \<times> string) list"

datatype control_cmd =
    CreateDataChannel
  | HeartBeat
  | PortsAssigned "(u16 \<times> u16) list"
  | ReportNodeStatus node_report
  | AssignNodeUuid string
  | ImageStart image_start
  | ImageStop string
  | ContainerStarted string "u16 list"
  | ContainerStopped string
  | ContainerError string string

datatype data_cmd = StartForwardTcp "u16 option" | StartForwardUdp

datatype proto_error =
    SerializeFailed
  | LengthPrefixEof
  | PayloadEof nat
  | DeserializeFailed
  | VersionMismatch u8
  | UdpHeaderEof
  | UdpDataEof

section \<open>Reading and writing bytes\<close>

definition write_u16 :: "u16 \<Rightarrow> bytes" where
  "write_u16 w = [ucast (drop_bit 8 w), ucast w]"

fun read_u16 :: "bytes \<Rightarrow> (u16 \<times> bytes) option" where
  "read_u16 (hi # lo # s) = Some (push_bit 8 (ucast hi) OR ucast lo, s)"
| "read_u16 _ = None"

definition read_exact :: "nat \<Rightarrow> bytes \<Rightarrow> (bytes \<times> bytes) option" where
  "read_exact n s = (if length s < n then None else Some (take n s, drop n s))"

section \<open>Length-prefixed messages\<close>

definition write_len_prefixed :: "bytes \<Rightarrow> bytes" where
  "write_len_prefixed payload = write_u16 (word_of_nat (length payload)) @ payload"

definition read_len_prefixed :: "bytes \<Rightarrow> proto_error + bytes \<times> bytes" where
  "read_len_prefixed s =
     (case read_u16 s of
        None \<Rightarrow> Inl LengthPrefixEof
      | Some (n, s) \<Rightarrow>
          (case read_exact (unat n) s of
             None \<Rightarrow> Inl (PayloadEof (unat n))
           | Some (buf, s) \<Rightarrow> Inr (buf, s)))"

text \<open>
  \<^verbatim>\<open>write_hello\<close>, \<^verbatim>\<open>write_auth\<close>, \<^verbatim>\<open>write_ack\<close>, \<^verbatim>\<open>write_control_cmd\<close> and \<^verbatim>\<open>write_data_cmd\<close>
  have this one body, each with the encoder of its message type; likewise the readers, of which
  \<^verbatim>\<open>read_hello\<close> also checks the protocol version.
\<close>

definition write_message :: "('m \<Rightarrow> bytes option) \<Rightarrow> 'm \<Rightarrow> proto_error + bytes" where
  "write_message ser m =
     (case ser m of None \<Rightarrow> Inl SerializeFailed | Some payload \<Rightarrow> Inr (write_len_prefixed payload))"

definition read_message :: "(bytes \<Rightarrow> 'm option) \<Rightarrow> bytes \<Rightarrow> proto_error + 'm \<times> bytes" where
  "read_message de s =
     (case read_len_prefixed s of
        Inl e \<Rightarrow> Inl e
      | Inr (buf, s) \<Rightarrow> (case de buf of None \<Rightarrow> Inl DeserializeFailed | Some m \<Rightarrow> Inr (m, s)))"

fun hello_version :: "hello \<Rightarrow> u8" where
  "hello_version (ControlChannelHello v _) = v"
| "hello_version (DataChannelHello v _) = v"

definition read_hello :: "(bytes \<Rightarrow> hello option) \<Rightarrow> bytes \<Rightarrow> proto_error + hello \<times> bytes" where
  "read_hello de s =
     (case read_message de s of
        Inl e \<Rightarrow> Inl e
      | Inr (h, s) \<Rightarrow>
          if hello_version h \<noteq> CURRENT_PROTO_VERSION then Inl (VersionMismatch (hello_version h))
          else Inr (h, s))"

section \<open>UDP datagrams\<close>

text \<open>An address is whatever the encoder of \<^verbatim>\<open>UdpHeader\<close> takes for one.\<close>

record 'a udp_header =
  uh_from :: 'a
  uh_len :: u16

record 'a udp_traffic =
  ut_from :: 'a
  ut_data :: bytes

text \<open>\<^verbatim>\<open>bincode::serialize(&hdr).unwrap()\<close> panics when the encoder fails: the result \<^const>\<open>None\<close>.\<close>

definition udp_write_slice :: "('a udp_header \<Rightarrow> bytes option) \<Rightarrow> 'a \<Rightarrow> bytes \<Rightarrow> bytes option" where
  "udp_write_slice ser from data =
     map_option (\<lambda>v. (word_of_nat (length v) :: u8) # v @ data)
       (ser \<lparr>uh_from = from, uh_len = word_of_nat (length data)\<rparr>)"

definition udp_write :: "('a udp_header \<Rightarrow> bytes option) \<Rightarrow> 'a udp_traffic \<Rightarrow> bytes option" where
  "udp_write ser t =
     map_option (\<lambda>v. (word_of_nat (length v) :: u8) # v @ ut_data t)
       (ser \<lparr>uh_from = ut_from t, uh_len = word_of_nat (length (ut_data t))\<rparr>)"

definition udp_read ::
  "(bytes \<Rightarrow> 'a udp_header option) \<Rightarrow> u8 \<Rightarrow> bytes \<Rightarrow> proto_error + 'a udp_traffic \<times> bytes" where
  "udp_read de hdr_len s =
     (case read_exact (unat hdr_len) s of
        None \<Rightarrow> Inl UdpHeaderEof
      | Some (buf, s) \<Rightarrow>
          (case de buf of
             None \<Rightarrow> Inl DeserializeFailed
           | Some hdr \<Rightarrow>
               (case read_exact (unat (uh_len hdr)) s of
                  None \<Rightarrow> Inl UdpDataEof
                | Some (data, s) \<Rightarrow> Inr (\<lparr>ut_from = uh_from hdr, ut_data = data\<rparr>, s))))"

text \<open>The read loop of a forwarder: one length byte, then the datagram.\<close>

definition udp_read_one :: "(bytes \<Rightarrow> 'a udp_header option) \<Rightarrow> bytes \<Rightarrow> proto_error + 'a udp_traffic \<times> bytes" where
  "udp_read_one de s =
     (case s of [] \<Rightarrow> Inl LengthPrefixEof | n # s \<Rightarrow> udp_read de n s)"

lemmas [kdct_simps] = HASH_WIDTH_IN_BYTES_def CURRENT_PROTO_VERSION_def write_u16_def read_exact_def
  write_len_prefixed_def read_len_prefixed_def write_message_def read_message_def read_hello_def
  udp_write_slice_def udp_write_def udp_read_def udp_read_one_def

section \<open>Framing\<close>

lemma read_write_u16 [simp]: "read_u16 (write_u16 w @ s) = Some (w, s)"
proof -
  have "push_bit 8 (ucast (ucast (drop_bit 8 w) :: u8)) OR ucast (ucast w :: u8) = (w :: u16)"
    by (rule bit_word_eqI) (auto simp: bit_simps)
  then show ?thesis by (simp add: write_u16_def)
qed

lemma read_exact_append: "read_exact (length p) (p @ s) = Some (p, s)"
  by (simp add: read_exact_def)

text \<open>Reading a number of messages one after the other.\<close>

fun read_many :: "(bytes \<Rightarrow> 'e + 'm \<times> bytes) \<Rightarrow> nat \<Rightarrow> bytes \<Rightarrow> 'e + 'm list \<times> bytes" where
  "read_many rd 0 s = Inr ([], s)"
| "read_many rd (Suc n) s =
     (case rd s of
        Inl e \<Rightarrow> Inl e
      | Inr (m, s) \<Rightarrow> (case read_many rd n s of Inl e \<Rightarrow> Inl e | Inr (ms, s) \<Rightarrow> Inr (m # ms, s)))"

text \<open>
  A framing: what one write puts on the wire, one read takes off it and leaves the rest.
\<close>

locale framing =
  fixes wr :: "'m \<Rightarrow> bytes"
    and rd :: "bytes \<Rightarrow> 'e + 'm \<times> bytes"
    and fits :: "'m \<Rightarrow> bool"
  assumes read_written: "fits m \<Longrightarrow> rd (wr m @ s) = Inr (m, s)"
begin

lemma read_many_written: "list_all fits ms \<Longrightarrow> read_many rd (length ms) (concat (map wr ms) @ s) = Inr (ms, s)"
  by (induction ms) (simp_all add: read_written)

lemma wr_prefix_free: "fits m \<Longrightarrow> fits m' \<Longrightarrow> wr m @ s = wr m' @ s' \<Longrightarrow> m = m' \<and> s = s'"
  by (metis Pair_inject read_written sum.inject(2))

end

interpretation frame: framing write_len_prefixed read_len_prefixed "\<lambda>p. length p < 65536"
proof unfold_locales
  fix m s :: bytes
  assume len: "length m < 65536"
  have "unat (word_of_nat (length m) :: u16) = length m"
    using len by (simp add: unat_of_nat)
  then show "read_len_prefixed (write_len_prefixed m @ s) = Inr (m, s)"
    by (simp add: write_len_prefixed_def read_len_prefixed_def read_exact_append)
qed

section \<open>Messages arrive as they were sent\<close>

lemma read_message_written:
  assumes "ser m = Some b" and "de b = Some m" and "length b < 65536"
  shows "read_message de (write_len_prefixed b @ s) = Inr (m, s)"
  using assms by (simp add: read_message_def frame.read_written)

text \<open>
  C14. A channel delivers what was sent: when the decoder inverts the encoder and every
  message encodes to at most 65535 bytes, writing the messages one after the other
  succeeds and reading as many gives the same messages in the same order, leaving exactly
  the bytes that follow.
\<close>

theorem messages_roundtrip:
  assumes "\<forall>m b. ser m = Some b \<longrightarrow> de b = Some m"
    and "\<forall>m \<in> set ms. \<exists>b. ser m = Some b \<and> length b < 65536"
  shows "\<exists>ws. map (write_message ser) ms = map Inr ws \<and>
    read_many (read_message de) (length ms) (concat ws @ rest) = Inr (ms, rest)"
proof -
  let ?wr = "\<lambda>m. write_len_prefixed (the (ser m))"
  have f: "framing ?wr (read_message de) (\<lambda>m. m \<in> set ms)"
    using assms read_message_written [of ser _ _ de] by unfold_locales force
  have "map (write_message ser) ms = map Inr (map ?wr ms)"
    using assms(2) by (auto simp: write_message_def)
  moreover have "read_many (read_message de) (length ms) (concat (map ?wr ms) @ rest) = Inr (ms, rest)"
    by (rule framing.read_many_written [OF f]) (simp add: list_all_iff)
  ultimately show ?thesis by blast
qed

theorem messages_roundtrip_witness:
  "\<exists>ws. map (write_message (\<lambda>c. if c = HeartBeat then Some [1] else if c = CreateDataChannel then Some [0] else None))
      [HeartBeat, CreateDataChannel] = map Inr ws \<and>
    read_many (read_message (\<lambda>b. if b = [1] then Some HeartBeat else if b = [0] then Some CreateDataChannel else None))
      2 (concat ws @ [7]) = Inr ([HeartBeat, CreateDataChannel], [7])"
  using messages_roundtrip [of "\<lambda>c. if c = HeartBeat then Some [1] else if c = CreateDataChannel then Some [0] else None"
      "\<lambda>b. if b = [1] then Some HeartBeat else if b = [0] then Some CreateDataChannel else None"
      "[HeartBeat, CreateDataChannel]" "[7]"]
  by (auto simp: numeral_2_eq_2)

text \<open>
  Version check: whatever bytes arrive, \<^verbatim>\<open>read_hello\<close> yields a greeting only if it carries
  the current protocol version, and a well-framed greeting of any other version is
  rejected with the version it carries.
\<close>

theorem read_hello_version_checked:
  assumes "ser h = Some b" and "de b = Some h" and "length b < 65536"
  shows "(read_hello de s = Inr (h', s') \<longrightarrow> hello_version h' = CURRENT_PROTO_VERSION) \<and>
    read_hello de (write_len_prefixed b @ rest) =
      (if hello_version h = CURRENT_PROTO_VERSION then Inr (h, rest)
       else Inl (VersionMismatch (hello_version h)))"
  using read_message_written [of ser h b de rest] assms
  by (auto simp: read_hello_def split: sum.splits if_splits)

theorem read_hello_version_checked_witness:
  "read_hello (\<lambda>b. if b = [9] then Some (ControlChannelHello 0 []) else None) (write_len_prefixed [9] @ []) =
     Inl (VersionMismatch 0)"
  using read_hello_version_checked [where rest = "[]" and b = "[9]" and h = "ControlChannelHello 0 []" and
      ser = "\<lambda>h. if h = ControlChannelHello 0 [] then Some [9] else None" and
      de = "\<lambda>b. if b = [9] then Some (ControlChannelHello 0 []) else None"]
  by (simp add: CURRENT_PROTO_VERSION_def)

text \<open>
  An oversized message breaks the channel: the length prefix is the payload's length modulo
  65536, so the receiver takes that many bytes as the message and reads the rest of the
  payload as further frames.
\<close>

theorem oversized_frame_truncated:
  assumes "65536 \<le> length payload"
  shows "\<exists>n < length payload. read_len_prefixed (write_len_prefixed payload @ rest) =
    Inr (take n payload, drop n payload @ rest) \<and> drop n payload \<noteq> []"
proof -
  let ?n = "length payload mod 65536"
  have n: "unat (word_of_nat (length payload) :: u16) = ?n" by (simp add: unat_of_nat)
  have "?n < 65536" by simp
  with assms have lt: "?n < length payload" by linarith
  then have "read_len_prefixed (write_len_prefixed payload @ rest) = Inr (take ?n payload, drop ?n payload @ rest)"
    by (simp add: write_len_prefixed_def read_len_prefixed_def n read_exact_def)
  with lt show ?thesis by (intro exI [of _ ?n]) simp
qed

theorem oversized_frame_truncated_witness:
  "\<exists>n. read_len_prefixed (write_len_prefixed (replicate 65536 0)) =
     Inr (take n (replicate 65536 0), drop n (replicate 65536 0)) \<and> drop n (replicate 65536 (0 :: u8)) \<noteq> []"
proof -
  have "65536 \<le> length (replicate 65536 (0 :: u8))" by (simp only: length_replicate)
  from oversized_frame_truncated [OF this, of "[]"] show ?thesis
    unfolding append_Nil2 by blast
qed

lemma udp_read_written:
  assumes "ser \<lparr>uh_from = ut_from t, uh_len = word_of_nat (length (ut_data t))\<rparr> = Some v"
    and "de v = Some \<lparr>uh_from = ut_from t, uh_len = word_of_nat (length (ut_data t))\<rparr>"
    and "length v < 256" and "length (ut_data t) < 65536"
  shows "udp_read_one de ((the (udp_write ser t)) @ s) = Inr (t, s)"
proof -
  have "unat (word_of_nat (length v) :: u8) = length v" "unat (word_of_nat (length (ut_data t)) :: u16) = length (ut_data t)"
    using assms(3,4) by (simp_all add: unat_of_nat)
  then show ?thesis
    using assms(1,2) by (simp add: udp_read_one_def udp_read_def udp_write_def read_exact_append)
qed

text \<open>
  UDP datagrams keep their boundaries: datagrams below 64 KiB whose header encodes to
  fewer than 256 bytes are read back from a data channel one by one, each with its sender
  and its exact payload.
\<close>

theorem udp_roundtrip:
  assumes "\<forall>h v. ser h = Some v \<longrightarrow> de v = Some h"
    and "\<forall>t \<in> set ts. length (ut_data t) < 65536 \<and>
      (\<exists>v. ser \<lparr>uh_from = ut_from t, uh_len = word_of_nat (length (ut_data t))\<rparr> = Some v \<and> length v < 256)"
  shows "\<exists>ws. map (udp_write ser) ts = map Some ws \<and>
    read_many (udp_read_one de) (length ts) (concat ws @ rest) = Inr (ts, rest)"
proof -
  let ?wr = "\<lambda>t. the (udp_write ser t)"
  have f: "framing ?wr (udp_read_one de) (\<lambda>t. t \<in> set ts)"
    using assms udp_read_written [of ser _ _ de] by unfold_locales blast
  have "map (udp_write ser) ts = map Some (map ?wr ts)"
    using assms(2) by (auto simp: udp_write_def)
  moreover have "read_many (udp_read_one de) (length ts) (concat (map ?wr ts) @ rest) = Inr (ts, rest)"
    by (rule framing.read_many_written [OF f]) (simp add: list_all_iff)
  ultimately show ?thesis by blast
qed

theorem udp_roundtrip_witness:
  "\<exists>ws. map (udp_write (\<lambda>h. Some (uh_from h # write_u16 (uh_len h))))
      [\<lparr>ut_from = 3, ut_data = [1, 2]\<rparr>, \<lparr>ut_from = 4, ut_data = []\<rparr>] = map Some ws \<and>
    read_many (udp_read_one (\<lambda>b. case b of [] \<Rightarrow> None
        | a # r \<Rightarrow> map_option (\<lambda>(n, _). \<lparr>uh_from = a, uh_len = n\<rparr>) (read_u16 r))) 2 (concat ws @ []) =
      Inr ([\<lparr>ut_from = 3, ut_data = [1, 2]\<rparr>, \<lparr>ut_from = 4, ut_data = []\<rparr>], [])"
proof -
  let ?ts = "[\<lparr>ut_from = 3 :: u8, ut_data = [1, 2]\<rparr>, \<lparr>ut_from = 4, ut_data = []\<rparr>]"
  let ?ser = "\<lambda>h. Some (uh_from h # write_u16 (uh_len h))"
  let ?de = "\<lambda>b. case b of [] \<Rightarrow> None
        | a # r \<Rightarrow> map_option (\<lambda>(n, _). \<lparr>uh_from = a, uh_len = n\<rparr>) (read_u16 r)"
  have "\<forall>h v. ?ser h = Some v \<longrightarrow> ?de v = Some h"
    using read_write_u16 [of _ "[]"] by auto
  moreover have "\<forall>t \<in> set ?ts. length (ut_data t) < 65536 \<and>
      (\<exists>v. ?ser \<lparr>uh_from = ut_from t, uh_len = word_of_nat (length (ut_data t))\<rparr> = Some v \<and> length v < 256)"
    by (simp add: write_u16_def)
  ultimately have r: "\<exists>ws. map (udp_write ?ser) ?ts = map Some ws \<and>
      read_many (udp_read_one ?de) (length ?ts) (concat ws @ []) = Inr (?ts, [])"
    by (rule udp_roundtrip)
  have "length ?ts = 2" by simp
  from r [unfolded this] show ?thesis .
qed

end
