(* ===== verification/Registry.thy ===== *)
theory Registry
  imports Protocol
begin

text \<open>
  The registry of connected clients and the events the tunnel reports to the panel,
  \<^verbatim>\<open>crates/tunnel/src/registry.rs\<close> and \<^verbatim>\<open>crates/tunnel/src/node_update.rs\<close>. The four channel
  ends of a \<^verbatim>\<open>ClientEntry\<close> (command sender, pending answers, data-channel requests and port
  callbacks) are created together by one control channel, so an entry names that
  channel and the channel's own state holds the queue and the pending answers.
\<close>

record client_entry =
  ce_node_uuid :: string
  ce_hostname :: string
  ce_os :: string
  ce_arch :: string
  ce_docker_version :: string
  ce_port_range_start :: u16
  ce_port_range_end :: u16
  ce_cpu_cores :: u32
  ce_memory_mb :: u64
  ce_running_containers :: "container_info list"
  ce_channel :: nat

type_synonym registry = "(string, client_entry) hmap"

type_synonym node_bindings = "(string, string) hmap"

definition new_registry :: registry where
  "new_registry = []"

definition new_bindings :: node_bindings where
  "new_bindings = []"

definition registry_upsert :: "client_entry \<Rightarrow> registry \<Rightarrow> registry" where
  "registry_upsert e reg = hm_insert (ce_node_uuid e) e reg"

definition registry_remove :: "string \<Rightarrow> registry \<Rightarrow> registry" where
  "registry_remove uuid reg = hm_remove uuid reg"

text \<open>
  A control channel: whether its receiving task is alive, the commands queued for the
  client, and the container names that wait for an answer, each with its one-shot sender.
\<close>

record channel =
  ch_alive :: bool
  ch_sent :: "control_cmd list"
  ch_pending :: "(string, nat) hmap"

type_synonym channels = "nat \<Rightarrow> channel"

text \<open>\<^verbatim>\<open>cmd_tx.send(cmd)\<close> fails exactly when the receiver is gone.\<close>

definition send_cmd :: "nat \<Rightarrow> control_cmd \<Rightarrow> channels \<Rightarrow> channels option" where
  "send_cmd ch cmd chs =
     (if ch_alive (chs ch) then Some (chs(ch := (chs ch)\<lparr>ch_sent := ch_sent (chs ch) @ [cmd]\<rparr>)) else None)"

definition pending_insert :: "nat \<Rightarrow> string \<Rightarrow> nat \<Rightarrow> channels \<Rightarrow> channels" where
  "pending_insert ch name tx chs =
     chs(ch := (chs ch)\<lparr>ch_pending := hm_insert name tx (ch_pending (chs ch))\<rparr>)"

definition pending_remove :: "nat \<Rightarrow> string \<Rightarrow> channels \<Rightarrow> channels" where
  "pending_remove ch name chs =
     chs(ch := (chs ch)\<lparr>ch_pending := hm_remove name (ch_pending (chs ch))\<rparr>)"

section \<open>Events\<close>

record connected_info =
  nc_service_digest :: string
  nc_hostname :: string
  nc_os :: string
  nc_arch :: string
  nc_docker_version :: string
  nc_port_range_start :: u16
  nc_port_range_end :: u16
  nc_cpu_cores :: u32
  nc_memory_mb :: u64
  nc_running_containers :: "container_info list"

datatype node_event =
    Connected connected_info
  | Disconnected string
  | EvContainerStarted string "u16 list"
  | EvContainerStopped string
  | EvContainerError string string

record node_update =
  nu_uuid :: string
  nu_event :: node_event

lemmas [kdct_simps] = new_registry_def new_bindings_def registry_upsert_def registry_remove_def
  send_cmd_def pending_insert_def pending_remove_def

end
