(* ===== verification/Tunnel_Server.thy ===== *)
theory Tunnel_Server
  imports Multi_Map Registry
begin

text \<open>
  The tunnel server, \<^verbatim>\<open>crates/tunnel/src/server.rs\<close>: handshakes, one control channel
  per client connection, the identity a channel reports under, data channels and
  the pool that hands them to visitors.

  Channels are numbered in the order they are spawned. A channel is a task whose control
  state is explicit: the handler of a status report and the clean-up after a channel
  ends take several locks one after the other, and between two of them any other channel may run. One
  step of the model is one such locked region. Randomness (\<^verbatim>\<open>Uuid::new_v4\<close>, the nonce and the channel
  id) is an argument of the step that draws it; parsing of uuids, hex and the digest are
  libraries and stand as parameters in \<open>server_env\<close>.
\<close>

section \<open>State\<close>

record server_env =
  env_token :: bytes
  env_digest :: "bytes \<Rightarrow> digest"
  env_hex :: "bytes \<Rightarrow> string"
  env_uuid_ok :: "string \<Rightarrow> bool"
  env_heartbeat :: u64

datatype resolve = Accept string | AssignAndUse string

fun resolved_uuid :: "resolve \<Rightarrow> string" where
  "resolved_uuid (Accept u) = u"
| "resolved_uuid (AssignAndUse u) = u"

text \<open>Where a channel's task stands.\<close>

datatype task =
    Waiting
  | Reporting node_report
  | Resolving node_report "string list"
  | Assigning node_report resolve
  | Indexing node_report string
  | Evicting node_report string "digest option"
  | Registering node_report string
  | Publishing node_report string
  | Answering node_report
  | Leaving
  | CleanIndex
  | CleanRegistry string
  | CleanChannel
  | Gone

record control_channel =
  cc_service_digest :: digest
  cc_channel_id :: digest
  cc_session_key :: digest
  cc_hostname :: "string option"
  cc_node_uuid :: "string option"
  cc_node_uuid_slot :: "string option"
  cc_task :: task
  cc_requests :: nat                        \<comment> \<open>queued requests for a data channel\<close>
  cc_wire :: "control_cmd list"             \<comment> \<open>what was written to the client\<close>
  cc_port_pending :: "(nat \<times> u16) list"
  cc_callbacks :: "(nat \<times> u16) list"        \<comment> \<open>visitors of forwarded ports, with the local port\<close>
  cc_pool :: "nat list"                     \<comment> \<open>data channels waiting for a visitor of the service port\<close>
  cc_pool_alive :: bool

text \<open>A handle in the map of control channels names the channel whose queues it shares.\<close>

record tunnel =
  tn_ccs :: "nat \<Rightarrow> control_channel"
  tn_next :: nat
  tn_control_channels :: "(digest, digest, nat) multi_map"
  tn_uuid_index :: "(string, digest) hmap"
  tn_registry :: registry
  tn_channels :: channels
  tn_bindings :: node_bindings
  tn_updates :: "node_update list"          \<comment> \<open>sent to the panel, oldest first\<close>
  tn_replies :: "(nat \<times> (string + u16 list)) list" \<comment> \<open>answered one-shot senders\<close>

definition TCP_POOL_SIZE :: nat where
  "TCP_POOL_SIZE = 8"

text \<open>The server before its first connection; \<open>b\<close> are the bindings loaded from the database.\<close>

definition server_from :: "node_bindings \<Rightarrow> tunnel" where
  "server_from b =
     \<lparr>tn_ccs = (\<lambda>_. \<lparr>cc_service_digest = [], cc_channel_id = [], cc_session_key = [], cc_hostname = None,
         cc_node_uuid = None, cc_node_uuid_slot = None, cc_task = Gone, cc_requests = 0, cc_wire = [],
         cc_port_pending = [], cc_callbacks = [], cc_pool = [], cc_pool_alive = False\<rparr>),
      tn_next = 0, tn_control_channels = mm_new, tn_uuid_index = [], tn_registry = new_registry,
      tn_channels = (\<lambda>_. \<lparr>ch_alive = False, ch_sent = [], ch_pending = []\<rparr>),
      tn_bindings = b, tn_updates = [], tn_replies = []\<rparr>"

definition upd_cc :: "nat \<Rightarrow> (control_channel \<Rightarrow> control_channel) \<Rightarrow> tunnel \<Rightarrow> tunnel" where
  "upd_cc i f s = s\<lparr>tn_ccs := (tn_ccs s)(i := f (tn_ccs s i))\<rparr>"

definition goto :: "nat \<Rightarrow> task \<Rightarrow> tunnel \<Rightarrow> tunnel" where
  "goto i t = upd_cc i (\<lambda>c. c\<lparr>cc_task := t\<rparr>)"

section \<open>Identity\<close>

definition claimed_uuid :: "(string \<Rightarrow> bool) \<Rightarrow> node_report \<Rightarrow> string option" where
  "claimed_uuid uuid_ok rep =
     Option.bind (nr_node_uuid rep)
       (\<lambda>u. let t = trim u in if t = [] then None else if uuid_ok t then Some t else None)"

text \<open>The one bound identity of this digest, if it has exactly one and that one is not online.\<close>

definition solo_offline :: "string \<Rightarrow> string list \<Rightarrow> node_bindings \<Rightarrow> string option" where
  "solo_offline dig online b =
     (case map fst (filter (\<lambda>(u, d). d = dig) b) of
        [only] \<Rightarrow> if only \<in> set online then None else Some only
      | _ \<Rightarrow> None)"

definition resolve_uuid ::
  "string \<Rightarrow> string option \<Rightarrow> string option \<Rightarrow> string list \<Rightarrow> string \<Rightarrow> node_bindings \<Rightarrow> resolve \<times> node_bindings" where
  "resolve_uuid dig existing claimed online new_v4 b =
     (case existing of
        Some e \<Rightarrow> (Accept e, b)
      | None \<Rightarrow>
          (case claimed of
             Some c \<Rightarrow>
               (case hm_get b c of
                  Some d \<Rightarrow> if d = dig then (Accept c, b) else (AssignAndUse new_v4, hm_insert new_v4 dig b)
                | None \<Rightarrow> (Accept c, hm_insert c dig b))
           | None \<Rightarrow>
               (case solo_offline dig online b of
                  Some u \<Rightarrow> (AssignAndUse u, b)
                | None \<Rightarrow> (AssignAndUse new_v4, hm_insert new_v4 dig b))))"

section \<open>The handler of a status report, and the end of a channel\<close>

definition entry_of :: "nat \<Rightarrow> string \<Rightarrow> node_report \<Rightarrow> client_entry" where
  "entry_of i u rep =
     \<lparr>ce_node_uuid = u, ce_hostname = nr_hostname rep, ce_os = nr_os rep, ce_arch = nr_arch rep,
      ce_docker_version = nr_docker_version rep,
      ce_port_range_start = nr_port_range_start rep, ce_port_range_end = nr_port_range_end rep,
      ce_cpu_cores = nr_cpu_cores rep, ce_memory_mb = nr_memory_mb rep,
      ce_running_containers = nr_running_containers rep, ce_channel = i\<rparr>"

definition connected_of :: "string \<Rightarrow> node_report \<Rightarrow> connected_info" where
  "connected_of dig rep =
     \<lparr>nc_service_digest = dig, nc_hostname = nr_hostname rep, nc_os = nr_os rep, nc_arch = nr_arch rep,
      nc_docker_version = nr_docker_version rep,
      nc_port_range_start = nr_port_range_start rep, nc_port_range_end = nr_port_range_end rep,
      nc_cpu_cores = nr_cpu_cores rep, nc_memory_mb = nr_memory_mb rep,
      nc_running_containers = nr_running_containers rep\<rparr>"

text \<open>\<^verbatim>\<open>pending.remove(name)\<close> and the answer to the one-shot sender it held.\<close>

definition answer_pending :: "nat \<Rightarrow> string \<Rightarrow> string + u16 list \<Rightarrow> tunnel \<Rightarrow> tunnel" where
  "answer_pending i name r s =
     (case hm_get (ch_pending (tn_channels s i)) name of
        None \<Rightarrow> s
      | Some tx \<Rightarrow> s\<lparr>tn_channels := pending_remove i name (tn_channels s), tn_replies := tn_replies s @ [(tx, r)]\<rparr>)"

definition send_update :: "string \<Rightarrow> node_event \<Rightarrow> tunnel \<Rightarrow> tunnel" where
  "send_update u e s = s\<lparr>tn_updates := tn_updates s @ [\<lparr>nu_uuid = u, nu_event = e\<rparr>]\<rparr>"

text \<open>The locked regions, in the order the handler runs them.\<close>

definition snapshot_online :: "nat \<Rightarrow> node_report \<Rightarrow> tunnel \<Rightarrow> tunnel" where
  "snapshot_online i rep s = goto i (Resolving rep (map fst (tn_registry s))) s"

definition resolve_identity :: "server_env \<Rightarrow> string \<Rightarrow> nat \<Rightarrow> node_report \<Rightarrow> string list \<Rightarrow> tunnel \<Rightarrow> tunnel" where
  "resolve_identity env new_v4 i rep online s =
     (case resolve_uuid (env_hex env (cc_service_digest (tn_ccs s i))) (cc_node_uuid (tn_ccs s i))
             (claimed_uuid (env_uuid_ok env) rep) online new_v4 (tn_bindings s) of
        (r, b) \<Rightarrow> goto i (Assigning rep r) (s\<lparr>tn_bindings := b\<rparr>))"

definition assign_identity :: "nat \<Rightarrow> node_report \<Rightarrow> resolve \<Rightarrow> tunnel \<Rightarrow> tunnel" where
  "assign_identity i rep r s =
     (let s = (case r of
                 Accept u \<Rightarrow> s
               | AssignAndUse u \<Rightarrow>
                   (case send_cmd i (AssignNodeUuid u) (tn_channels s) of
                      None \<Rightarrow> s
                    | Some chs \<Rightarrow> s\<lparr>tn_channels := chs\<rparr>));
          s = (case cc_node_uuid (tn_ccs s i) of
                 Some prev \<Rightarrow> if prev \<noteq> resolved_uuid r then s\<lparr>tn_registry := registry_remove prev (tn_registry s)\<rparr> else s
               | None \<Rightarrow> s)
      in goto i (Indexing rep (resolved_uuid r)) s)"

definition index_channel :: "nat \<Rightarrow> node_report \<Rightarrow> string \<Rightarrow> tunnel \<Rightarrow> tunnel" where
  "index_channel i rep u s =
     goto i (Evicting rep u (hm_get (tn_uuid_index s) u))
       (s\<lparr>tn_uuid_index := hm_insert u (cc_channel_id (tn_ccs s i)) (tn_uuid_index s)\<rparr>)"

definition evict_channel :: "nat \<Rightarrow> node_report \<Rightarrow> string \<Rightarrow> digest option \<Rightarrow> tunnel \<Rightarrow> tunnel" where
  "evict_channel i rep u prev s =
     goto i (Registering rep u)
       (case prev of
          Some p \<Rightarrow>
            if p \<noteq> cc_channel_id (tn_ccs s i)
            then s\<lparr>tn_control_channels := fst (mm_remove1 p (tn_control_channels s))\<rparr> else s
        | None \<Rightarrow> s)"

definition register_client :: "nat \<Rightarrow> node_report \<Rightarrow> string \<Rightarrow> tunnel \<Rightarrow> tunnel" where
  "register_client i rep u s =
     goto i (Publishing rep u) (s\<lparr>tn_registry := registry_upsert (entry_of i u rep) (tn_registry s)\<rparr>)"

definition publish_connected :: "server_env \<Rightarrow> nat \<Rightarrow> node_report \<Rightarrow> string \<Rightarrow> tunnel \<Rightarrow> tunnel" where
  "publish_connected env i rep u s =
     goto i (Answering rep)
       (upd_cc i (\<lambda>c. c\<lparr>cc_node_uuid := Some u, cc_node_uuid_slot := Some u, cc_hostname := Some (nr_hostname rep)\<rparr>)
         (send_update u (Connected (connected_of (env_hex env (cc_service_digest (tn_ccs s i))) rep)) s))"

definition answer_running :: "nat \<Rightarrow> node_report \<Rightarrow> tunnel \<Rightarrow> tunnel" where
  "answer_running i rep s =
     goto i Waiting
       (fold (\<lambda>k. answer_pending i (ci_container_name k) (Inr (ci_ports k))) (nr_running_containers rep) s)"

text \<open>After the loop: the disconnect is reported, then the clean-up task takes its locks.\<close>

definition leave_loop :: "nat \<Rightarrow> tunnel \<Rightarrow> tunnel" where
  "leave_loop i s =
     goto i CleanIndex
       (let s = s\<lparr>tn_channels := (tn_channels s)(i := (tn_channels s i)\<lparr>ch_alive := False\<rparr>)\<rparr> in
        case (cc_hostname (tn_ccs s i), cc_node_uuid (tn_ccs s i)) of
          (Some h, Some u) \<Rightarrow> send_update u (Disconnected h) s
        | _ \<Rightarrow> s)"

definition clean_index :: "nat \<Rightarrow> tunnel \<Rightarrow> tunnel" where
  "clean_index i s =
     (case cc_node_uuid_slot (tn_ccs s i) of
        Some u \<Rightarrow>
          goto i (CleanRegistry u)
            (if hm_get (tn_uuid_index s) u = Some (cc_channel_id (tn_ccs s i))
             then s\<lparr>tn_uuid_index := hm_remove u (tn_uuid_index s)\<rparr> else s)
      | None \<Rightarrow> goto i CleanChannel s)"

definition clean_registry :: "nat \<Rightarrow> string \<Rightarrow> tunnel \<Rightarrow> tunnel" where
  "clean_registry i u s = goto i CleanChannel (s\<lparr>tn_registry := registry_remove u (tn_registry s)\<rparr>)"

definition clean_channel :: "nat \<Rightarrow> tunnel \<Rightarrow> tunnel" where
  "clean_channel i s =
     goto i Gone (s\<lparr>tn_control_channels := fst (mm_remove1 (cc_channel_id (tn_ccs s i)) (tn_control_channels s))\<rparr>)"

text \<open>One locked region of channel \<open>i\<close>; \<open>new_v4\<close> is the uuid the generator would return.\<close>

definition advance :: "server_env \<Rightarrow> string \<Rightarrow> nat \<Rightarrow> tunnel \<Rightarrow> tunnel" where
  "advance env new_v4 i s =
     (case cc_task (tn_ccs s i) of
        Waiting \<Rightarrow> s
      | Reporting rep \<Rightarrow> snapshot_online i rep s
      | Resolving rep online \<Rightarrow> resolve_identity env new_v4 i rep online s
      | Assigning rep r \<Rightarrow> assign_identity i rep r s
      | Indexing rep u \<Rightarrow> index_channel i rep u s
      | Evicting rep u prev \<Rightarrow> evict_channel i rep u prev s
      | Registering rep u \<Rightarrow> register_client i rep u s
      | Publishing rep u \<Rightarrow> publish_connected env i rep u s
      | Answering rep \<Rightarrow> answer_running i rep s
      | Leaving \<Rightarrow> leave_loop i s
      | CleanIndex \<Rightarrow> clean_index i s
      | CleanRegistry u \<Rightarrow> clean_registry i u s
      | CleanChannel \<Rightarrow> clean_channel i s
      | Gone \<Rightarrow> s)"

lemmas advance_defs = advance_def snapshot_online_def resolve_identity_def assign_identity_def index_channel_def
  evict_channel_def register_client_def publish_connected_def answer_running_def leave_loop_def clean_index_def
  clean_registry_def clean_channel_def

section \<open>What a waiting channel reacts to\<close>

definition report_update :: "nat \<Rightarrow> node_event \<Rightarrow> tunnel \<Rightarrow> tunnel" where
  "report_update i e s = (case cc_node_uuid (tn_ccs s i) of None \<Rightarrow> s | Some u \<Rightarrow> send_update u e s)"

text \<open>
  A command from the client. The event of a container error is built but the send is never
  awaited, so it does not happen.
\<close>

fun receive :: "nat \<Rightarrow> control_cmd \<Rightarrow> tunnel \<Rightarrow> tunnel" where
  "receive i (ReportNodeStatus rep) s = goto i (Reporting rep) s"
| "receive i (ContainerStarted name ports) s =
     report_update i (EvContainerStarted name ports) (answer_pending i name (Inr ports) s)"
| "receive i (ContainerStopped name) s =
     report_update i (EvContainerStopped name) (answer_pending i name (Inr []) s)"
| "receive i (ContainerError name e) s = answer_pending i name (Inl e) s"
| "receive i _ s = s"

text \<open>
  The other arms of the loop write one command to the client; when the write fails (or a
  queue is closed, or the channel is told to shut down) the loop ends.
\<close>

definition write_cmd :: "nat \<Rightarrow> bool \<Rightarrow> control_cmd \<Rightarrow> tunnel \<Rightarrow> tunnel" where
  "write_cmd i ok cmd s =
     (if ok then upd_cc i (\<lambda>c. c\<lparr>cc_wire := cc_wire c @ [cmd]\<rparr>) s else goto i Leaving s)"

definition serve_request :: "nat \<Rightarrow> bool \<Rightarrow> tunnel \<Rightarrow> tunnel" where
  "serve_request i ok s =
     (case cc_requests (tn_ccs s i) of
        0 \<Rightarrow> s
      | Suc n \<Rightarrow> write_cmd i ok CreateDataChannel (upd_cc i (\<lambda>c. c\<lparr>cc_requests := n\<rparr>) s))"

definition heartbeat :: "server_env \<Rightarrow> nat \<Rightarrow> bool \<Rightarrow> tunnel \<Rightarrow> tunnel" where
  "heartbeat env i ok s = (if env_heartbeat env = 0 then s else write_cmd i ok HeartBeat s)"

definition serve_cmd :: "nat \<Rightarrow> bool \<Rightarrow> tunnel \<Rightarrow> tunnel" where
  "serve_cmd i ok s =
     (case ch_sent (tn_channels s i) of
        [] \<Rightarrow> s
      | cmd # cmds \<Rightarrow>
          write_cmd i ok cmd (s\<lparr>tn_channels := (tn_channels s)(i := (tn_channels s i)\<lparr>ch_sent := cmds\<rparr>)\<rparr>))"

section \<open>Handshakes\<close>

definition new_channel :: "digest \<Rightarrow> digest \<Rightarrow> digest \<Rightarrow> control_channel" where
  "new_channel dig cid key =
     \<lparr>cc_service_digest = dig, cc_channel_id = cid, cc_session_key = key, cc_hostname = None,
      cc_node_uuid = None, cc_node_uuid_slot = None, cc_task = Waiting, cc_requests = TCP_POOL_SIZE,
      cc_wire = [], cc_port_pending = [], cc_callbacks = [], cc_pool = [], cc_pool_alive = True\<rparr>"

text \<open>The task is spawned first; its handle is inserted afterwards, under its own lock.\<close>

definition spawn_channel :: "digest \<Rightarrow> digest \<Rightarrow> digest \<Rightarrow> tunnel \<Rightarrow> tunnel" where
  "spawn_channel dig cid key s =
     s\<lparr>tn_ccs := (tn_ccs s)(tn_next s := new_channel dig cid key),
       tn_channels := (tn_channels s)(tn_next s := \<lparr>ch_alive = True, ch_sent = [], ch_pending = []\<rparr>),
       tn_next := Suc (tn_next s)\<rparr>"

definition insert_handle :: "nat \<Rightarrow> tunnel \<Rightarrow> tunnel" where
  "insert_handle i s =
     s\<lparr>tn_control_channels :=
        fst (mm_insert (cc_channel_id (tn_ccs s i)) (cc_session_key (tn_ccs s i)) i (tn_control_channels s))\<rparr>"

datatype conn_error = ProtoError proto_error | ClientFailedAuthentication | StaleControlChannel

record codecs =
  de_hello :: "bytes \<Rightarrow> hello option"
  ser_hello :: "hello \<Rightarrow> bytes option"
  de_auth :: "bytes \<Rightarrow> auth option"
  ser_ack :: "ack \<Rightarrow> bytes option"

text \<open>
  \<open>inp\<close> is what the peer sends after its hello; the result is the state, what was
  written to the peer, and the outcome.
\<close>

definition do_control_channel_handshake ::
  "server_env \<Rightarrow> codecs \<Rightarrow> digest \<Rightarrow> digest \<Rightarrow> digest \<Rightarrow> bytes \<Rightarrow> tunnel \<Rightarrow> tunnel \<times> bytes \<times> (conn_error + unit)" where
  "do_control_channel_handshake env cod nonce channel_id service_digest inp s =
     (case write_message (ser_hello cod) (ControlChannelHello CURRENT_PROTO_VERSION nonce) of
        Inl e \<Rightarrow> (s, [], Inl (ProtoError e))
      | Inr out \<Rightarrow>
          (case read_message (de_auth cod) inp of
             Inl e \<Rightarrow> (s, out, Inl (ProtoError e))
           | Inr (Auth d, _) \<Rightarrow>
               (let session_key = env_digest env (env_token env @ nonce) in
                if session_key \<noteq> d then
                  (case write_message (ser_ack cod) AuthFailed of
                     Inl e \<Rightarrow> (s, out, Inl (ProtoError e))
                   | Inr out2 \<Rightarrow> (s, out @ out2, Inl ClientFailedAuthentication))
                else
                  (case write_message (ser_ack cod) AckOk of
                     Inl e \<Rightarrow> (s, out, Inl (ProtoError e))
                   | Inr out2 \<Rightarrow>
                       (insert_handle (tn_next s) (spawn_channel service_digest channel_id session_key s),
                        out @ out2, Inr ())))))"

text \<open>What becomes of a data channel: refused, handed to a waiting visitor, or kept for the pool.\<close>

datatype data_fate = WrongNonce | ToVisitor nat u16 | ToPool

definition do_data_channel_handshake ::
  "digest \<Rightarrow> nat \<Rightarrow> tunnel \<Rightarrow> tunnel \<times> (conn_error + data_fate)" where
  "do_data_channel_handshake nonce conn s =
     (case mm_get2 (tn_control_channels s) nonce of
        None \<Rightarrow> (s, Inr WrongNonce)
      | Some i \<Rightarrow>
          (case cc_port_pending (tn_ccs s i) of
             (v, lp) # rest \<Rightarrow> (upd_cc i (\<lambda>c. c\<lparr>cc_port_pending := rest\<rparr>) s, Inr (ToVisitor v lp))
           | [] \<Rightarrow>
               (case cc_callbacks (tn_ccs s i) of
                  (v, lp) # rest \<Rightarrow> (upd_cc i (\<lambda>c. c\<lparr>cc_callbacks := rest\<rparr>) s, Inr (ToVisitor v lp))
                | [] \<Rightarrow>
                    if cc_pool_alive (tn_ccs s i)
                    then (upd_cc i (\<lambda>c. c\<lparr>cc_pool := cc_pool c @ [conn]\<rparr>) s, Inr ToPool)
                    else (s, Inl StaleControlChannel))))"

definition handle_connection ::
  "server_env \<Rightarrow> codecs \<Rightarrow> digest \<Rightarrow> digest \<Rightarrow> nat \<Rightarrow> bytes \<Rightarrow> tunnel \<Rightarrow> tunnel \<times> bytes \<times> (conn_error + unit)" where
  "handle_connection env cod nonce channel_id conn inp s =
     (case read_hello (de_hello cod) inp of
        Inl e \<Rightarrow> (s, [], Inl (ProtoError e))
      | Inr (ControlChannelHello _ service_digest, rest) \<Rightarrow>
          do_control_channel_handshake env cod nonce channel_id service_digest rest s
      | Inr (DataChannelHello _ key, rest) \<Rightarrow>
          (case do_data_channel_handshake key conn s of
             (s, Inl e) \<Rightarrow> (s, [], Inl e)
           | (s, Inr _) \<Rightarrow> (s, [], Inr ())))"

section \<open>Visitors\<close>

text \<open>
  A visitor of a forwarded port asks for a data channel, unless the channel is gone, and then
  queues for it: two steps, between which other tasks may run.
\<close>

definition request_channel :: "nat \<Rightarrow> tunnel \<Rightarrow> tunnel option" where
  "request_channel i s =
     (if ch_alive (tn_channels s i) then Some (upd_cc i (\<lambda>c. c\<lparr>cc_requests := Suc (cc_requests c)\<rparr>) s) else None)"

definition queue_visitor :: "nat \<Rightarrow> nat \<Rightarrow> u16 \<Rightarrow> tunnel \<Rightarrow> tunnel" where
  "queue_visitor i visitor local_port s = upd_cc i (\<lambda>c. c\<lparr>cc_callbacks := cc_callbacks c @ [(visitor, local_port)]\<rparr>) s"

lemmas [kdct_simps] = upd_cc_def goto_def claimed_uuid_def solo_offline_def resolve_uuid_def entry_of_def
  connected_of_def answer_pending_def send_update_def advance_defs report_update_def write_cmd_def
  serve_request_def heartbeat_def serve_cmd_def new_channel_def spawn_channel_def insert_handle_def
  do_control_channel_handshake_def do_data_channel_handshake_def handle_connection_def request_channel_def queue_visitor_def
  TCP_POOL_SIZE_def


section \<open>The server as a transition system\<close>

definition tunnel_init :: "node_bindings \<Rightarrow> tunnel \<Rightarrow> bool" where
  "tunnel_init b s \<longleftrightarrow>
     tn_next s = 0 \<and> tn_control_channels s = mm_new \<and> tn_uuid_index s = [] \<and> tn_registry s = []
     \<and> tn_bindings s = b \<and> tn_updates s = [] \<and> tn_replies s = []"

text \<open>
  Any interleaving of the channels, of connections and visitors that arrive, and of the panel,
  which queues commands and registers for answers. A generated uuid is not one that is bound already.
\<close>

inductive tunnel_step :: "server_env \<Rightarrow> tunnel \<Rightarrow> tunnel \<Rightarrow> bool" for env where
  step_spawn: "tunnel_step env s (spawn_channel dig cid key s)"
| step_insert: "i < tn_next s \<Longrightarrow> tunnel_step env s (insert_handle i s)"
| step_advance: "i < tn_next s \<Longrightarrow> new_v4 \<notin> hm_keys (tn_bindings s) \<Longrightarrow> tunnel_step env s (advance env new_v4 i s)"
| step_receive: "i < tn_next s \<Longrightarrow> cc_task (tn_ccs s i) = Waiting \<Longrightarrow> tunnel_step env s (receive i cmd s)"
| step_request: "i < tn_next s \<Longrightarrow> cc_task (tn_ccs s i) = Waiting \<Longrightarrow> tunnel_step env s (serve_request i ok s)"
| step_heartbeat: "i < tn_next s \<Longrightarrow> cc_task (tn_ccs s i) = Waiting \<Longrightarrow> tunnel_step env s (heartbeat env i ok s)"
| step_cmd: "i < tn_next s \<Longrightarrow> cc_task (tn_ccs s i) = Waiting \<Longrightarrow> tunnel_step env s (serve_cmd i ok s)"
| step_break: "i < tn_next s \<Longrightarrow> cc_task (tn_ccs s i) = Waiting \<Longrightarrow> tunnel_step env s (goto i Leaving s)"
| step_data: "tunnel_step env s (fst (do_data_channel_handshake nonce conn s))"
| step_ask: "i < tn_next s \<Longrightarrow> request_channel i s = Some t \<Longrightarrow> tunnel_step env s t"
| step_queue: "i < tn_next s \<Longrightarrow> tunnel_step env s (queue_visitor i v lp s)"
| step_send: "send_cmd i cmd (tn_channels s) = Some chs \<Longrightarrow> tunnel_step env s (s\<lparr>tn_channels := chs\<rparr>)"
| step_pending: "tunnel_step env s (s\<lparr>tn_channels := pending_insert i name tx (tn_channels s)\<rparr>)"
| step_pool_end: "i < tn_next s \<Longrightarrow> \<not> ch_alive (tn_channels s i) \<Longrightarrow>
    tunnel_step env s (upd_cc i (\<lambda>c. c\<lparr>cc_pool_alive := False\<rparr>) s)"

section \<open>Identities stay with their digest\<close>

fun task_uuids :: "task \<Rightarrow> string set" where
  "task_uuids (Assigning rep r) = {resolved_uuid r}"
| "task_uuids (Indexing rep u) = {u}"
| "task_uuids (Evicting rep u prev) = {u}"
| "task_uuids (Registering rep u) = {u}"
| "task_uuids (Publishing rep u) = {u}"
| "task_uuids (CleanRegistry u) = {u}"
| "task_uuids _ = {}"

definition held_uuids :: "control_channel \<Rightarrow> string set" where
  "held_uuids c = set_option (cc_node_uuid c) \<union> set_option (cc_node_uuid_slot c) \<union> task_uuids (cc_task c)"

definition bound_to :: "server_env \<Rightarrow> tunnel \<Rightarrow> string \<Rightarrow> nat \<Rightarrow> bool" where
  "bound_to env s u i \<longleftrightarrow>
     i < tn_next s \<and> hm_get (tn_bindings s) u = Some (env_hex env (cc_service_digest (tn_ccs s i)))"

definition entry_ok :: "server_env \<Rightarrow> tunnel \<Rightarrow> string \<Rightarrow> client_entry \<Rightarrow> bool" where
  "entry_ok env s u e \<longleftrightarrow> ce_node_uuid e = u \<and> bound_to env s u (ce_channel e)"

definition update_ok :: "tunnel \<Rightarrow> node_update \<Rightarrow> bool" where
  "update_ok s n \<longleftrightarrow>
     (case nu_event n of Connected i \<Rightarrow> hm_get (tn_bindings s) (nu_uuid n) = Some (nc_service_digest i) | _ \<Rightarrow> True)"

definition tunnel_inv :: "server_env \<Rightarrow> tunnel \<Rightarrow> bool" where
  "tunnel_inv env s \<longleftrightarrow>
     hm_wf (tn_bindings s) \<and> mm_wf (tn_control_channels s)
     \<and> (\<forall>i < tn_next s. \<forall>u \<in> held_uuids (tn_ccs s i). bound_to env s u i)
     \<and> (\<forall>u e. hm_get (tn_registry s) u = Some e \<longrightarrow> entry_ok env s u e)
     \<and> (\<forall>u cid. hm_get (tn_uuid_index s) u = Some cid \<longrightarrow> (\<exists>i. cc_channel_id (tn_ccs s i) = cid \<and> bound_to env s u i))
     \<and> (\<forall>n \<in> set (tn_updates s). update_ok s n)"

text \<open>
  What a step may change: bindings only grow, a channel keeps its digest, and every identity that
  turns up anew in a channel, the registry, the index or an update is bound to that channel's digest.
\<close>

definition tunnel_le :: "server_env \<Rightarrow> tunnel \<Rightarrow> tunnel \<Rightarrow> bool" where
  "tunnel_le env s t \<longleftrightarrow>
     (\<forall>u d. hm_get (tn_bindings s) u = Some d \<longrightarrow> hm_get (tn_bindings t) u = Some d)
     \<and> tn_next s \<le> tn_next t
     \<and> (\<forall>i < tn_next s. cc_service_digest (tn_ccs t i) = cc_service_digest (tn_ccs s i)
                        \<and> cc_channel_id (tn_ccs t i) = cc_channel_id (tn_ccs s i))"

lemma tunnel_le_refl: "tunnel_le env s s"
  by (simp add: tunnel_le_def)

lemma tunnel_le_trans: "tunnel_le env s t \<Longrightarrow> tunnel_le env t u \<Longrightarrow> tunnel_le env s u"
  unfolding tunnel_le_def by (auto dest: less_le_trans)

lemma bound_to_le: "tunnel_le env s t \<Longrightarrow> bound_to env s u i \<Longrightarrow> bound_to env t u i"
  unfolding tunnel_le_def bound_to_def by auto

lemma update_ok_le: "tunnel_le env s t \<Longrightarrow> update_ok s n \<Longrightarrow> update_ok t n"
  unfolding tunnel_le_def update_ok_def by (auto split: node_event.splits)

lemma tunnel_inv_frame:
  assumes inv: "tunnel_inv env s" and le: "tunnel_le env s t"
    and wf: "hm_wf (tn_bindings t)" "mm_wf (tn_control_channels t)"
    and held: "\<And>i u. i < tn_next t \<Longrightarrow> u \<in> held_uuids (tn_ccs t i) \<Longrightarrow>
        i < tn_next s \<and> u \<in> held_uuids (tn_ccs s i) \<or> bound_to env t u i"
    and reg: "\<And>u e. hm_get (tn_registry t) u = Some e \<Longrightarrow> hm_get (tn_registry s) u = Some e \<or> entry_ok env t u e"
    and idx: "\<And>u cid. hm_get (tn_uuid_index t) u = Some cid \<Longrightarrow>
        hm_get (tn_uuid_index s) u = Some cid \<or> (\<exists>i. cc_channel_id (tn_ccs t i) = cid \<and> bound_to env t u i)"
    and upd: "\<And>n. n \<in> set (tn_updates t) \<Longrightarrow> n \<in> set (tn_updates s) \<or> update_ok t n"
  shows "tunnel_inv env t"
  unfolding tunnel_inv_def
proof (intro conjI allI ballI impI)
  fix i u assume "i < tn_next t" "u \<in> held_uuids (tn_ccs t i)"
  from held [OF this] show "bound_to env t u i"
    using inv bound_to_le [OF le, of u i] by (auto simp: tunnel_inv_def)
next
  fix u e assume "hm_get (tn_registry t) u = Some e"
  from reg [OF this] show "entry_ok env t u e"
    using inv bound_to_le [OF le] by (auto simp: tunnel_inv_def entry_ok_def)
next
  fix u cid assume "hm_get (tn_uuid_index t) u = Some cid"
  from idx [OF this] show "\<exists>i. cc_channel_id (tn_ccs t i) = cid \<and> bound_to env t u i"
  proof
    assume "hm_get (tn_uuid_index s) u = Some cid"
    then obtain i where "cc_channel_id (tn_ccs s i) = cid" "bound_to env s u i"
      using inv unfolding tunnel_inv_def by blast
    then show ?thesis using bound_to_le [OF le] le by (auto simp: tunnel_le_def bound_to_def)
  qed
next
  fix n assume "n \<in> set (tn_updates t)"
  from upd [OF this] show "update_ok t n"
    using inv update_ok_le [OF le] by (auto simp: tunnel_inv_def)
qed (use wf in auto)

text \<open>Resolving an identity: the result is bound to the client's digest, and no binding changes.\<close>

lemma solo_offline_bound:
  assumes "hm_wf b" "solo_offline dig online b = Some u"
  shows "hm_get b u = Some dig" "u \<notin> set online"
proof -
  have "(u, dig) \<in> set b" "u \<notin> set online"
    using assms(2) by (force simp: solo_offline_def filter_eq_Cons_iff split: list.splits if_splits)+
  then show "hm_get b u = Some dig" "u \<notin> set online" using assms(1) by simp_all
qed

lemma resolve_uuid_bound:
  assumes "hm_wf b" "new_v4 \<notin> hm_keys b" "\<And>e. existing = Some e \<Longrightarrow> hm_get b e = Some dig"
    and "resolve_uuid dig existing claimed online new_v4 b = (r, b')"
  shows "hm_get b' (resolved_uuid r) = Some dig" "hm_wf b'"
    "hm_get b u = Some d \<Longrightarrow> hm_get b' u = Some d"
proof -
  have "hm_get b new_v4 = None" using assms(2) by (simp add: hm_get_None)
  then show "hm_get b' (resolved_uuid r) = Some dig" "hm_wf b'"
    "hm_get b u = Some d \<Longrightarrow> hm_get b' u = Some d"
    using assms solo_offline_bound [OF assms(1)]
    by (auto simp: resolve_uuid_def hm_get_insert distinct_update split: option.splits if_splits)
qed


lemma tn_upd_simps [simp]:
  "tn_next (upd_cc i f s) = tn_next s" "tn_control_channels (upd_cc i f s) = tn_control_channels s"
  "tn_uuid_index (upd_cc i f s) = tn_uuid_index s" "tn_registry (upd_cc i f s) = tn_registry s"
  "tn_channels (upd_cc i f s) = tn_channels s" "tn_bindings (upd_cc i f s) = tn_bindings s"
  "tn_updates (upd_cc i f s) = tn_updates s"
  "tn_ccs (upd_cc i f s) j = (if j = i then f (tn_ccs s i) else tn_ccs s j)"
  by (simp_all add: upd_cc_def)

lemma tn_send_simps [simp]:
  "tn_next (send_update u e s) = tn_next s" "tn_control_channels (send_update u e s) = tn_control_channels s"
  "tn_uuid_index (send_update u e s) = tn_uuid_index s" "tn_registry (send_update u e s) = tn_registry s"
  "tn_channels (send_update u e s) = tn_channels s" "tn_bindings (send_update u e s) = tn_bindings s"
  "tn_updates (send_update u e s) = tn_updates s @ [\<lparr>nu_uuid = u, nu_event = e\<rparr>]"
  "tn_ccs (send_update u e s) = tn_ccs s"
  by (simp_all add: send_update_def)

lemma tn_answer_simps [simp]:
  "tn_next (answer_pending i n r s) = tn_next s" "tn_control_channels (answer_pending i n r s) = tn_control_channels s"
  "tn_uuid_index (answer_pending i n r s) = tn_uuid_index s" "tn_registry (answer_pending i n r s) = tn_registry s"
  "tn_bindings (answer_pending i n r s) = tn_bindings s"
  "tn_updates (answer_pending i n r s) = tn_updates s" "tn_ccs (answer_pending i n r s) = tn_ccs s"
  by (auto simp: answer_pending_def split: option.splits)

lemma tn_answers_simps [simp]:
  "tn_next (fold (\<lambda>k. answer_pending i (g k) (r k)) ks s) = tn_next s"
  "tn_control_channels (fold (\<lambda>k. answer_pending i (g k) (r k)) ks s) = tn_control_channels s"
  "tn_uuid_index (fold (\<lambda>k. answer_pending i (g k) (r k)) ks s) = tn_uuid_index s"
  "tn_registry (fold (\<lambda>k. answer_pending i (g k) (r k)) ks s) = tn_registry s"
  "tn_bindings (fold (\<lambda>k. answer_pending i (g k) (r k)) ks s) = tn_bindings s"
  "tn_updates (fold (\<lambda>k. answer_pending i (g k) (r k)) ks s) = tn_updates s"
  "tn_ccs (fold (\<lambda>k. answer_pending i (g k) (r k)) ks s) = tn_ccs s"
  by (induction ks arbitrary: s) simp_all

lemma ch_sent_answers [simp]:
  "ch_sent (tn_channels (fold (\<lambda>k. answer_pending i (g k) (r k)) ks s) j) = ch_sent (tn_channels s j)"
  "ch_alive (tn_channels (fold (\<lambda>k. answer_pending i (g k) (r k)) ks s) j) = ch_alive (tn_channels s j)"
  by (induction ks arbitrary: s) (auto simp: answer_pending_def pending_remove_def split: option.splits)

text \<open>A step that leaves the shared tables alone and gives no channel a new identity.\<close>

lemma tunnel_quiet:
  assumes inv: "tunnel_inv env s"
    and "tn_next t = tn_next s" "tn_bindings t = tn_bindings s" "mm_wf (tn_control_channels t)"
    and "tn_uuid_index t = tn_uuid_index s" "tn_registry t = tn_registry s"
    and cc: "\<And>i. cc_service_digest (tn_ccs t i) = cc_service_digest (tn_ccs s i)
        \<and> cc_channel_id (tn_ccs t i) = cc_channel_id (tn_ccs s i) \<and> held_uuids (tn_ccs t i) \<subseteq> held_uuids (tn_ccs s i)"
    and upd: "\<And>n. n \<in> set (tn_updates t) \<Longrightarrow> n \<in> set (tn_updates s) \<or> update_ok t n"
  shows "tunnel_le env s t \<and> tunnel_inv env t"
proof
  show le: "tunnel_le env s t" using assms by (simp add: tunnel_le_def)
  show "tunnel_inv env t"
  proof (rule tunnel_inv_frame [OF inv le])
    fix i u assume i: "i < tn_next t" and u: "u \<in> held_uuids (tn_ccs t i)"
    have "held_uuids (tn_ccs t i) \<subseteq> held_uuids (tn_ccs s i)" using cc by blast
    then show "i < tn_next s \<and> u \<in> held_uuids (tn_ccs s i) \<or> bound_to env t u i"
      using i u assms(2) by (simp add: subset_iff)
  qed (use assms(2-6) upd inv in \<open>simp_all add: tunnel_inv_def\<close>)
qed

lemma inv_mm_wf: "tunnel_inv env s \<Longrightarrow> mm_wf (tn_control_channels s)"
  by (simp add: tunnel_inv_def)

lemma mm_wf_removed: "mm_wf m \<Longrightarrow> mm_wf (fst (mm_remove1 k m))"
  by (rule mm.rem1 [THEN conjunct1])

text \<open>The regions of a channel's task, one by one.\<close>

lemma advance_resolving:
  assumes inv: "tunnel_inv env s" and i: "i < tn_next s" and fresh: "new_v4 \<notin> hm_keys (tn_bindings s)"
    and task: "cc_task (tn_ccs s i) = Resolving rep online"
  shows "tunnel_le env s (advance env new_v4 i s) \<and> tunnel_inv env (advance env new_v4 i s)"
proof -
  let ?dig = "env_hex env (cc_service_digest (tn_ccs s i))" let ?t = "advance env new_v4 i s"
  obtain r b where rb: "resolve_uuid ?dig (cc_node_uuid (tn_ccs s i)) (claimed_uuid (env_uuid_ok env) rep) online
      new_v4 (tn_bindings s) = (r, b)" by fastforce
  have t: "?t = goto i (Assigning rep r) (s\<lparr>tn_bindings := b\<rparr>)" using task rb by (simp add: advance_defs Let_def)
  have old: "hm_get (tn_bindings s) e = Some ?dig" if "cc_node_uuid (tn_ccs s i) = Some e" for e
    using inv i that by (auto simp: tunnel_inv_def bound_to_def held_uuids_def)
  have wf: "hm_wf (tn_bindings s)" using inv by (simp add: tunnel_inv_def)
  note b = resolve_uuid_bound [OF wf fresh old rb]
  have le: "tunnel_le env s ?t" using b(3) by (simp add: t tunnel_le_def goto_def)
  moreover have "tunnel_inv env ?t"
  proof (rule tunnel_inv_frame [OF inv le])
    fix j u assume "j < tn_next ?t" "u \<in> held_uuids (tn_ccs ?t j)"
    then show "j < tn_next s \<and> u \<in> held_uuids (tn_ccs s j) \<or> bound_to env ?t u j"
      using b(1) i by (auto simp: t goto_def held_uuids_def bound_to_def task split: if_splits)
  qed (use b(2) inv_mm_wf [OF inv] in \<open>auto simp: t goto_def\<close>)
  ultimately show ?thesis ..
qed


lemma advance_frame:
  assumes "\<And>rep online. cc_task (tn_ccs s i) \<noteq> Resolving rep online"
  shows "tn_next (advance env new_v4 i s) = tn_next s" "tn_bindings (advance env new_v4 i s) = tn_bindings s"
    "j \<noteq> i \<Longrightarrow> tn_ccs (advance env new_v4 i s) j = tn_ccs s j"
    "cc_service_digest (tn_ccs (advance env new_v4 i s) i) = cc_service_digest (tn_ccs s i)"
    "cc_channel_id (tn_ccs (advance env new_v4 i s) i) = cc_channel_id (tn_ccs s i)"
    "held_uuids (tn_ccs (advance env new_v4 i s) i) \<subseteq> held_uuids (tn_ccs s i)"
    "mm_wf (tn_control_channels s) \<Longrightarrow> mm_wf (tn_control_channels (advance env new_v4 i s))"
  using assms
  by (cases "cc_task (tn_ccs s i)"; auto simp: advance_defs Let_def goto_def held_uuids_def mm_wf_removed
      split: option.splits resolve.splits)+

lemma advance_registry:
  "tn_registry (advance env new_v4 i s) = tn_registry s
   \<or> (\<exists>k. tn_registry (advance env new_v4 i s) = registry_remove k (tn_registry s))
   \<or> (\<exists>rep u. cc_task (tn_ccs s i) = Registering rep u
        \<and> tn_registry (advance env new_v4 i s) = registry_upsert (entry_of i u rep) (tn_registry s))"
  by (cases "cc_task (tn_ccs s i)")
    (auto simp: advance_defs Let_def goto_def split: option.splits resolve.splits prod.splits)

lemma advance_index:
  "tn_uuid_index (advance env new_v4 i s) = tn_uuid_index s
   \<or> (\<exists>k. tn_uuid_index (advance env new_v4 i s) = hm_remove k (tn_uuid_index s))
   \<or> (\<exists>rep u. cc_task (tn_ccs s i) = Indexing rep u
        \<and> tn_uuid_index (advance env new_v4 i s) = hm_insert u (cc_channel_id (tn_ccs s i)) (tn_uuid_index s))"
  by (cases "cc_task (tn_ccs s i)")
    (auto simp: advance_defs Let_def goto_def split: option.splits resolve.splits prod.splits)

lemma advance_updates:
  "tn_updates (advance env new_v4 i s) = tn_updates s
   \<or> (\<exists>rep u. cc_task (tn_ccs s i) = Publishing rep u
        \<and> tn_updates (advance env new_v4 i s) = tn_updates s @ [\<lparr>nu_uuid = u,
             nu_event = Connected (connected_of (env_hex env (cc_service_digest (tn_ccs s i))) rep)\<rparr>])
   \<or> (\<exists>u h. cc_task (tn_ccs s i) = Leaving \<and> cc_node_uuid (tn_ccs s i) = Some u
        \<and> tn_updates (advance env new_v4 i s) = tn_updates s @ [\<lparr>nu_uuid = u, nu_event = Disconnected h\<rparr>])"
  by (cases "cc_task (tn_ccs s i)")
    (auto simp: advance_defs Let_def goto_def split: option.splits resolve.splits prod.splits)

lemma advance_other:
  assumes inv: "tunnel_inv env s" and i: "i < tn_next s"
    and task: "\<And>rep online. cc_task (tn_ccs s i) \<noteq> Resolving rep online"
  shows "tunnel_le env s (advance env new_v4 i s) \<and> tunnel_inv env (advance env new_v4 i s)"
proof -
  let ?c = "tn_ccs s i" let ?t = "advance env new_v4 i s"
  note frame = advance_frame [OF task]
  have held: "bound_to env ?t u i" if "u \<in> held_uuids ?c" for u
    using inv i that frame(1,2,4) by (auto simp: tunnel_inv_def bound_to_def)
  have cc: "cc_service_digest (tn_ccs ?t j) = cc_service_digest (tn_ccs s j)"
    "cc_channel_id (tn_ccs ?t j) = cc_channel_id (tn_ccs s j)" "held_uuids (tn_ccs ?t j) \<subseteq> held_uuids (tn_ccs s j)" for j
    using frame(3-6) by (cases "j = i"; simp)+
  have le: "tunnel_le env s ?t" using frame(1,2) cc by (simp add: tunnel_le_def)
  moreover have "tunnel_inv env ?t"
  proof (rule tunnel_inv_frame [OF inv le])
    show "hm_wf (tn_bindings ?t)" "mm_wf (tn_control_channels ?t)"
      using inv frame(2,7) by (simp_all add: tunnel_inv_def)
  next
    fix j u assume "j < tn_next ?t" "u \<in> held_uuids (tn_ccs ?t j)"
    then show "j < tn_next s \<and> u \<in> held_uuids (tn_ccs s j) \<or> bound_to env ?t u j"
      using frame(1) cc(3) [of j] by auto
  next
    fix u e assume e: "hm_get (tn_registry ?t) u = Some e"
    show "hm_get (tn_registry s) u = Some e \<or> entry_ok env ?t u e"
      using e held advance_registry [of env new_v4 i s]
      by (auto simp: registry_upsert_def registry_remove_def hm_get_insert hm_get_remove entry_of_def entry_ok_def
          held_uuids_def split: if_splits)
  next
    fix u cid assume e: "hm_get (tn_uuid_index ?t) u = Some cid"
    show "hm_get (tn_uuid_index s) u = Some cid \<or> (\<exists>j. cc_channel_id (tn_ccs ?t j) = cid \<and> bound_to env ?t u j)"
      using e held cc(2) [of i] advance_index [of env new_v4 i s]
      by (auto simp: hm_get_insert hm_get_remove held_uuids_def split: if_splits)
  next
    fix n assume e: "n \<in> set (tn_updates ?t)"
    show "n \<in> set (tn_updates s) \<or> update_ok ?t n"
      using e held cc(1) [of i] advance_updates [of env new_v4 i s]
      by (auto simp: update_ok_def connected_of_def held_uuids_def bound_to_def)
  qed
  ultimately show ?thesis ..
qed

lemma tunnel_step_safe:
  assumes "tunnel_step env s t" and inv: "tunnel_inv env s"
  shows "tunnel_le env s t \<and> tunnel_inv env t"
  using assms(1)
proof cases
  case (step_advance i new_v4)
  then show ?thesis
    using advance_resolving [OF inv step_advance(2,3)] advance_other [OF inv step_advance(2)] by (metis task.exhaust)
next
  case (step_spawn dig cid key)
  have le: "tunnel_le env s t" by (simp add: step_spawn spawn_channel_def tunnel_le_def)
  moreover have "tunnel_inv env t"
    by (rule tunnel_inv_frame [OF inv le])
      (use inv in \<open>auto simp: step_spawn spawn_channel_def tunnel_inv_def new_channel_def held_uuids_def split: if_splits\<close>)
  ultimately show ?thesis ..
next
  case (step_insert i)
  then show ?thesis
    using mm.wf_ins [OF inv_mm_wf [OF inv]] by (intro tunnel_quiet [OF inv]) (auto simp: insert_handle_def)
next
  case (step_receive i cmd)
  then show ?thesis
    using inv_mm_wf [OF inv] by (cases cmd; intro tunnel_quiet [OF inv])
      (auto simp: goto_def held_uuids_def report_update_def update_ok_def split: option.splits)
next
  case (step_request i ok)
  then show ?thesis
    using inv_mm_wf [OF inv] by (intro tunnel_quiet [OF inv])
      (auto simp: serve_request_def write_cmd_def goto_def held_uuids_def split: nat.splits if_splits)
next
  case (step_heartbeat i ok)
  then show ?thesis
    using inv_mm_wf [OF inv] by (intro tunnel_quiet [OF inv]) (auto simp: heartbeat_def write_cmd_def goto_def held_uuids_def)
next
  case (step_cmd i ok)
  then show ?thesis
    using inv_mm_wf [OF inv] by (intro tunnel_quiet [OF inv])
      (auto simp: serve_cmd_def write_cmd_def goto_def held_uuids_def split: list.splits)
next
  case (step_break i)
  then show ?thesis
    using inv_mm_wf [OF inv] by (intro tunnel_quiet [OF inv]) (auto simp: goto_def held_uuids_def)
next
  case (step_data nonce conn)
  then show ?thesis
    using inv_mm_wf [OF inv] by (intro tunnel_quiet [OF inv])
      (auto simp: do_data_channel_handshake_def held_uuids_def split: option.splits list.splits if_splits)
next
  case (step_ask i)
  then show ?thesis
    using inv_mm_wf [OF inv] by (intro tunnel_quiet [OF inv]) (auto simp: request_channel_def held_uuids_def split: if_splits)
next
  case (step_queue i v lp)
  then show ?thesis
    using inv_mm_wf [OF inv] by (intro tunnel_quiet [OF inv]) (auto simp: queue_visitor_def held_uuids_def)
next
  case (step_pool_end i)
  then show ?thesis
    using inv_mm_wf [OF inv] by (intro tunnel_quiet [OF inv]) (auto simp: held_uuids_def)
qed (use inv_mm_wf [OF inv] in \<open>(intro tunnel_quiet [OF inv]; simp)+\<close>)


interpretation tunnel: inductive_invariant "\<lambda>s. hm_wf b \<and> tunnel_init b s" "tunnel_step env" "tunnel_inv env" for b env
proof
  show "hm_wf b \<and> tunnel_init b s \<Longrightarrow> tunnel_inv env s" for s
    by (simp add: tunnel_init_def tunnel_inv_def mm.new)
  show "tunnel_inv env s \<Longrightarrow> tunnel_step env s t \<Longrightarrow> tunnel_inv env t" for s t
    using tunnel_step_safe by blast
qed

lemma tunnel_steps_le:
  assumes "(tunnel_step env)\<^sup>*\<^sup>* s t" "tunnel_inv env s"
  shows "tunnel_le env s t"
  using assms(1)
proof (induction rule: rtranclp_induct)
  case base
  show ?case by (rule tunnel_le_refl)
next
  case (step t u)
  then show ?case
    using tunnel.steps_inv [OF step.hyps(1) assms(2)] tunnel_step_safe [OF step.hyps(2)] tunnel_le_trans by blast
qed

end
