(* ===== verification/Tunnel_Runs.thy ===== *)
theory Tunnel_Runs
  imports Tunnel_Server
begin

text \<open>
  Runs of the tunnel server: what an uninterrupted status report does, what the end of
  a channel does, and two runs in which channels that interleave go wrong. The definitions of
  this theory compose the steps of the server; they add none.
\<close>

section \<open>Identities\<close>

text \<open>
  C5. However the control channels interleave, a node identity stays with the digest it was
  first bound to. In every state the server can reach, the channel that serves an identity in
  the registry, a channel that has reported under it and the \<^verbatim>\<open>Connected\<close> event sent to
  the panel carry the digest the identity is bound to; and in every later state the binding is the same, so a
  client with another digest never becomes that node.
\<close>

theorem identity_bound_to_digest:
  assumes "hm_wf b" "tunnel_init b s0" "(tunnel_step env)\<^sup>*\<^sup>* s0 s" "(tunnel_step env)\<^sup>*\<^sup>* s t"
  shows "(\<forall>u e. hm_get (tn_registry s) u = Some e \<longrightarrow>
            hm_get (tn_bindings t) u = Some (env_hex env (cc_service_digest (tn_ccs t (ce_channel e)))))
    \<and> (\<forall>i u. i < tn_next s \<and> cc_node_uuid (tn_ccs s i) = Some u \<longrightarrow>
            hm_get (tn_bindings t) u = Some (env_hex env (cc_service_digest (tn_ccs t i))))
    \<and> (\<forall>u c. \<lparr>nu_uuid = u, nu_event = Connected c\<rparr> \<in> set (tn_updates s) \<longrightarrow>
            hm_get (tn_bindings t) u = Some (nc_service_digest c))"
proof -
  have inv: "tunnel_inv env s" using tunnel.steps_inv [OF assms(3)] tunnel.inv_init assms(1,2) by blast
  have le: "tunnel_le env s t" by (rule tunnel_steps_le [OF assms(4) inv])
  have "hm_get (tn_bindings t) u = Some (env_hex env (cc_service_digest (tn_ccs t i)))" if "bound_to env s u i" for u i
    using bound_to_le [OF le that] by (simp add: bound_to_def)
  moreover have "bound_to env s u (ce_channel e)" if "hm_get (tn_registry s) u = Some e" for u e
    using inv that by (auto simp: tunnel_inv_def entry_ok_def)
  moreover have "bound_to env s u i" if "i < tn_next s" "cc_node_uuid (tn_ccs s i) = Some u" for i u
    using inv that by (auto simp: tunnel_inv_def held_uuids_def)
  moreover have "hm_get (tn_bindings t) u = Some (nc_service_digest c)"
    if "\<lparr>nu_uuid = u, nu_event = Connected c\<rparr> \<in> set (tn_updates s)" for u c
  proof -
    have "update_ok s \<lparr>nu_uuid = u, nu_event = Connected c\<rparr>" using inv that by (auto simp: tunnel_inv_def)
    from update_ok_le [OF le this] show ?thesis by (simp add: update_ok_def)
  qed
  ultimately show ?thesis by blast
qed

section \<open>A status report, start to end\<close>

text \<open>The eight regions of the handler, run without interruption.\<close>

definition handle_report :: "server_env \<Rightarrow> string \<Rightarrow> nat \<Rightarrow> node_report \<Rightarrow> tunnel \<Rightarrow> tunnel" where
  "handle_report env new_v4 i rep s = (advance env new_v4 i ^^ 8) (receive i (ReportNodeStatus rep) s)"

definition assign_cmds :: "resolve \<Rightarrow> control_cmd list" where
  "assign_cmds r = (case r of Accept _ \<Rightarrow> [] | AssignAndUse u \<Rightarrow> [AssignNodeUuid u])"

definition evict :: "digest \<Rightarrow> digest option \<Rightarrow> (digest, digest, nat) multi_map \<Rightarrow> (digest, digest, nat) multi_map" where
  "evict cid prev m = (case prev of Some p \<Rightarrow> if p \<noteq> cid then fst (mm_remove1 p m) else m | None \<Rightarrow> m)"

lemma answer_cc: "answer_pending i n r (s\<lparr>tn_ccs := c\<rparr>) = (answer_pending i n r s)\<lparr>tn_ccs := c\<rparr>"
  by (simp add: answer_pending_def split: option.split)

lemma fold_answer_cc:
  "fold (\<lambda>k. answer_pending i (g k) (r k)) ks (s\<lparr>tn_ccs := c\<rparr>) = (fold (\<lambda>k. answer_pending i (g k) (r k)) ks s)\<lparr>tn_ccs := c\<rparr>"
  by (induction ks arbitrary: s) (simp_all add: answer_cc)

lemma funpow_7: "(f ^^ 7) x = f (f (f (f (f (f (f x))))))"
  by (simp add: eval_nat_numeral)

lemma funpow_4: "(f ^^ 4) x = f (f (f (f x)))"
  by (simp add: eval_nat_numeral)

text \<open>The state after a report that was resolved to \<open>r\<close>.\<close>

definition reported :: "server_env \<Rightarrow> nat \<Rightarrow> node_report \<Rightarrow> resolve \<Rightarrow> node_bindings \<Rightarrow> tunnel \<Rightarrow> tunnel" where
  "reported env i rep r b s =
    fold (\<lambda>k. answer_pending i (ci_container_name k) (Inr (ci_ports k))) (nr_running_containers rep)
      (s\<lparr>tn_bindings := b,
        tn_channels := (tn_channels s)(i := (tn_channels s i)\<lparr>ch_sent := ch_sent (tn_channels s i) @ assign_cmds r\<rparr>),
        tn_uuid_index := hm_insert (resolved_uuid r) (cc_channel_id (tn_ccs s i)) (tn_uuid_index s),
        tn_control_channels := evict (cc_channel_id (tn_ccs s i)) (hm_get (tn_uuid_index s) (resolved_uuid r)) (tn_control_channels s),
        tn_registry := registry_upsert (entry_of i (resolved_uuid r) rep) (tn_registry s),
        tn_updates := tn_updates s @ [\<lparr>nu_uuid = resolved_uuid r,
          nu_event = Connected (connected_of (env_hex env (cc_service_digest (tn_ccs s i))) rep)\<rparr>],
        tn_ccs := (tn_ccs s)(i := (tn_ccs s i)\<lparr>cc_node_uuid := Some (resolved_uuid r), cc_node_uuid_slot := Some (resolved_uuid r),
            cc_hostname := Some (nr_hostname rep), cc_task := Waiting\<rparr>)\<rparr>)"

text \<open>The regions from the snapshot of the online identities on; other channels may have run since it was taken.\<close>

lemma resume_report_eq:
  assumes "resolve_uuid (env_hex env (cc_service_digest (tn_ccs s i))) (cc_node_uuid (tn_ccs s i))
      (claimed_uuid (env_uuid_ok env) rep) online new_v4 (tn_bindings s) = (r, b)"
    and "ch_alive (tn_channels s i)"
  shows "(advance env new_v4 i ^^ 7) (goto i (Resolving rep online) s) = reported env i rep r b s"
proof -
  let ?c = "tn_ccs s i"
  define u where u: "u = resolved_uuid r"
  have prev: "cc_node_uuid ?c = Some p \<Longrightarrow> resolved_uuid r = p" for p
    using assms(1) by (auto simp: resolve_uuid_def split: option.splits)
  let ?s2 = "goto i (Assigning rep r) (s\<lparr>tn_bindings := b\<rparr>)"
  have s2: "advance env new_v4 i (goto i (Resolving rep online) s) = ?s2"
    using assms(1) by (simp add: advance_defs goto_def upd_cc_def)
  let ?s = "s\<lparr>tn_bindings := b, tn_channels := (tn_channels s)(i := (tn_channels s i)\<lparr>ch_sent := ch_sent (tn_channels s i) @ assign_cmds r\<rparr>)\<rparr>"
  have s3: "advance env new_v4 i ?s2 = goto i (Indexing rep u) ?s"
    using assms(2) prev by (cases "cc_node_uuid ?c"; cases r)
      (simp_all add: advance_defs goto_def upd_cc_def u assign_cmds_def send_cmd_def Let_def)
  let ?s4 = "?s\<lparr>tn_uuid_index := hm_insert u (cc_channel_id ?c) (tn_uuid_index s)\<rparr>"
  have s4: "advance env new_v4 i (goto i (Indexing rep u) ?s) = goto i (Evicting rep u (hm_get (tn_uuid_index s) u)) ?s4"
    by (simp add: advance_defs goto_def upd_cc_def)
  let ?s5 = "?s4\<lparr>tn_control_channels := evict (cc_channel_id ?c) (hm_get (tn_uuid_index s) u) (tn_control_channels s)\<rparr>"
  have s5: "advance env new_v4 i (goto i (Evicting rep u (hm_get (tn_uuid_index s) u)) ?s4) = goto i (Registering rep u) ?s5"
    by (simp add: advance_defs goto_def upd_cc_def evict_def split: option.splits)
  let ?s6 = "?s5\<lparr>tn_registry := registry_upsert (entry_of i u rep) (tn_registry s)\<rparr>"
  have s6: "advance env new_v4 i (goto i (Registering rep u) ?s5) = goto i (Publishing rep u) ?s6"
    by (simp add: advance_defs goto_def upd_cc_def)
  let ?s7 = "upd_cc i (\<lambda>c. c\<lparr>cc_node_uuid := Some u, cc_node_uuid_slot := Some u, cc_hostname := Some (nr_hostname rep)\<rparr>)
     (send_update u (Connected (connected_of (env_hex env (cc_service_digest ?c)) rep)) ?s6)"
  have s7: "advance env new_v4 i (goto i (Publishing rep u) ?s6) = goto i (Answering rep) ?s7"
    by (simp add: advance_defs goto_def upd_cc_def send_update_def)
  show ?thesis
    unfolding reported_def u [symmetric] funpow_7 s2 s3 s4 s5 s6 s7
    by (simp add: advance_defs goto_def upd_cc_def send_update_def fold_answer_cc [symmetric])
qed

lemma handle_report_resume:
  "handle_report env new_v4 i rep s = (advance env new_v4 i ^^ 7) (goto i (Resolving rep (map fst (tn_registry s))) s)"
proof -
  have "advance env new_v4 i (receive i (ReportNodeStatus rep) s) = goto i (Resolving rep (map fst (tn_registry s))) s"
    by (simp add: advance_defs goto_def upd_cc_def)
  then show ?thesis unfolding handle_report_def by (simp add: eval_nat_numeral)
qed

lemma handle_report_eq:
  "resolve_uuid (env_hex env (cc_service_digest (tn_ccs s i))) (cc_node_uuid (tn_ccs s i))
      (claimed_uuid (env_uuid_ok env) rep) (map fst (tn_registry s)) new_v4 (tn_bindings s) = (r, b)
   \<Longrightarrow> ch_alive (tn_channels s i) \<Longrightarrow> handle_report env new_v4 i rep s = reported env i rep r b s"
  unfolding handle_report_resume by (rule resume_report_eq)

text \<open>Each region is a step; the generated uuid matters to one of them only.\<close>

lemma advance_step:
  assumes "i < tn_next s" "\<And>rep online. cc_task (tn_ccs s i) = Resolving rep online \<Longrightarrow> new_v4 \<notin> hm_keys (tn_bindings s)"
  shows "tunnel_step env s (advance env new_v4 i s)"
proof (cases "\<exists>rep online. cc_task (tn_ccs s i) = Resolving rep online")
  case True
  then show ?thesis using assms step_advance by blast
next
  case False
  obtain v where v: "v \<notin> hm_keys (tn_bindings s)"
    using ex_new_if_finite [OF infinite_UNIV_listI, of "hm_keys (tn_bindings s)"] by auto
  have "advance env new_v4 i s = advance env v i s"
    using False by (cases "cc_task (tn_ccs s i)") (simp_all add: advance_defs Let_def)
  then show ?thesis using step_advance [OF assms(1) v] by simp
qed

lemma advance_next [simp]: "tn_next (advance env new_v4 i s) = tn_next s"
  by (cases "cc_task (tn_ccs s i)")
    (auto simp: advance_defs Let_def goto_def split: option.splits resolve.splits prod.splits)

lemma advance_not_resolving:
  assumes "\<And>rep. cc_task (tn_ccs s i) \<noteq> Reporting rep"
  shows "cc_task (tn_ccs (advance env new_v4 i s) i) \<noteq> Resolving rep online"
  using assms by (cases "cc_task (tn_ccs s i)")
    (auto simp: advance_defs Let_def goto_def split: option.splits resolve.splits prod.splits)

lemma advance_not_reporting: "cc_task (tn_ccs (advance env new_v4 i s) i) = Reporting rep \<Longrightarrow> False"
  by (cases "cc_task (tn_ccs s i)")
    (auto simp: advance_defs Let_def goto_def split: option.splits resolve.splits prod.splits)

lemma advance_steps:
  assumes "i < tn_next s" "\<And>rep. cc_task (tn_ccs s i) \<noteq> Reporting rep" "\<And>rep online. cc_task (tn_ccs s i) \<noteq> Resolving rep online"
  shows "(tunnel_step env)\<^sup>*\<^sup>* s ((advance env new_v4 i ^^ n) s)"
  using assms
proof (induction n arbitrary: s)
  case (Suc n)
  have step: "tunnel_step env s (advance env new_v4 i s)" using Suc.prems by (intro advance_step) auto
  moreover have "(tunnel_step env)\<^sup>*\<^sup>* (advance env new_v4 i s) ((advance env new_v4 i ^^ n) (advance env new_v4 i s))"
    by (rule Suc.IH) (use Suc.prems advance_not_resolving advance_not_reporting in auto)
  ultimately show ?case by (simp add: funpow_swap1 converse_rtranclp_into_rtranclp)
qed simp

lemma handle_report_steps:
  assumes "i < tn_next s" "cc_task (tn_ccs s i) = Waiting" "new_v4 \<notin> hm_keys (tn_bindings s)"
  shows "(tunnel_step env)\<^sup>*\<^sup>* s (handle_report env new_v4 i rep s)"
proof -
  let ?a = "advance env new_v4 i" let ?s0 = "receive i (ReportNodeStatus rep) s"
  have task: "cc_task (tn_ccs (?a ?s0) i) = Resolving rep (map fst (tn_registry s))" "tn_bindings (?a ?s0) = tn_bindings s"
    by (simp_all add: advance_defs goto_def)
  have "tunnel_step env s ?s0" using assms(1,2) by (rule step_receive)
  moreover have "tunnel_step env ?s0 (?a ?s0)"
    by (rule advance_step) (use assms(1) in \<open>simp_all add: goto_def\<close>)
  moreover have "tunnel_step env (?a ?s0) (?a (?a ?s0))"
    by (rule advance_step) (use assms(1,3) task in \<open>simp_all add: goto_def\<close>)
  moreover have "(tunnel_step env)\<^sup>*\<^sup>* (?a (?a ?s0)) ((?a ^^ 6) (?a (?a ?s0)))"
  proof (rule advance_steps)
    show "i < tn_next (?a (?a ?s0))" using assms(1) by (simp add: goto_def)
    show "cc_task (tn_ccs (?a (?a ?s0)) i) \<noteq> Reporting r" for r using advance_not_reporting by blast
    show "cc_task (tn_ccs (?a (?a ?s0)) i) \<noteq> Resolving r os" for r os
      using task(1) by (intro advance_not_resolving) simp
  qed
  moreover have "(?a ^^ 6) (?a (?a ?s0)) = handle_report env new_v4 i rep s"
    unfolding handle_report_def by (simp add: eval_nat_numeral)
  ultimately show ?thesis by (metis converse_rtranclp_into_rtranclp)
qed


lemma resolve_uuid_spec:
  assumes "resolve_uuid dig existing claimed online new_v4 b = (r, b')" "hm_wf b"
  shows "\<And>e. existing = Some e \<Longrightarrow> r = Accept e \<and> b' = b"
    "\<And>c. existing = None \<Longrightarrow> claimed = Some c \<Longrightarrow> hm_get b c = None \<or> hm_get b c = Some dig \<Longrightarrow> r = Accept c"
    "\<And>c. existing = None \<Longrightarrow> claimed = Some c \<Longrightarrow> hm_get b c \<noteq> None \<Longrightarrow> hm_get b c \<noteq> Some dig \<Longrightarrow> r = AssignAndUse new_v4"
    "existing = None \<Longrightarrow> claimed = None \<Longrightarrow>
      r = AssignAndUse new_v4 \<or> (\<exists>u. r = AssignAndUse u \<and> hm_get b u = Some dig \<and> u \<notin> set online)"
  using assms solo_offline_bound [OF assms(2)] by (auto simp: resolve_uuid_def split: option.splits if_splits)



section \<open>The end of a stale channel\<close>

text \<open>The four regions after the loop has ended.\<close>

definition leave :: "server_env \<Rightarrow> string \<Rightarrow> nat \<Rightarrow> tunnel \<Rightarrow> tunnel" where
  "leave env new_v4 i s = (advance env new_v4 i ^^ 4) (goto i Leaving s)"

lemma leave_steps:
  assumes "i < tn_next s" "cc_task (tn_ccs s i) = Waiting"
  shows "(tunnel_step env)\<^sup>*\<^sup>* s (leave env new_v4 i s)"
proof -
  have "(tunnel_step env)\<^sup>*\<^sup>* (goto i Leaving s) (leave env new_v4 i s)"
    unfolding leave_def by (rule advance_steps) (use assms in \<open>simp_all add: goto_def\<close>)
  then show ?thesis using step_break [OF assms] by (rule converse_rtranclp_into_rtranclp [rotated])
qed

lemma leave_eq:
  assumes "cc_node_uuid (tn_ccs s i) = Some u" "cc_node_uuid_slot (tn_ccs s i) = Some u" "cc_hostname (tn_ccs s i) = Some h"
  shows "leave env new_v4 i s =
    s\<lparr>tn_channels := (tn_channels s)(i := (tn_channels s i)\<lparr>ch_alive := False\<rparr>),
      tn_updates := tn_updates s @ [\<lparr>nu_uuid = u, nu_event = Disconnected h\<rparr>],
      tn_uuid_index := if hm_get (tn_uuid_index s) u = Some (cc_channel_id (tn_ccs s i))
        then hm_remove u (tn_uuid_index s) else tn_uuid_index s,
      tn_registry := registry_remove u (tn_registry s),
      tn_control_channels := fst (mm_remove1 (cc_channel_id (tn_ccs s i)) (tn_control_channels s)),
      tn_ccs := (tn_ccs s)(i := (tn_ccs s i)\<lparr>cc_task := Gone\<rparr>)\<rparr>"
proof -
  let ?c = "tn_ccs s i" let ?a = "advance env new_v4 i"
  let ?s1 = "s\<lparr>tn_channels := (tn_channels s)(i := (tn_channels s i)\<lparr>ch_alive := False\<rparr>),
      tn_updates := tn_updates s @ [\<lparr>nu_uuid = u, nu_event = Disconnected h\<rparr>]\<rparr>"
  have s1: "?a (goto i Leaving s) = goto i CleanIndex ?s1"
    using assms by (simp add: advance_defs goto_def upd_cc_def send_update_def Let_def)
  let ?s2 = "?s1\<lparr>tn_uuid_index := if hm_get (tn_uuid_index s) u = Some (cc_channel_id ?c)
        then hm_remove u (tn_uuid_index s) else tn_uuid_index s\<rparr>"
  have s2: "?a (goto i CleanIndex ?s1) = goto i (CleanRegistry u) ?s2"
    using assms by (simp add: advance_defs goto_def upd_cc_def Let_def)
  let ?s3 = "?s2\<lparr>tn_registry := registry_remove u (tn_registry s)\<rparr>"
  have s3: "?a (goto i (CleanRegistry u) ?s2) = goto i CleanChannel ?s3"
    by (simp add: advance_defs goto_def upd_cc_def Let_def)
  show ?thesis
    unfolding leave_def funpow_4 s1 s2 s3
    by (simp add: advance_defs goto_def upd_cc_def Let_def)
qed


text \<open>A client connects and reports: what the panel and the other channels see of it.\<close>

definition connect :: "server_env \<Rightarrow> string \<Rightarrow> digest \<Rightarrow> digest \<Rightarrow> digest \<Rightarrow> node_report \<Rightarrow> tunnel \<Rightarrow> tunnel" where
  "connect env new_v4 dig cid key rep s =
     handle_report env new_v4 (tn_next s) rep (insert_handle (tn_next s) (spawn_channel dig cid key s))"

lemma connect_steps:
  assumes "new_v4 \<notin> hm_keys (tn_bindings s)"
  shows "(tunnel_step env)\<^sup>*\<^sup>* s (connect env new_v4 dig cid key rep s)"
proof -
  let ?s1 = "spawn_channel dig cid key s" let ?s2 = "insert_handle (tn_next s) ?s1"
  have "tunnel_step env s ?s1" by (rule step_spawn)
  moreover have "tunnel_step env ?s1 ?s2" by (rule step_insert) (simp add: spawn_channel_def)
  moreover have "(tunnel_step env)\<^sup>*\<^sup>* ?s2 (connect env new_v4 dig cid key rep s)"
    unfolding connect_def
    by (rule handle_report_steps) (use assms in \<open>simp_all add: spawn_channel_def insert_handle_def new_channel_def\<close>)
  ultimately show ?thesis by (metis converse_rtranclp_into_rtranclp)
qed

lemma connect_claimed:
  fixes s :: tunnel and nv :: string and cid key :: digest
  assumes "claimed_uuid (env_uuid_ok env) rep = Some u"
    and "hm_get (tn_bindings s) u = None \<or> hm_get (tn_bindings s) u = Some (env_hex env dig)"
  defines "t \<equiv> connect env nv dig cid key rep s" and "n \<equiv> tn_next s"
  shows "tn_next t = Suc n" "hm_get (tn_bindings t) u = Some (env_hex env dig)"
    "hm_keys (tn_bindings t) \<subseteq> insert u (hm_keys (tn_bindings s))"
    "cc_channel_id (tn_ccs t n) = cid" "cc_node_uuid (tn_ccs t n) = Some u" "cc_node_uuid_slot (tn_ccs t n) = Some u"
    "cc_hostname (tn_ccs t n) = Some (nr_hostname rep)" "cc_task (tn_ccs t n) = Waiting" "ch_alive (tn_channels t n)"
    "j \<noteq> n \<Longrightarrow> tn_ccs t j = tn_ccs s j"
    "hm_get (tn_uuid_index t) u = Some cid" "hm_get (tn_registry t) u = Some (entry_of n u rep)"
    "tn_updates t = tn_updates s @ [\<lparr>nu_uuid = u, nu_event = Connected (connected_of (env_hex env dig) rep)\<rparr>]"
proof -
  let ?s2 = "insert_handle (tn_next s) (spawn_channel dig cid key s)"
  obtain b where b: "resolve_uuid (env_hex env (cc_service_digest (tn_ccs ?s2 n))) (cc_node_uuid (tn_ccs ?s2 n))
      (claimed_uuid (env_uuid_ok env) rep) (map fst (tn_registry ?s2)) nv (tn_bindings ?s2) = (Accept u, b)"
    "hm_get b u = Some (env_hex env dig)" "hm_keys b \<subseteq> insert u (hm_keys (tn_bindings s))"
    using assms(1,2) by (auto simp: resolve_uuid_def insert_handle_def spawn_channel_def new_channel_def n_def hm_get_insert
        subset_insertI)
  have "ch_alive (tn_channels ?s2 n)" by (simp add: insert_handle_def spawn_channel_def n_def)
  from handle_report_eq [OF b(1) this]
  show "tn_next t = Suc n" "hm_get (tn_bindings t) u = Some (env_hex env dig)"
    "hm_keys (tn_bindings t) \<subseteq> insert u (hm_keys (tn_bindings s))"
    "cc_channel_id (tn_ccs t n) = cid" "cc_node_uuid (tn_ccs t n) = Some u" "cc_node_uuid_slot (tn_ccs t n) = Some u"
    "cc_hostname (tn_ccs t n) = Some (nr_hostname rep)" "cc_task (tn_ccs t n) = Waiting" "ch_alive (tn_channels t n)"
    "j \<noteq> n \<Longrightarrow> tn_ccs t j = tn_ccs s j"
    "hm_get (tn_uuid_index t) u = Some cid" "hm_get (tn_registry t) u = Some (entry_of n u rep)"
    "tn_updates t = tn_updates s @ [\<lparr>nu_uuid = u, nu_event = Connected (connected_of (env_hex env dig) rep)\<rparr>]"
    using b(2,3) by (simp_all add: t_def connect_def reported_def n_def insert_handle_def spawn_channel_def new_channel_def hm_get_insert
        registry_upsert_def entry_of_def)
qed

text \<open>
  A node whose connection breaks and which reconnects before the old channel has ended is lost
  from the registry when the old channel does end: the clean-up of the old channel spares the
  index entry of the new one but removes the registry entry of the node without asking whose it
  is, and reports the node as disconnected. The new channel is alive, waits for
  commands and is the one the index names, yet nothing can be deployed on the node.
\<close>

theorem stale_exit_unregisters_live_node:
  fixes key0 key1 :: digest
  assumes init: "tunnel_init b s0" and claim: "claimed_uuid (env_uuid_ok env) rep = Some u"
    and own: "hm_get b u = None \<or> hm_get b u = Some (env_hex env dig)"
    and cids: "cid0 \<noteq> cid1" and fresh: "new_v4 \<notin> hm_keys b" "new_v4 \<noteq> u"
  defines "s1 \<equiv> connect env new_v4 dig cid0 key0 rep s0"
    and "s2 \<equiv> connect env new_v4 dig cid1 key1 rep (connect env new_v4 dig cid0 key0 rep s0)"
    and "t \<equiv> leave env new_v4 0 (connect env new_v4 dig cid1 key1 rep (connect env new_v4 dig cid0 key0 rep s0))"
  shows "(tunnel_step env)\<^sup>*\<^sup>* s0 t
    \<and> ch_alive (tn_channels t 1) \<and> cc_task (tn_ccs t 1) = Waiting \<and> cc_node_uuid (tn_ccs t 1) = Some u
    \<and> hm_get (tn_uuid_index t) u = Some (cc_channel_id (tn_ccs t 1))
    \<and> hm_get (tn_registry s2) u = Some (entry_of 1 u rep) \<and> hm_get (tn_registry t) u = None
    \<and> tn_updates t = map (\<lambda>ev. \<lparr>nu_uuid = u, nu_event = ev\<rparr>)
        [Connected (connected_of (env_hex env dig) rep), Connected (connected_of (env_hex env dig) rep),
         Disconnected (nr_hostname rep)]"
proof -
  have s0: "tn_next s0 = 0" "tn_bindings s0 = b" "tn_updates s0 = []" using init by (simp_all add: tunnel_init_def)
  note s1 = connect_claimed [OF claim own [folded s0(2)], where nv = new_v4 and cid = cid0 and key = key0, folded s1_def, unfolded s0]
  have own1: "hm_get (tn_bindings s1) u = None \<or> hm_get (tn_bindings s1) u = Some (env_hex env dig)" using s1(2) by simp
  note s2 = connect_claimed [OF claim own1, where nv = new_v4 and cid = cid1 and key = key1, unfolded s1_def, folded s2_def, folded s1_def, unfolded s1(1)]
  have c0: "tn_ccs s2 0 = tn_ccs s1 0" by (rule s2(10)) simp
  have t: "t = leave env new_v4 0 s2" by (simp add: t_def s2_def)
  note l = leave_eq [of s2 0 u "nr_hostname rep" env new_v4, folded t, unfolded c0, OF s1(5-7)]
  have "(tunnel_step env)\<^sup>*\<^sup>* s0 s1" unfolding s1_def using fresh s0 by (intro connect_steps) simp
  moreover have "(tunnel_step env)\<^sup>*\<^sup>* s1 s2"
    unfolding s2_def s1_def [symmetric] using fresh s1(3) by (intro connect_steps) auto
  moreover have "(tunnel_step env)\<^sup>*\<^sup>* s2 t" unfolding t by (rule leave_steps) (use s1(8) s2(1) c0 in simp_all)
  ultimately have "(tunnel_step env)\<^sup>*\<^sup>* s0 t" by (meson rtranclp_trans)
  then show ?thesis
    using s1 s2 cids s0 by (simp add: l registry_remove_def hm_get_remove)
qed


section \<open>Two clients at once\<close>

lemma goto_same: "cc_task (tn_ccs s i) = t \<Longrightarrow> goto i t s = s"
  by (auto simp: goto_def upd_cc_def)

lemma goto_commute: "i \<noteq> j \<Longrightarrow> goto i t (goto j t' s) = goto j t' (goto i t s)"
  by (simp add: goto_def upd_cc_def fun_upd_twist)

lemma goto_goto [simp]: "goto i t (goto i t' s) = goto i t s"
  by (simp add: goto_def upd_cc_def)

lemma resume_steps:
  assumes "i < tn_next s" "cc_task (tn_ccs s i) = Resolving rep online" "new_v4 \<notin> hm_keys (tn_bindings s)"
  shows "(tunnel_step env)\<^sup>*\<^sup>* s ((advance env new_v4 i ^^ 7) s)"
proof -
  let ?t = "advance env new_v4 i s"
  have "tunnel_step env s ?t" using assms by (intro advance_step) auto
  moreover have "(tunnel_step env)\<^sup>*\<^sup>* ?t ((advance env new_v4 i ^^ 6) ?t)"
  proof (rule advance_steps)
    show "i < tn_next ?t" using assms by simp
    show "cc_task (tn_ccs ?t i) \<noteq> Reporting r" for r using advance_not_reporting by blast
    show "cc_task (tn_ccs ?t i) \<noteq> Resolving r os" for r os using assms(2) by (intro advance_not_resolving) simp
  qed
  moreover have "(advance env new_v4 i ^^ 6) ?t = (advance env new_v4 i ^^ 7) s" by (simp add: eval_nat_numeral)
  ultimately show ?thesis by (metis converse_rtranclp_into_rtranclp)
qed

lemma snapshot_steps:
  assumes "i < tn_next s" "cc_task (tn_ccs s i) = Waiting"
  shows "(tunnel_step env)\<^sup>*\<^sup>* s (goto i (Resolving rep (map fst (tn_registry s))) s)"
proof -
  have "tunnel_step env s (receive i (ReportNodeStatus rep) s)" using assms by (rule step_receive)
  moreover have "tunnel_step env (receive i (ReportNodeStatus rep) s) (advance env [] i (receive i (ReportNodeStatus rep) s))"
    by (rule advance_step) (use assms in \<open>simp_all add: goto_def\<close>)
  moreover have "advance env [] i (receive i (ReportNodeStatus rep) s) = goto i (Resolving rep (map fst (tn_registry s))) s"
    by (simp add: advance_defs goto_def upd_cc_def)
  ultimately show ?thesis by (metis converse_rtranclp_into_rtranclp r_into_rtranclp)
qed

text \<open>
  Two machines that share a token and have lost their identity files can end up as one node: when the token
  owns one identity and both report before either is registered, both take their snapshot
  of the online identities while it is empty, and both are told to be that identity.
  Afterwards both channels are alive and report under it.
\<close>

theorem claimless_clients_share_identity:
  assumes init: "tunnel_init [(u, env_hex env dig)] s0" and claim: "claimed_uuid (env_uuid_ok env) rep = None"
    and fresh: "new_v4 \<noteq> u"
  shows "\<exists>t. (tunnel_step env)\<^sup>*\<^sup>* s0 t
    \<and> (\<forall>i \<in> {0, 1}. ch_alive (tn_channels t i) \<and> cc_task (tn_ccs t i) = Waiting
         \<and> cc_service_digest (tn_ccs t i) = dig \<and> cc_node_uuid (tn_ccs t i) = Some u
         \<and> AssignNodeUuid u \<in> set (ch_sent (tn_channels t i)))"
proof -
  let ?b = "[(u, env_hex env dig)]" let ?R = "Resolving rep []"
  have s0: "tn_next s0 = 0" "tn_bindings s0 = ?b" "tn_registry s0 = []" using init by (simp_all add: tunnel_init_def)
  define S where "S = spawn_channel dig [1] [1] (spawn_channel dig [0] [0] s0)"
  have S: "tn_next S = 2" "tn_bindings S = ?b" "tn_registry S = []"
    "tn_ccs S 0 = new_channel dig [0] [0]" "tn_ccs S (Suc 0) = new_channel dig [1] [1]"
    "tn_channels S 0 = \<lparr>ch_alive = True, ch_sent = [], ch_pending = []\<rparr>"
    "tn_channels S (Suc 0) = \<lparr>ch_alive = True, ch_sent = [], ch_pending = []\<rparr>"
    by (simp_all add: S_def spawn_channel_def s0)
  let ?T = "goto 1 ?R (goto 0 ?R S)"
  have r: "resolve_uuid (env_hex env dig) None (claimed_uuid (env_uuid_ok env) rep) [] new_v4 ?b = (AssignAndUse u, ?b)"
    using claim by (simp add: resolve_uuid_def solo_offline_def)
  let ?T1 = "reported env 0 rep (AssignAndUse u) ?b (goto 1 ?R S)"
  have T1: "(advance env new_v4 0 ^^ 7) ?T = ?T1"
    unfolding goto_commute [of 1 0, OF one_neq_zero]
    by (rule resume_report_eq) (simp_all add: goto_def S new_channel_def r)
  have T1': "goto 1 ?R ?T1 = ?T1" by (rule goto_same) (simp add: reported_def goto_def)
  let ?T2 = "reported env 1 rep (AssignAndUse u) ?b ?T1"
  have T2: "(advance env new_v4 1 ^^ 7) ?T1 = ?T2"
    using resume_report_eq [of env ?T1 1 rep "[]" new_v4 "AssignAndUse u" ?b, unfolded T1']
    by (simp add: reported_def goto_def S new_channel_def r)
  have "(tunnel_step env)\<^sup>*\<^sup>* s0 S"
    unfolding S_def by (meson converse_rtranclp_into_rtranclp r_into_rtranclp step_spawn)
  moreover have "(tunnel_step env)\<^sup>*\<^sup>* S (goto 0 ?R S)"
    using snapshot_steps [of 0 S env rep] S by (simp add: new_channel_def)
  moreover have "(tunnel_step env)\<^sup>*\<^sup>* (goto 0 ?R S) ?T"
    using snapshot_steps [of 1 "goto 0 ?R S" env rep] S by (simp add: new_channel_def goto_def)
  moreover have "(tunnel_step env)\<^sup>*\<^sup>* ?T ?T1"
    using resume_steps [of 0 ?T rep "[]" new_v4 env] S fresh unfolding T1 by (simp add: goto_def)
  moreover have "(tunnel_step env)\<^sup>*\<^sup>* ?T1 ?T2"
    using resume_steps [of 1 ?T1 rep "[]" new_v4 env] S fresh unfolding T2 by (simp add: goto_def reported_def)
  ultimately have "(tunnel_step env)\<^sup>*\<^sup>* s0 ?T2" by (meson rtranclp_trans)
  moreover have "\<forall>i \<in> {0, 1}. ch_alive (tn_channels ?T2 i) \<and> cc_task (tn_ccs ?T2 i) = Waiting
         \<and> cc_service_digest (tn_ccs ?T2 i) = dig \<and> cc_node_uuid (tn_ccs ?T2 i) = Some u
         \<and> AssignNodeUuid u \<in> set (ch_sent (tn_channels ?T2 i))"
    by (simp add: reported_def goto_def S new_channel_def assign_cmds_def)
  ultimately show ?thesis by blast
qed


section \<open>Handshakes and data channels\<close>

text \<open>
  C11. A control channel exists only for a peer that proved the token: the handshake
  changes nothing unless the peer's answer is the digest of the server's token and of the nonce drawn for
  this connection. With the right answer exactly one channel is added, idle and with eight data-channel requests queued, which data
  channels reach by that digest; with a wrong answer the peer is told so and the connection fails.
\<close>

theorem handshake_authenticates:
  fixes env :: server_env and cid dig :: digest and inp :: bytes
  assumes "ser_hello cod (ControlChannelHello CURRENT_PROTO_VERSION nonce) = Some h"
    and "ser_ack cod AckOk = Some a" "ser_ack cod AuthFailed = Some f"
    and "mm_wf (tn_control_channels s)"
  defines "key \<equiv> env_digest env (env_token env @ nonce)"
    and "res \<equiv> do_control_channel_handshake env cod nonce cid dig inp s"
  shows "(\<forall>rest. read_message (de_auth cod) inp = Inr (Auth key, rest) \<longrightarrow>
            snd res = (write_len_prefixed h @ write_len_prefixed a, Inr ())
            \<and> tn_next (fst res) = Suc (tn_next s) \<and> tn_ccs (fst res) = (tn_ccs s)(tn_next s := new_channel dig cid key)
            \<and> cc_requests (tn_ccs (fst res) (tn_next s)) = 8
            \<and> (mm_get1 (tn_control_channels s) cid = None \<and> mm_get2 (tn_control_channels s) key = None \<longrightarrow>
                 mm_get2 (tn_control_channels (fst res)) key = Some (tn_next s)))
    \<and> (\<forall>d rest. read_message (de_auth cod) inp = Inr (Auth d, rest) \<and> d \<noteq> key \<longrightarrow>
            res = (s, write_len_prefixed h @ write_len_prefixed f, Inl ClientFailedAuthentication))
    \<and> (\<forall>e. read_message (de_auth cod) inp = Inl e \<longrightarrow> res = (s, write_len_prefixed h, Inl (ProtoError e)))"
  using assms(1-3) mm.get_ins(2) [OF assms(4)]
  by (auto simp: res_def key_def do_control_channel_handshake_def write_message_def Let_def insert_handle_def
      spawn_channel_def new_channel_def TCP_POOL_SIZE_def)

text \<open>Data channels that arrive one after the other with the same key.\<close>

fun data_channels :: "digest \<Rightarrow> nat list \<Rightarrow> tunnel \<Rightarrow> tunnel \<times> (conn_error + data_fate) list" where
  "data_channels nonce [] s = (s, [])"
| "data_channels nonce (conn # conns) s =
     (case do_data_channel_handshake nonce conn s of
        (s, fate) \<Rightarrow> (case data_channels nonce conns s of (s, fates) \<Rightarrow> (s, fate # fates)))"

lemma data_to_visitor:
  "mm_get2 (tn_control_channels s) nonce = Some i \<Longrightarrow> cc_port_pending (tn_ccs s i) = [] \<Longrightarrow>
   cc_callbacks (tn_ccs s i) = (v, lp) # vs \<Longrightarrow>
   do_data_channel_handshake nonce conn s = (upd_cc i (\<lambda>c. c\<lparr>cc_callbacks := vs\<rparr>) s, Inr (ToVisitor v lp))"
  by (simp add: do_data_channel_handshake_def)

lemma data_to_pool:
  "mm_get2 (tn_control_channels s) nonce = Some i \<Longrightarrow> cc_port_pending (tn_ccs s i) = [] \<Longrightarrow>
   cc_callbacks (tn_ccs s i) = [] \<Longrightarrow> cc_pool_alive (tn_ccs s i) \<Longrightarrow>
   do_data_channel_handshake nonce conn s = (upd_cc i (\<lambda>c. c\<lparr>cc_pool := cc_pool c @ [conn]\<rparr>) s, Inr ToPool)"
  by (simp add: do_data_channel_handshake_def)

text \<open>
  Data channels go to the visitors of the forwarded ports in the order these arrived, one each, and
  only when no visitor waits into the pool of the service port, in the order they came; no data
  channel is dropped, no visitor is skipped, and no other control channel is touched. A key that belongs to no channel
  changes nothing.
\<close>

theorem data_channels_in_order:
  assumes "mm_get2 (tn_control_channels s) nonce = Some i" "cc_port_pending (tn_ccs s i) = []"
    and "cc_pool_alive (tn_ccs s i)" "mm_get2 (tn_control_channels s) other = None"
  shows "data_channels nonce conns s =
      (upd_cc i (\<lambda>c. c\<lparr>cc_callbacks := drop (length conns) (cc_callbacks c),
                         cc_pool := cc_pool c @ drop (length (cc_callbacks c)) conns\<rparr>) s,
       map (\<lambda>(v, lp). Inr (ToVisitor v lp)) (take (length conns) (cc_callbacks (tn_ccs s i)))
         @ replicate (length conns - length (cc_callbacks (tn_ccs s i))) (Inr ToPool))
    \<and> fst (data_channels other conns s) = s"
proof
  show "fst (data_channels other conns s) = s"
    using assms(4) by (induction conns) (auto simp: do_data_channel_handshake_def split: prod.splits)
  show "data_channels nonce conns s =
      (upd_cc i (\<lambda>c. c\<lparr>cc_callbacks := drop (length conns) (cc_callbacks c),
                         cc_pool := cc_pool c @ drop (length (cc_callbacks c)) conns\<rparr>) s,
       map (\<lambda>(v, lp). Inr (ToVisitor v lp)) (take (length conns) (cc_callbacks (tn_ccs s i)))
         @ replicate (length conns - length (cc_callbacks (tn_ccs s i))) (Inr ToPool))"
    using assms(1-3)
  proof (induction conns arbitrary: s)
    case Nil
    show ?case by (simp add: upd_cc_def)
  next
    case (Cons conn conns)
    show ?case
    proof (cases "cc_callbacks (tn_ccs s i)")
      case Nil
      let ?s = "upd_cc i (\<lambda>c. c\<lparr>cc_pool := cc_pool c @ [conn]\<rparr>) s"
      from Cons.IH [of ?s] Cons.prems Nil show ?thesis
        by (simp add: data_to_pool [OF Cons.prems(1,2) Nil Cons.prems(3)]) (simp add: upd_cc_def)
    next
      case (Cons w vs)
      obtain v lp where w: "w = (v, lp)" by (cases w)
      let ?s = "upd_cc i (\<lambda>c. c\<lparr>cc_callbacks := vs\<rparr>) s"
      from Cons.IH [of ?s] Cons.prems Cons show ?thesis
        by (simp add: data_to_visitor [OF Cons.prems(1,2) Cons [unfolded w]] w) (simp add: upd_cc_def)
    qed
  qed
qed


section \<open>Instances\<close>

definition sample_env :: server_env where
  "sample_env =
     \<lparr>env_token = [7], env_digest = (\<lambda>b. b), env_hex = (\<lambda>b. if b = [1] then ''a1'' else ''b2''),
      env_uuid_ok = (\<lambda>u. u \<noteq> ''junk''), env_heartbeat = 30\<rparr>"

definition sample_report :: "string option \<Rightarrow> node_report" where
  "sample_report u =
     \<lparr>nr_node_uuid = u, nr_hostname = ''box'', nr_os = ''linux'', nr_arch = ''x86_64'', nr_docker_version = ''27'',
      nr_port_range_start = 1000, nr_port_range_end = 2000, nr_cpu_cores = 4, nr_memory_mb = 8192,
      nr_running_containers = []\<rparr>"

definition sample_cod :: codecs where
  "sample_cod =
     \<lparr>de_hello = (\<lambda>b. Some (ControlChannelHello 1 b)), ser_hello = (\<lambda>h. Some [1, 2]),
      de_auth = (\<lambda>b. Some (Auth b)), ser_ack = (\<lambda>a. Some (if a = AckOk then [0] else [1]))\<rparr>"

lemmas sample_tunnel_defs = sample_env_def sample_report_def sample_cod_def

lemma sample_init: "tunnel_init b (server_from b)"
  by (simp add: tunnel_init_def server_from_def new_registry_def)

lemma sample_claim:
  "claimed_uuid (env_uuid_ok sample_env) (sample_report (Some ''u'')) = Some ''u''"
  "claimed_uuid (env_uuid_ok sample_env) (sample_report None) = None"
  by (simp_all add: sample_tunnel_defs claimed_uuid_def kdct_simps)

theorem identity_bound_to_digest_witness:
  "hm_get (tn_bindings (connect sample_env ''v'' [2] [6] [6] (sample_report (Some ''u''))
      (connect sample_env ''v'' [1] [5] [5] (sample_report (Some ''u'')) (server_from [])))) ''u'' = Some ''a1''"
proof -
  let ?s = "connect sample_env ''v'' [1] [5] [5] (sample_report (Some ''u'')) (server_from [])"
  let ?t = "connect sample_env ''v'' [2] [6] [6] (sample_report (Some ''u'')) ?s"
  have own: "hm_get (tn_bindings (server_from [])) ''u'' = None \<or> hm_get (tn_bindings (server_from [])) ''u'' = Some (env_hex sample_env [1])"
    by (simp add: server_from_def)
  note s = connect_claimed [OF sample_claim(1) own, where nv = "''v''" and cid = "[5]" and key = "[5]"]
  have "(tunnel_step sample_env)\<^sup>*\<^sup>* (server_from []) ?s" by (rule connect_steps) (simp add: server_from_def)
  moreover have "(tunnel_step sample_env)\<^sup>*\<^sup>* ?s ?t"
    by (rule connect_steps) (use s(3) in \<open>auto simp: server_from_def\<close>)
  ultimately have "hm_get (tn_bindings ?t) ''u'' = Some (nc_service_digest (connected_of (env_hex sample_env [1]) (sample_report (Some ''u''))))"
    using identity_bound_to_digest [of "[]" "server_from []" sample_env ?s ?t] sample_init s(13) by (auto simp: server_from_def)
  then show ?thesis by (simp add: connected_of_def sample_env_def)
qed


theorem stale_exit_unregisters_live_node_witness:
  "hm_get (tn_registry (leave sample_env ''v'' 0 (connect sample_env ''v'' [1] [6] [6] (sample_report (Some ''u''))
      (connect sample_env ''v'' [1] [5] [5] (sample_report (Some ''u'')) (server_from []))))) ''u'' = None"
  using stale_exit_unregisters_live_node [OF sample_init sample_claim(1), of "[]" "[1]" "[5]" "[6]" "''v''" "[6]" "[5]"] by simp

theorem claimless_clients_share_identity_witness:
  "\<exists>t. (tunnel_step sample_env)\<^sup>*\<^sup>* (server_from [(''u'', ''a1'')]) t
     \<and> cc_node_uuid (tn_ccs t 0) = Some ''u'' \<and> cc_node_uuid (tn_ccs t 1) = Some ''u''"
  using claimless_clients_share_identity [of "''u''" sample_env "[1]" "server_from [(''u'', ''a1'')]" "sample_report None" "''v''"]
    sample_init [of "[(''u'', ''a1'')]"] sample_claim(2) by (auto simp: sample_env_def)

theorem handshake_authenticates_witness:
  "do_control_channel_handshake sample_env sample_cod [9] [5] [1] (write_len_prefixed [3]) (server_from []) =
     (server_from [], write_len_prefixed [1, 2] @ write_len_prefixed [1], Inl ClientFailedAuthentication)"
proof -
  have "read_message (de_auth sample_cod) (write_len_prefixed [3]) = Inr (Auth [3], [])"
    by (simp add: sample_cod_def kdct_simps unsigned_of_nat)
  then show ?thesis
    using handshake_authenticates [where cod = sample_cod and nonce = "[9]" and h = "[1, 2]" and a = "[0]" and f = "[1]"
        and s = "server_from []" and env = sample_env and cid = "[5]" and dig = "[1]" and inp = "write_len_prefixed [3]"]
      mm_wf_new by (simp add: sample_cod_def sample_env_def server_from_def)
qed

theorem data_channels_in_order_witness:
  "snd (data_channels [5] [11, 12, 13]
      (upd_cc 0 (\<lambda>c. c\<lparr>cc_callbacks := [(1, 80), (2, 81)]\<rparr>) (insert_handle 0 (spawn_channel [1] [5] [5] (server_from []))))) =
     [Inr (ToVisitor 1 80), Inr (ToVisitor 2 81), Inr ToPool]"
proof -
  let ?s = "upd_cc 0 (\<lambda>c. c\<lparr>cc_callbacks := [(1, 80), (2, 81)]\<rparr>) (insert_handle 0 (spawn_channel [1] [5] [5] (server_from [])))"
  have "mm_get2 (tn_control_channels ?s) [5] = Some 0" "mm_get2 (tn_control_channels ?s) [6] = None"
    by (simp_all add: insert_handle_def spawn_channel_def new_channel_def server_from_def kdct_simps)
  from data_channels_in_order [OF this(1) _ _ this(2), of "[11, 12, 13]"] show ?thesis
    by (simp add: insert_handle_def spawn_channel_def new_channel_def server_from_def)
qed

end
