(* ===== verification/Port_Pool.thy ===== *)
theory Port_Pool
  imports Kdct_Prelude
begin

text \<open>
  The pool of pre-bound public ports, \<^verbatim>\<open>crates/tunnel/src/port_pool.rs\<close>: parsing of the
  range specification, construction (every port is bound or the whole construction fails),
  and the operations that move a port between the free set and the assignment table.
  The operating system's \<^verbatim>\<open>bind\<close> is a parameter of \<open>pool_new\<close>: it sees the ports the
  process holds already. Each operation takes both write locks before it reads anything, so
  it is one atomic function of the pool.
\<close>

section \<open>Parsing a port range\<close>

datatype range_error =
    InvalidRangeStart
  | InvalidRangeEnd
  | StartAfterEnd u16 u16
  | InvalidPortNumber

definition parse_part :: "string \<Rightarrow> range_error + u16 list" where
  "parse_part part0 =
     (let part = trim part0 in
      if CHR ''-'' \<in> set part then
        (case splitn2 (CHR ''-'') part of
           (a, rest) \<Rightarrow>
             (case parse_u16 (trim a) of
                None \<Rightarrow> Inl InvalidRangeStart
              | Some start \<Rightarrow>
                  (case map_option trim rest of
                     None \<Rightarrow> Inl InvalidRangeEnd
                   | Some b \<Rightarrow>
                       (case parse_u16 b of
                          None \<Rightarrow> Inl InvalidRangeEnd
                        | Some stop \<Rightarrow>
                            if start > stop then Inl (StartAfterEnd start stop)
                            else Inr (u16_range start stop)))))
      else
        (case parse_u16 part of
           None \<Rightarrow> Inl InvalidPortNumber
         | Some p \<Rightarrow> Inr [p]))"

fun parse_parts :: "string list \<Rightarrow> range_error + u16 list" where
  "parse_parts [] = Inr []"
| "parse_parts (part # parts) =
     (case parse_part part of
        Inl e \<Rightarrow> Inl e
      | Inr ps \<Rightarrow> (case parse_parts parts of Inl e \<Rightarrow> Inl e | Inr qs \<Rightarrow> Inr (ps @ qs)))"

definition parse_port_range :: "string \<Rightarrow> range_error + u16 list" where
  "parse_port_range spec = parse_parts (split_on (CHR '','') spec)"

section \<open>The pool\<close>

record 'l port_pool =
  free :: "u16 list"
  assignments :: "(u16, bytes \<times> u16) hmap"
  listeners :: "(u16, 'l) hmap"
  total_ports :: u16

datatype pool_error =
    RangeError range_error
  | PoolEmpty
  | PortInUse u16
  | NotEnoughFree nat nat
  | PortNotInPool u16

text \<open>
  The loop of \<^verbatim>\<open>PortPool::new\<close>. \<open>bind held p\<close> is the system call's answer when the process
  already holds the ports \<open>held\<close>.
\<close>

fun bind_all ::
  "(u16 list \<Rightarrow> u16 \<Rightarrow> 'l option) \<Rightarrow> u16 list \<Rightarrow> (u16, 'l) hmap \<Rightarrow> u16 list
     \<Rightarrow> pool_error + (u16, 'l) hmap \<times> u16 list" where
  "bind_all bind [] ls fr = Inr (ls, fr)"
| "bind_all bind (p # ps) ls fr =
     (case bind (map fst ls) p of
        None \<Rightarrow> Inl (PortInUse p)
      | Some l \<Rightarrow> bind_all bind ps (hm_insert p l ls) (bset_insert p fr))"

definition pool_new ::
  "(u16 list \<Rightarrow> u16 \<Rightarrow> 'l option) \<Rightarrow> string \<Rightarrow> pool_error + 'l port_pool" where
  "pool_new bind spec =
     (case parse_port_range spec of
        Inl e \<Rightarrow> Inl (RangeError e)
      | Inr ports \<Rightarrow>
          if ports = [] then Inl PoolEmpty
          else (case bind_all bind ports [] [] of
                  Inl e \<Rightarrow> Inl e
                | Inr (ls, fr) \<Rightarrow>
                    Inr \<lparr>free = fr, assignments = [], listeners = ls,
                         total_ports = word_of_nat (length ports)\<rparr>))"

definition free_count :: "'l port_pool \<Rightarrow> nat" where
  "free_count pl = length (free pl)"

definition assigned_count :: "'l port_pool \<Rightarrow> nat" where
  "assigned_count pl = length (assignments pl)"

definition assignments_snapshot :: "'l port_pool \<Rightarrow> (u16 \<times> bytes \<times> u16) list" where
  "assignments_snapshot pl = assignments pl"

text \<open>
  The loop of \<^verbatim>\<open>assign\<close>. \<^verbatim>\<open>free.pop_first().unwrap()\<close> panics on an empty set, which is
  the result \<^const>\<open>None\<close> here.
\<close>

fun assign_loop ::
  "bytes \<Rightarrow> u16 list \<Rightarrow> 'l port_pool \<Rightarrow> (u16, u16) hmap \<Rightarrow> ('l port_pool \<times> (u16, u16) hmap) option" where
  "assign_loop dig [] pl m = Some (pl, m)"
| "assign_loop dig (lp # lps) pl m =
     (case free pl of
        [] \<Rightarrow> None
      | sp # rest \<Rightarrow>
          assign_loop dig lps
            (pl\<lparr>free := rest, assignments := hm_insert sp (dig, lp) (assignments pl)\<rparr>)
            (hm_insert lp sp m))"

definition assign ::
  "bytes \<Rightarrow> u16 list \<Rightarrow> 'l port_pool \<Rightarrow> (pool_error + 'l port_pool \<times> (u16, u16) hmap) option" where
  "assign dig local_ports pl =
     (if length (free pl) < length local_ports
      then Some (Inl (NotEnoughFree (length local_ports) (length (free pl))))
      else map_option Inr (assign_loop dig local_ports pl []))"

definition release_one :: "u16 \<Rightarrow> 'l port_pool \<Rightarrow> 'l port_pool" where
  "release_one p pl =
     pl\<lparr>assignments := hm_remove p (assignments pl), free := bset_insert p (free pl)\<rparr>"

definition release_client :: "bytes \<Rightarrow> 'l port_pool \<Rightarrow> 'l port_pool" where
  "release_client dig pl =
     fold release_one
       (map fst (filter (\<lambda>(p, (d, lp)). d = dig) (assignments pl))) pl"

definition release_by_port :: "u16 \<Rightarrow> 'l port_pool \<Rightarrow> 'l port_pool" where
  "release_by_port p pl =
     (case hm_get (assignments pl) p of None \<Rightarrow> pl | Some _ \<Rightarrow> release_one p pl)"

definition accept_on :: "u16 \<Rightarrow> 'l port_pool \<Rightarrow> pool_error + 'l" where
  "accept_on p pl =
     (case hm_get (listeners pl) p of None \<Rightarrow> Inl (PortNotInPool p) | Some l \<Rightarrow> Inr l)"

definition reserve_one :: "'l port_pool \<Rightarrow> (u16 \<times> 'l port_pool) option" where
  "reserve_one pl =
     (case free pl of
        [] \<Rightarrow> None
      | p # rest \<Rightarrow>
          Some (p, pl\<lparr>free := rest, assignments := hm_insert p ([], 0) (assignments pl)\<rparr>))"

definition lookup_port :: "u16 \<Rightarrow> 'l port_pool \<Rightarrow> (bytes \<times> u16) option" where
  "lookup_port p pl = hm_get (assignments pl) p"

lemmas [kdct_simps] = parse_part_def parse_port_range_def pool_new_def free_count_def
  assigned_count_def assignments_snapshot_def assign_def release_one_def release_client_def
  release_by_port_def accept_on_def reserve_one_def lookup_port_def

section \<open>Invariant\<close>

text \<open>
  Free ports and assigned ports are disjoint, and together they are exactly the ports the
  pool has a listener for: no port is lost and none is in both tables.
\<close>

definition assigned :: "'l port_pool \<Rightarrow> u16 set" where
  "assigned pl = hm_keys (assignments pl)"

definition pool_ports :: "'l port_pool \<Rightarrow> u16 set" where
  "pool_ports pl = hm_keys (listeners pl)"

definition pool_inv :: "'l port_pool \<Rightarrow> bool" where
  "pool_inv pl \<longleftrightarrow>
     bset_wf (free pl) \<and> hm_wf (assignments pl) \<and> hm_wf (listeners pl) \<and>
     set (free pl) \<inter> assigned pl = {} \<and> set (free pl) \<union> assigned pl = pool_ports pl"


lemmas pool_defs = pool_inv_def assigned_def pool_ports_def

lemma bind_all_tables:
  "bind_all bind ps ls fr = Inr (ls', fr') \<Longrightarrow> bset_wf fr \<Longrightarrow> hm_wf ls \<Longrightarrow> hm_keys ls = set fr
     \<Longrightarrow> bset_wf fr' \<and> hm_wf ls' \<and> hm_keys ls' = set fr' \<and> set fr' = set fr \<union> set ps"
proof (induction ps arbitrary: ls fr)
  case (Cons p ps)
  from Cons.prems(1) obtain l where
    "bind_all bind ps (hm_insert p l ls) (bset_insert p fr) = Inr (ls', fr')"
    by (auto split: option.splits)
  from Cons.IH [OF this] Cons.prems show ?case
    by (simp add: bset_wf_insert distinct_update)
qed simp

lemma bind_all_exclusive:
  assumes excl: "\<And>held p. p \<in> set held \<Longrightarrow> p \<noteq> 0 \<Longrightarrow> bind held p = None"
  shows "bind_all bind ps ls fr = Inr r \<Longrightarrow> 0 \<notin> set ps \<Longrightarrow> distinct ps \<and> set ps \<inter> hm_keys ls = {}"
proof (induction ps arbitrary: ls fr)
  case (Cons p ps)
  from Cons.prems(1) obtain l where b: "bind (map fst ls) p = Some l"
    and rest: "bind_all bind ps (hm_insert p l ls) (bset_insert p fr) = Inr r"
    by (auto split: option.splits)
  from Cons.IH [OF rest] Cons.prems(2)
  have "distinct ps" "set ps \<inter> insert p (hm_keys ls) = {}" by auto
  moreover have "p \<notin> hm_keys ls"
    using b excl [of p "map fst ls"] Cons.prems(2) by auto
  ultimately show ?case by auto
qed simp

lemma parse_part_not_Nil: "parse_part s = Inr ps \<Longrightarrow> ps \<noteq> []"
  by (auto simp: parse_part_def Let_def u16_range_def not_less word_le_nat_alt
      split: if_splits option.splits prod.splits)

lemma parse_parts_not_Nil: "parts \<noteq> [] \<Longrightarrow> parse_parts parts = Inr ps \<Longrightarrow> ps \<noteq> []"
  by (cases parts) (auto dest: parse_part_not_Nil split: sum.splits)

section \<open>The operations keep the invariant\<close>

lemma pool_inv_new [inv_intros]:
  "pool_new bind spec = Inr pl \<Longrightarrow> pool_inv pl"
  by (clarsimp simp: pool_new_def split: sum.splits if_splits prod.splits)
     (drule bind_all_tables, simp_all add: pool_inv_def assigned_def pool_ports_def)

lemma pool_inv_take:
  "pool_inv pl \<Longrightarrow> free pl = p # rest \<Longrightarrow>
     pool_inv (pl\<lparr>free := rest, assignments := hm_insert p v (assignments pl)\<rparr>)"
  by (auto simp: pool_defs distinct_update)

lemma pool_inv_reserve_one [inv_intros]:
  "pool_inv pl \<Longrightarrow> reserve_one pl = Some (p, pl') \<Longrightarrow> pool_inv pl'"
  by (auto simp: reserve_one_def intro: pool_inv_take split: list.splits)

lemma pool_inv_release_one:
  "pool_inv pl \<Longrightarrow> p \<in> pool_ports pl \<Longrightarrow> pool_inv (release_one p pl)"
  by (auto simp: pool_defs release_one_def bset_wf_insert distinct_delete)

lemma pool_ports_release_one [simp]: "pool_ports (release_one p pl) = pool_ports pl"
  by (simp add: release_one_def pool_ports_def)

lemma assigned_subset: "pool_inv pl \<Longrightarrow> assigned pl \<subseteq> pool_ports pl"
  by (auto simp: pool_inv_def)

lemma pool_inv_release_by_port [inv_intros]:
  "pool_inv pl \<Longrightarrow> pool_inv (release_by_port p pl)"
proof (cases "hm_get (assignments pl) p")
  case (Some v)
  assume inv: "pool_inv pl"
  from Some have "p \<in> assigned pl"
    unfolding assigned_def using hm_get_None [of "assignments pl" p] by simp
  with inv Some show ?thesis
    by (auto simp: release_by_port_def intro: pool_inv_release_one dest: assigned_subset)
qed (simp add: release_by_port_def)

lemma free_release_one: "set (free (release_one p pl)) = insert p (set (free pl))"
  by (simp add: release_one_def)

lemma assignments_release_one: "assignments (release_one p pl) = hm_remove p (assignments pl)"
  by (simp add: release_one_def)

lemma fold_release_one:
  "pool_inv pl \<Longrightarrow> set ps \<subseteq> pool_ports pl \<Longrightarrow>
     pool_inv (fold release_one ps pl) \<and>
     set (free (fold release_one ps pl)) = set (free pl) \<union> set ps \<and>
     pool_ports (fold release_one ps pl) = pool_ports pl \<and>
     (\<forall>q. hm_get (assignments (fold release_one ps pl)) q =
        (if q \<in> set ps then None else hm_get (assignments pl) q))"
proof (induction ps arbitrary: pl)
  case (Cons p ps)
  have "pool_inv (release_one p pl)" "set ps \<subseteq> pool_ports (release_one p pl)"
    using Cons.prems by (auto intro: pool_inv_release_one)
  from Cons.IH [OF this] show ?case
    by (simp add: free_release_one assignments_release_one hm_simps)
qed simp

definition client_ports :: "bytes \<Rightarrow> 'l port_pool \<Rightarrow> u16 list" where
  "client_ports dig pl = map fst (filter (\<lambda>(p, (d, lp)). d = dig) (assignments pl))"

lemma client_ports_iff:
  assumes "hm_wf (assignments pl)"
  shows "p \<in> set (client_ports dig pl) \<longleftrightarrow> (\<exists>lp. hm_get (assignments pl) p = Some (dig, lp))"
proof -
  have "p \<in> set (client_ports dig pl) \<longleftrightarrow> (\<exists>lp. (p, dig, lp) \<in> set (assignments pl))"
    unfolding client_ports_def by (force simp: image_iff)
  then show ?thesis using assms by (simp add: map_of_eq_Some_iff)
qed

lemma client_ports_subset: "pool_inv pl \<Longrightarrow> set (client_ports dig pl) \<subseteq> pool_ports pl"
  using assigned_subset [of pl] unfolding client_ports_def assigned_def by auto

lemma pool_inv_release_client [inv_intros]:
  "pool_inv pl \<Longrightarrow> pool_inv (release_client dig pl)"
  unfolding release_client_def
  using fold_release_one [OF _ client_ports_subset [of pl dig]] by (simp add: client_ports_def)

lemma assign_loop_spec:
  "pool_inv pl \<Longrightarrow> length lps \<le> length (free pl) \<Longrightarrow>
     \<exists>pl' m'. assign_loop dig lps pl m = Some (pl', m') \<and> pool_inv pl' \<and>
       free pl' = drop (length lps) (free pl) \<and> pool_ports pl' = pool_ports pl \<and>
       m' = fold (\<lambda>(lp, sp) m. hm_insert lp sp m) (zip lps (free pl)) m \<and>
       (\<forall>q lp. hm_get (zip (free pl) lps) q = Some lp \<longrightarrow> hm_get (assignments pl') q = Some (dig, lp)) \<and>
       (\<forall>q. hm_get (zip (free pl) lps) q = None \<longrightarrow>
          hm_get (assignments pl') q = hm_get (assignments pl) q)"
proof (induction lps arbitrary: pl m)
  case (Cons lp lps)
  then obtain sp rest where fr: "free pl = sp # rest" by (cases "free pl") auto
  let ?pl = "pl\<lparr>free := rest, assignments := hm_insert sp (dig, lp) (assignments pl)\<rparr>"
  have inv: "pool_inv ?pl" using Cons.prems(1) fr by (rule pool_inv_take)
  have "sp \<notin> set rest" using Cons.prems(1) fr by (simp add: pool_inv_def)
  then have "hm_get (zip rest lps) sp = None"
    by (auto simp: hm_get_None dest: set_zip_leftD)
  moreover obtain pl' m' where "assign_loop dig lps ?pl (hm_insert lp sp m) = Some (pl', m')"
    "pool_inv pl'" "free pl' = drop (length lps) rest" "pool_ports pl' = pool_ports pl"
    "m' = fold (\<lambda>(lp, sp) m. hm_insert lp sp m) (zip lps rest) (hm_insert lp sp m)"
    "\<forall>q lp. hm_get (zip rest lps) q = Some lp \<longrightarrow> hm_get (assignments pl') q = Some (dig, lp)"
    "\<forall>q. hm_get (zip rest lps) q = None \<longrightarrow>
       hm_get (assignments pl') q = hm_get (hm_insert sp (dig, lp) (assignments pl)) q"
    using Cons.IH [OF inv, of "hm_insert lp sp m"] Cons.prems(2) fr by (auto simp: pool_ports_def)
  ultimately show ?case using fr by (simp add: hm_get_insert)
qed simp


lemma fold_hm_insert_other:
  "k \<notin> set ks \<Longrightarrow>
     hm_get (fold (\<lambda>(k, v) m. hm_insert k v m) (zip ks vs) m) k = hm_get m k"
proof (induction ks arbitrary: vs m)
  case (Cons a ks)
  then show ?case by (cases vs) (auto simp: hm_get_insert)
qed simp

lemma fold_hm_insert_get:
  "distinct ks \<Longrightarrow> i < length ks \<Longrightarrow> length ks \<le> length vs \<Longrightarrow>
     hm_get (fold (\<lambda>(k, v) m. hm_insert k v m) (zip ks vs) m) (ks ! i) = Some (vs ! i)"
proof (induction ks arbitrary: vs m i)
  case (Cons a ks)
  then obtain v vs' where vs: "vs = v # vs'" by (cases vs) auto
  with Cons show ?case
    by (cases i) (auto simp: fold_hm_insert_other hm_get_insert)
qed simp

section \<open>The pool as an allocator\<close>

text \<open>
  What the panel's bridge handlers rely on: a port handed out by \<open>reserve\<close> was available
  and is no longer, releasing makes a port of the pool available again, and both keep the
  set of managed ports. The client's view is the set of ports it holds.
\<close>

locale port_allocator =
  fixes inv :: "'p \<Rightarrow> bool" and ports :: "'p \<Rightarrow> u16 set" and avail :: "'p \<Rightarrow> u16 set"
    and reserve :: "'p \<Rightarrow> (u16 \<times> 'p) option" and release :: "u16 \<Rightarrow> 'p \<Rightarrow> 'p"
  assumes avail_subset: "inv p \<Longrightarrow> avail p \<subseteq> ports p"
    and reserve_None: "inv p \<Longrightarrow> reserve p = None \<longleftrightarrow> avail p = {}"
    and reserve_Some: "inv p \<Longrightarrow> reserve p = Some (x, q) \<Longrightarrow>
          x \<in> avail p \<and> inv q \<and> ports q = ports p \<and> avail q = avail p - {x}"
    and release_spec: "inv p \<Longrightarrow>
          inv (release x p) \<and> ports (release x p) = ports p \<and>
          avail (release x p) = avail p \<union> ({x} \<inter> ports p)"
begin

definition held :: "'p \<Rightarrow> u16 set \<Rightarrow> bool" where
  "held p H \<longleftrightarrow> H \<subseteq> ports p - avail p"

lemma held_reserve:
  assumes "inv p" "reserve p = Some (x, q)" "held p H"
  shows "x \<notin> H" "held q (insert x H)"
proof -
  from reserve_Some [OF assms(1,2)] avail_subset [OF assms(1)] assms(3)
  show "x \<notin> H" "held q (insert x H)" by (auto simp: held_def)
qed

lemma held_release:
  assumes "inv p" "held p H"
  shows "held (release x p) (H - {x})"
  using release_spec [OF assms(1), of x] assms(2) by (auto simp: held_def)

lemma fold_release:
  "inv p \<Longrightarrow> inv (fold release xs p) \<and> ports (fold release xs p) = ports p \<and>
     avail (fold release xs p) = avail p \<union> (set xs \<inter> ports p)"
proof (induction xs arbitrary: p)
  case (Cons x xs)
  then show ?case using release_spec [OF Cons.prems, of x] by auto
qed simp

lemma release_reserve_avail:
  assumes "inv p" "reserve p = Some (x, q)"
  shows "avail (release x q) = avail p"
  using reserve_Some [OF assms] release_spec [of q x] avail_subset [OF assms(1)] by auto

end

lemma reserve_one_avail:
  "pool_inv pl \<Longrightarrow> reserve_one pl = Some (p, pl') \<Longrightarrow>
     p \<in> set (free pl) \<and> pool_ports pl' = pool_ports pl \<and> set (free pl') = set (free pl) - {p}"
  by (auto simp: reserve_one_def pool_inv_def pool_ports_def split: list.splits)

lemma free_release_by_port:
  "pool_inv pl \<Longrightarrow> set (free (release_by_port p pl)) = set (free pl) \<union> ({p} \<inter> pool_ports pl)"
proof (cases "hm_get (assignments pl) p")
  case None
  assume inv: "pool_inv pl"
  from None have "p \<notin> assigned pl" by (simp add: assigned_def hm_get_None)
  with inv None show ?thesis by (auto simp: release_by_port_def pool_inv_def)
next
  case (Some v)
  assume inv: "pool_inv pl"
  from Some have "p \<in> assigned pl" using hm_get_None [of "assignments pl" p] by (simp add: assigned_def)
  with inv Some assigned_subset [OF inv] show ?thesis
    by (auto simp: release_by_port_def free_release_one)
qed

lemma pool_ports_release_by_port [simp]: "pool_ports (release_by_port p pl) = pool_ports pl"
  by (simp add: release_by_port_def split: option.splits)

interpretation pool: port_allocator pool_inv pool_ports "\<lambda>pl. set (free pl)" reserve_one release_by_port
proof
  fix p q :: "'l port_pool" and x
  assume inv: "pool_inv p"
  show "set (free p) \<subseteq> pool_ports p" using inv by (auto simp: pool_inv_def)
  show "reserve_one p = None \<longleftrightarrow> set (free p) = {}"
    by (simp add: reserve_one_def split: list.splits)
  show "pool_inv (release_by_port x p) \<and> pool_ports (release_by_port x p) = pool_ports p \<and>
      set (free (release_by_port x p)) = set (free p) \<union> ({x} \<inter> pool_ports p)"
    using inv by (simp add: free_release_by_port pool_inv_release_by_port)
  assume "reserve_one p = Some (x, q)"
  with inv show "x \<in> set (free p) \<and> pool_inv q \<and> pool_ports q = pool_ports p \<and>
      set (free q) = set (free p) - {x}"
    using reserve_one_avail pool_inv_reserve_one by metis
qed

section \<open>Properties\<close>

text \<open>Every way the program changes a pool it has constructed.\<close>

inductive pool_step :: "'l port_pool \<Rightarrow> 'l port_pool \<Rightarrow> bool" where
  step_assign: "assign dig lps pl = Some (Inr (pl', m)) \<Longrightarrow> pool_step pl pl'"
| step_reserve: "reserve_one pl = Some (p, pl') \<Longrightarrow> pool_step pl pl'"
| step_release_client: "pool_step pl (release_client dig pl)"
| step_release_port: "pool_step pl (release_by_port p pl)"

inductive_cases pool_stepE: "pool_step pl pl'"

lemma assign_Inr:
  assumes "pool_inv pl" "assign dig lps pl = Some (Inr (pl', m))"
  shows "pool_inv pl'" "pool_ports pl' = pool_ports pl"
  using assms assign_loop_spec [OF assms(1), of lps dig "[]"]
  by (auto simp: assign_def not_less split: if_splits)

lemma pool_ports_release_client: "pool_inv pl \<Longrightarrow> pool_ports (release_client dig pl) = pool_ports pl"
  unfolding release_client_def
  using fold_release_one [OF _ client_ports_subset [of pl dig]] by (simp add: client_ports_def)

definition pool_over :: "u16 set \<Rightarrow> 'l port_pool \<Rightarrow> bool" where
  "pool_over P pl \<longleftrightarrow> pool_inv pl \<and> pool_ports pl = P"

interpretation pool_run: inductive_invariant "pool_over P" pool_step "pool_over P" for P
proof
  fix s t :: "'l port_pool"
  assume "pool_over P s" "pool_step s t"
  then show "pool_over P t"
    by (auto simp: pool_over_def elim!: pool_stepE
        dest: assign_Inr reserve_one_avail intro: inv_intros
        simp add: pool_ports_release_client)
qed

text \<open>
  Construction is all or nothing: for a specification that parses, \<^verbatim>\<open>PortPool::new\<close>
  either binds every listed port, and then all of them are free and none is assigned, or
  fails naming a listed port that could not be bound; the emptiness check never fires.
\<close>

theorem pool_new_all_or_nothing:
  assumes "parse_port_range spec = Inr ports"
  shows "(\<exists>pl. pool_new bind spec = Inr pl \<and> pool_inv pl \<and> set (free pl) = set ports \<and>
            pool_ports pl = set ports \<and> assigned pl = {} \<and>
            unat (total_ports pl) = length ports mod 65536)
       \<or> (\<exists>p \<in> set ports. pool_new bind spec = Inl (PortInUse p))"
proof (cases "bind_all bind ports [] []")
  case (Inl e)
  have "\<exists>p \<in> set ps. e = PortInUse p" if "bind_all bind ps ls fr = Inl e" for ps ls fr
    using that by (induction ps arbitrary: ls fr) (auto split: option.splits)
  with Inl assms show ?thesis
    using parse_parts_not_Nil [of "split_on (CHR '','') spec" ports]
    by (auto simp: pool_new_def parse_port_range_def)
next
  case (Inr r)
  obtain ls fr where r: "r = (ls, fr)" by (cases r)
  have ne: "ports \<noteq> []"
    using assms parse_parts_not_Nil [of "split_on (CHR '','') spec" ports]
    by (simp add: parse_port_range_def)
  let ?pl = "\<lparr>free = fr, assignments = [], listeners = ls,
    total_ports = word_of_nat (length ports)\<rparr>"
  have new: "pool_new bind spec = Inr ?pl"
    using assms Inr r ne by (simp add: pool_new_def)
  have "hm_keys ls = set fr" "set fr = set ports"
    using bind_all_tables [of bind ports "[]" "[]" ls fr] Inr r by auto
  with new pool_inv_new [OF new] show ?thesis
    by (intro disjI1 exI [of _ ?pl]) (simp add: pool_ports_def assigned_def unat_of_nat)
qed

theorem pool_new_all_or_nothing_witness:
  "parse_port_range ''9000-9002, 9010'' = Inr [9000, 9001, 9002, 9010] \<and>
   (\<exists>pl. pool_new (\<lambda>held p. if p \<in> set held then None else Some ()) ''9000-9002, 9010'' = Inr pl \<and>
      free_count pl = 4)"
proof -
  let ?bind = "\<lambda>held p. if p \<in> set held then None else Some ()"
  have h: "parse_port_range ''9000-9002, 9010'' = Inr [9000, 9001, 9002, 9010]"
    by (simp add: kdct_simps)
  have n: "pool_new ?bind ''9000-9002, 9010'' \<noteq> Inl (PortInUse p)" for p
    by (simp add: kdct_simps h)
  obtain pl where pl: "pool_new ?bind ''9000-9002, 9010'' = Inr pl"
    using pool_new_all_or_nothing [OF h, of ?bind] n by auto
  moreover have "free_count pl = 4"
    using pl by (auto simp: kdct_simps h)
  ultimately show ?thesis using h by blast
qed


text \<open>
  C18. In every pool reachable from a successful construction by any sequence of
  \<^verbatim>\<open>assign\<close>, \<^verbatim>\<open>reserve_one\<close>, \<^verbatim>\<open>release_client\<close> and \<^verbatim>\<open>release_by_port\<close> calls, the free ports and
  the assigned ports are disjoint and together are exactly the ports bound at start.
\<close>

theorem pool_ports_conserved:
  assumes "pool_new bind spec = Inr pl0" and "pool_step\<^sup>*\<^sup>* pl0 pl"
  shows "set (free pl) \<inter> assigned pl = {} \<and> set (free pl) \<union> assigned pl = set (free pl0) \<and>
         free_count pl + assigned_count pl = free_count pl0"
proof -
  have inv0: "pool_inv pl0" using assms(1) by (rule pool_inv_new)
  have "assigned pl0 = {}"
    using assms(1) by (auto simp: pool_new_def assigned_def split: sum.splits if_splits prod.splits)
  with inv0 have fr0: "pool_over (set (free pl0)) pl0" by (simp add: pool_over_def pool_inv_def)
  from pool_run.steps_inv [OF assms(2) fr0]
  have inv: "pool_inv pl" and ports: "pool_ports pl = set (free pl0)" by (simp_all add: pool_over_def)
  have "card (set (free pl) \<union> assigned pl) = card (set (free pl)) + card (assigned pl)"
    using inv by (intro card_Un_disjoint) (auto simp: pool_inv_def assigned_def)
  moreover have "card (assigned pl) = length (assignments pl)"
    using inv distinct_card [of "map fst (assignments pl)"] by (simp add: pool_inv_def assigned_def)
  ultimately show ?thesis
    using inv inv0 ports
    by (simp add: pool_inv_def free_count_def assigned_count_def distinct_card)
qed

theorem pool_ports_conserved_witness:
  "\<exists>pl0 pl p. pool_new (\<lambda>held p. if p \<in> set held then None else Some ()) ''9000-9001'' = Inr pl0 \<and>
     reserve_one pl0 = Some (p, pl) \<and> free_count pl + assigned_count pl = 2"
proof -
  let ?bind = "\<lambda>held p. if p \<in> set held then None else Some ()"
  let ?start = "\<lparr>free = [9000, 9001], assignments = [], listeners = [(9000, ()), (9001, ())],
    total_ports = 2\<rparr> :: unit port_pool"
  let ?pl = "\<lparr>free = [9001], assignments = [(9000, [], 0)], listeners = [(9000, ()), (9001, ())],
    total_ports = 2\<rparr> :: unit port_pool"
  have h: "parse_port_range ''9000-9001'' = Inr [9000, 9001]" by (simp add: kdct_simps)
  have new: "pool_new ?bind ''9000-9001'' = Inr ?start"
    by (simp add: pool_new_def h) (simp add: bset_insert_def)
  have res: "reserve_one ?start = Some (9000, ?pl)" by (simp add: kdct_simps)
  have "pool_step\<^sup>*\<^sup>* ?start ?pl" using step_reserve [OF res] by simp
  from pool_ports_conserved [OF new this] new res show ?thesis by (auto simp: free_count_def)
qed

text \<open>
  \<^verbatim>\<open>assign\<close> never panics. It refuses, changing nothing, exactly when fewer ports are
  free than are asked for; otherwise the \<open>i\<close>-th local port gets the \<open>i\<close>-th lowest free port,
  every other assignment is untouched, and the remaining free ports stay free.
\<close>

theorem assign_lowest_free:
  assumes "pool_inv pl"
  shows "(length (free pl) < length lps \<and>
            assign dig lps pl = Some (Inl (NotEnoughFree (length lps) (length (free pl)))))
       \<or> (length lps \<le> length (free pl) \<and>
            (\<exists>pl' m. assign dig lps pl = Some (Inr (pl', m)) \<and> pool_inv pl' \<and>
               free pl' = drop (length lps) (free pl) \<and>
               (\<forall>i < length lps. lookup_port (free pl ! i) pl' = Some (dig, lps ! i)) \<and>
               (\<forall>p. p \<notin> set (take (length lps) (free pl)) \<longrightarrow> lookup_port p pl' = lookup_port p pl) \<and>
               (distinct lps \<longrightarrow> (\<forall>i < length lps. hm_get m (lps ! i) = Some (free pl ! i)))))"
proof (cases "length (free pl) < length lps")
  case False
  then have le: "length lps \<le> length (free pl)" by simp
  obtain pl' m where run: "assign_loop dig lps pl [] = Some (pl', m)" "pool_inv pl'"
    "free pl' = drop (length lps) (free pl)"
    and m: "m = fold (\<lambda>(lp, sp) m. hm_insert lp sp m) (zip lps (free pl)) []"
    and new: "\<And>q lp. hm_get (zip (free pl) lps) q = Some lp \<Longrightarrow> hm_get (assignments pl') q = Some (dig, lp)"
    and old: "\<And>q. hm_get (zip (free pl) lps) q = None \<Longrightarrow>
      hm_get (assignments pl') q = hm_get (assignments pl) q"
    using assign_loop_spec [OF assms le, of dig "[]"] by blast
  have dist: "distinct (free pl)" using assms by (simp add: pool_inv_def)
  have "hm_get (zip (free pl) lps) (free pl ! i) = Some (lps ! i)" if "i < length lps" for i
    using that le dist by (intro map_of_is_SomeI) (auto simp: map_fst_zip_take set_zip)
  moreover have "hm_get (zip (free pl) lps) q = None" if "q \<notin> set (take (length lps) (free pl))" for q
    using that by (simp add: hm_get_None flip: set_map add: map_fst_zip_take)
      (meson in_set_takeD le set_take_subset_set_take subset_iff min.cobounded2)
  moreover have "hm_get m (lps ! i) = Some (free pl ! i)" if "distinct lps" "i < length lps" for i
    unfolding m using that le by (intro fold_hm_insert_get) auto
  ultimately show ?thesis
    using le run new old by (auto simp: assign_def lookup_port_def)
qed (simp add: assign_def)

theorem assign_lowest_free_witness:
  "pool_inv \<lparr>free = [9000, 9001], assignments = [], listeners = [(9000, ()), (9001, ())],
     total_ports = 2\<rparr> \<and>
   (\<exists>pl' m. assign [7] [80] \<lparr>free = [9000, 9001], assignments = [],
     listeners = [(9000, ()), (9001, ())], total_ports = 2\<rparr> = Some (Inr (pl', m)) \<and>
     lookup_port 9000 pl' = Some ([7], 80))"
proof -
  let ?pl = "\<lparr>free = [9000, 9001], assignments = [], listeners = [(9000, ()), (9001, ())],
     total_ports = 2\<rparr> :: unit port_pool"
  have inv: "pool_inv ?pl" by (auto simp: pool_defs)
  from assign_lowest_free [OF inv, of "[80]" "[7]"] inv show ?thesis by auto
qed

text \<open>
  \<^verbatim>\<open>release_client\<close> frees exactly the ports assigned under the given digest: those become
  free and unassigned, every other port keeps its assignment, and the pool invariant holds.
\<close>

theorem release_client_exact:
  assumes "pool_inv pl"
  shows "pool_inv (release_client dig pl) \<and>
         set (free (release_client dig pl)) =
           set (free pl) \<union> {p. \<exists>lp. lookup_port p pl = Some (dig, lp)} \<and>
         lookup_port p (release_client dig pl) =
           (if \<exists>lp. lookup_port p pl = Some (dig, lp) then None else lookup_port p pl)"
proof -
  have wf: "hm_wf (assignments pl)" using assms by (simp add: pool_inv_def)
  have "release_client dig pl = fold release_one (client_ports dig pl) pl"
    by (simp add: release_client_def client_ports_def)
  with fold_release_one [OF assms client_ports_subset [OF assms, of dig]] client_ports_iff [OF wf, of _ dig]
  show ?thesis by (auto simp: lookup_port_def)
qed

theorem release_client_exact_witness:
  "lookup_port 9001 (release_client [7] \<lparr>free = [], assignments = [(9000, [7], 80), (9001, [8], 81)],
     listeners = [(9000, ()), (9001, ())], total_ports = 2\<rparr>) = Some ([8], 81)"
proof -
  let ?pl = "\<lparr>free = [], assignments = [(9000, [7], 80), (9001, [8], 81)],
     listeners = [(9000, ()), (9001, ())], total_ports = 2\<rparr> :: unit port_pool"
  have inv: "pool_inv ?pl" by (auto simp: pool_defs)
  from release_client_exact [OF inv, of "[7]" 9001] show ?thesis by (simp add: lookup_port_def)
qed

text \<open>
  \<^verbatim>\<open>reserve_one\<close> hands out the lowest free port and marks it with the empty digest, and
  releasing that port gives back the very pool it was taken from.
\<close>

theorem reserve_release_roundtrip:
  assumes "pool_inv pl" and "reserve_one pl = Some (p, pl')"
  shows "p = Min (set (free pl)) \<and> lookup_port p pl' = Some ([], 0) \<and> accept_on p pl' = accept_on p pl \<and>
         release_by_port p pl' = pl"
proof -
  obtain rest where fr: "free pl = p # rest"
    and pl': "pl' = pl\<lparr>free := rest, assignments := hm_insert p ([], 0) (assignments pl)\<rparr>"
    using assms(2) by (auto simp: reserve_one_def split: list.splits)
  have "p \<notin> hm_keys (assignments pl)" "bset_wf (p # rest)"
    using assms(1) fr by (auto simp: pool_inv_def assigned_def)
  then have "release_by_port p pl' = pl"
    using fr by (simp add: pl' release_by_port_def release_one_def hm_get_insert
        hm_remove_insert_fresh bset_insert_Cons)
  moreover have "p = Min (set (free pl))"
    using \<open>bset_wf (p # rest)\<close> fr by (auto intro: Min_eqI [symmetric])
  ultimately show ?thesis by (simp add: pl' lookup_port_def accept_on_def hm_get_insert)
qed

theorem reserve_release_roundtrip_witness:
  "\<exists>pl'. reserve_one \<lparr>free = [9000], assignments = [], listeners = [(9000, ())], total_ports = 1\<rparr>
       = Some (9000, pl') \<and>
     release_by_port 9000 pl' = \<lparr>free = [9000], assignments = [], listeners = [(9000, ())], total_ports = 1\<rparr>"
proof -
  let ?pl = "\<lparr>free = [9000], assignments = [], listeners = [(9000, ())], total_ports = 1\<rparr> :: unit port_pool"
  let ?pl' = "?pl\<lparr>free := [], assignments := [(9000, [], 0)]\<rparr>"
  have inv: "pool_inv ?pl" by (auto simp: pool_defs)
  have res: "reserve_one ?pl = Some (9000, ?pl')" by (simp add: reserve_one_def)
  from reserve_release_roundtrip [OF inv res] res show ?thesis by blast
qed


text \<open>How a port or an inclusive range is written in a configuration file.\<close>

fun render_item :: "u16 \<times> u16 option \<Rightarrow> string" where
  "render_item (a, None) = show_nat (unat a)"
| "render_item (a, Some b) = show_nat (unat a) @ ''-'' @ show_nat (unat b)"

fun expand_item :: "u16 \<times> u16 option \<Rightarrow> u16 list" where
  "expand_item (a, None) = [a]"
| "expand_item (a, Some b) = u16_range a b"

lemma parse_part_render:
  assumes "\<And>b. snd it = Some b \<Longrightarrow> fst it \<le> b"
  shows "parse_part (render_item it) = Inr (expand_item it)"
proof (cases it rule: render_item.cases)
  case (1 a)
  then show ?thesis using show_nat_no_sign(1) [of "unat a"] by (simp add: parse_part_def)
next
  case (2 a b)
  let ?s = "show_nat (unat a) @ ''-'' @ show_nat (unat b)"
  have "trim ?s = ?s"
    using show_nat_digits [of "hd (show_nat (unat a))" "unat a"]
      show_nat_digits [of "last (show_nat (unat b))" "unat b"]
    by (intro trim_plain digit_plain) simp_all
  moreover have "splitn2 (CHR ''-'') ?s = (show_nat (unat a), Some (show_nat (unat b)))"
    using split_once_append [of "CHR ''-''" "show_nat (unat a)" "show_nat (unat b)"]
      show_nat_no_sign(1) [of "unat a"] by (simp add: splitn2_def)
  ultimately show ?thesis using assms 2 by (simp add: parse_part_def)
qed

lemma comma_free_render: "CHR '','' \<notin> set (render_item it)"
proof -
  have "CHR '','' \<notin> set (show_nat n)" for n
    using show_nat_digits [of "CHR '',''" n] by (auto simp: digit_val_def)
  then show ?thesis by (cases it rule: render_item.cases) auto
qed

text \<open>
  Round trip of the pool specification: a non-empty comma-separated list of ports and
  ascending ranges, written in decimal, parses to exactly the ports it lists, in order.
\<close>

theorem parse_port_range_roundtrip:
  assumes "items \<noteq> []" and "\<And>a b. (a, Some b) \<in> set items \<Longrightarrow> a \<le> b"
  shows "parse_port_range (join_with '','' (map render_item items)) = Inr (concat (map expand_item items))"
proof -
  have "parse_parts (map render_item its) = Inr (concat (map expand_item its))"
    if "set its \<subseteq> set items" for its
    using that
  proof (induction its)
    case (Cons it its)
    have "parse_part (render_item it) = Inr (expand_item it)"
      using assms(2) [of "fst it"] Cons.prems by (cases it) (auto intro: parse_part_render)
    with Cons show ?case by simp
  qed simp
  moreover have "split_on (CHR '','') (join_with '','' (map render_item items)) = map render_item items"
    using assms(1) by (intro split_on_join) (auto simp: comma_free_render)
  ultimately show ?thesis by (simp add: parse_port_range_def)
qed

theorem parse_port_range_roundtrip_witness:
  "join_with '','' (map render_item [(9000, Some 9002), (9010, None)]) = ''9000-9002,9010'' \<and>
   parse_port_range ''9000-9002,9010'' = Inr [9000, 9001, 9002, 9010]"
proof -
  have r: "join_with '','' (map render_item [(9000, Some 9002), (9010, None)]) = ''9000-9002,9010''"
    by (simp add: kdct_simps)
  have e: "concat (map expand_item [(9000, Some 9002), (9010, None)]) = [9000, 9001, 9002, 9010]"
    by (simp add: kdct_simps)
  have "parse_port_range (join_with '','' (map render_item [(9000, Some 9002), (9010, None)])) =
    Inr (concat (map expand_item [(9000, Some 9002), (9010, None)]))"
    by (rule parse_port_range_roundtrip) auto
  with r e show ?thesis by simp
qed

end
