(* ===== verification/Abstract_Specs.thy ===== *)
theory Abstract_Specs
  imports Tunnel_Runs Port_Pool
begin

text \<open>
  What the tunnel server and the port pool promise, as small transition systems, and that the detailed ones refine them: every run of
  the program is, through an abstraction function, a run of the specification. The tunnel server is a membership service, the pool a
  table of leases.
\<close>

section \<open>Membership\<close>

text \<open>
  Identities belong to owners (the digest a client authenticates with), once and for all; a client is present under an identity or not.
\<close>

record membership =
  mb_owner :: "string \<rightharpoonup> string"
  mb_present :: "string set"

inductive member_step :: "membership \<Rightarrow> membership \<Rightarrow> bool" where
  issue: "mb_owner m u = None \<Longrightarrow> member_step m (m\<lparr>mb_owner := (mb_owner m)(u \<mapsto> d)\<rparr>)"
| join: "mb_owner m u \<noteq> None \<Longrightarrow> member_step m (m\<lparr>mb_present := insert u (mb_present m)\<rparr>)"
| part: "member_step m (m\<lparr>mb_present := mb_present m - {u}\<rparr>)"

text \<open>The specification by itself: owners stay, and only owned identities are present.\<close>

lemma member_step_owner: "member_step m m' \<Longrightarrow> mb_owner m \<subseteq>\<^sub>m mb_owner m'"
  by (induction rule: member_step.induct) (auto simp: map_le_def dom_def)

lemma member_steps_owner: "member_step\<^sup>*\<^sup>* m m' \<Longrightarrow> mb_owner m \<subseteq>\<^sub>m mb_owner m'"
  by (induction rule: rtranclp_induct) (auto intro: map_le_trans member_step_owner)

lemma member_steps_present: "member_step\<^sup>*\<^sup>* m m' \<Longrightarrow> mb_present m \<subseteq> dom (mb_owner m) \<Longrightarrow> mb_present m' \<subseteq> dom (mb_owner m')"
proof (induction rule: rtranclp_induct)
  case (step m' m'')
  from step.hyps(2) step.IH [OF step.prems] show ?case by cases auto
qed

definition members :: "tunnel \<Rightarrow> membership" where
  "members s = \<lparr>mb_owner = hm_get (tn_bindings s), mb_present = hm_keys (tn_registry s)\<rparr>"

lemma members_same: "tn_bindings t = tn_bindings s \<Longrightarrow> tn_registry t = tn_registry s \<Longrightarrow> members t = members s"
  by (simp add: members_def)

text \<open>Resolving an identity issues at most one, and none that has an owner.\<close>

lemma resolve_uuid_issues:
  assumes "resolve_uuid dig existing claimed online new_v4 b = (r, b')" "new_v4 \<notin> hm_keys b"
  shows "b' = b \<or> (\<exists>u. hm_get b u = None \<and> hm_get b' = (hm_get b)(u \<mapsto> dig))"
  using assms by (auto simp: resolve_uuid_def hm_get_None hm_get_insert fun_eq_iff split: option.splits if_splits)

lemma advance_members:
  assumes inv: "tunnel_inv env s" and i: "i < tn_next s" and fresh: "new_v4 \<notin> hm_keys (tn_bindings s)"
  shows "members (advance env new_v4 i s) = members s \<or> member_step (members s) (members (advance env new_v4 i s))"
proof (cases "\<exists>rep online. cc_task (tn_ccs s i) = Resolving rep online")
  case True
  then obtain rep online where task: "cc_task (tn_ccs s i) = Resolving rep online" by blast
  let ?dig = "env_hex env (cc_service_digest (tn_ccs s i))"
  obtain r b where rb: "resolve_uuid ?dig (cc_node_uuid (tn_ccs s i)) (claimed_uuid (env_uuid_ok env) rep) online
      new_v4 (tn_bindings s) = (r, b)" by fastforce
  have t: "advance env new_v4 i s = goto i (Assigning rep r) (s\<lparr>tn_bindings := b\<rparr>)" using task rb by (simp add: advance_defs Let_def)
  from resolve_uuid_issues [OF rb fresh] show ?thesis
    using member_step.issue [of "members s" _ ?dig] by (auto simp: t members_def goto_def)
next
  case False
  then have "tn_bindings (advance env new_v4 i s) = tn_bindings s" by (simp add: advance_frame(2))
  moreover have "mb_owner (members s) u \<noteq> None" if "cc_task (tn_ccs s i) = Registering rep u" for rep u
    using inv i that by (auto simp: tunnel_inv_def held_uuids_def bound_to_def members_def)
  ultimately show ?thesis
    using advance_registry [of env new_v4 i s] member_step.join [of "members s"] member_step.part [of "members s"]
    by (auto simp: members_def registry_remove_def registry_upsert_def entry_of_def)
qed

lemma tunnel_step_members:
  assumes inv: "tunnel_inv env s" and step: "tunnel_step env s t"
  shows "members t = members s \<or> member_step (members s) (members t)"
  using step
proof cases
  case (step_advance i new_v4)
  then show ?thesis using advance_members [OF inv] by blast
next
  case (step_receive i cmd)
  then show ?thesis by (cases cmd) (simp_all add: members_def goto_def report_update_def split: option.splits)
qed (auto intro!: members_same simp: spawn_channel_def insert_handle_def serve_request_def heartbeat_def serve_cmd_def write_cmd_def goto_def
    do_data_channel_handshake_def request_channel_def queue_visitor_def split: option.splits list.splits nat.splits if_splits)

interpretation membership: refinement_map "\<lambda>s. hm_wf b \<and> tunnel_init b s" "tunnel_step env" "tunnel_inv env" members
    "\<lambda>m. mb_owner m = hm_get b \<and> mb_present m = {}" member_step for b env
proof
  show "hm_wf b \<and> tunnel_init b s \<Longrightarrow> mb_owner (members s) = hm_get b \<and> mb_present (members s) = {}" for s
    by (simp add: members_def tunnel_init_def)
qed (rule tunnel_step_members)

section \<open>Leases\<close>

text \<open>A port of the pool is leased to a client's local port or free; leases are granted on free ports only, and withdrawn.\<close>

inductive lease_step :: "u16 set \<Rightarrow> (u16 \<rightharpoonup> bytes \<times> u16) \<Rightarrow> (u16 \<rightharpoonup> bytes \<times> u16) \<Rightarrow> bool" for ports where
  grant: "dom g \<subseteq> ports - dom m \<Longrightarrow> lease_step ports m (m ++ g)"
| withdraw: "lease_step ports m (m |` (- ps))"

definition leases :: "'l port_pool \<Rightarrow> u16 \<rightharpoonup> bytes \<times> u16" where
  "leases pl = hm_get (assignments pl)"

lemma dom_leases: "dom (leases pl) = assigned pl"
  by (simp add: leases_def assigned_def dom_map_of_conv_image_fst)

lemma assign_leases:
  assumes inv: "pool_inv pl" and run: "assign dig lps pl = Some (Inr (pl', m))"
  shows "lease_step (pool_ports pl) (leases pl) (leases pl')"
proof -
  let ?g = "\<lambda>q. map_option (Pair dig) (hm_get (zip (free pl) lps) q)"
  have le: "length lps \<le> length (free pl)" using run by (auto simp: assign_def split: if_splits)
  have "assign_loop dig lps pl [] = Some (pl', m)" using run le by (simp add: assign_def)
  with assign_loop_spec [OF inv le, of dig "[]"] have
    "\<And>q lp. hm_get (zip (free pl) lps) q = Some lp \<Longrightarrow> hm_get (assignments pl') q = Some (dig, lp)"
    "\<And>q. hm_get (zip (free pl) lps) q = None \<Longrightarrow> hm_get (assignments pl') q = hm_get (assignments pl) q" by auto
  then have "leases pl' = leases pl ++ ?g"
    by (auto simp: leases_def map_add_def fun_eq_iff split: option.splits)
  moreover have "dom ?g \<subseteq> set (free pl)"
    by (auto dest!: map_of_SomeD set_zip_leftD)
  then have "dom ?g \<subseteq> pool_ports pl - dom (leases pl)"
    using inv by (auto simp: dom_leases pool_inv_def)
  ultimately show ?thesis by (simp add: lease_step.grant)
qed

lemma reserve_leases:
  assumes "pool_inv pl" "reserve_one pl = Some (p, pl')"
  shows "lease_step (pool_ports pl) (leases pl) (leases pl')"
proof -
  have "leases pl' = leases pl ++ [p \<mapsto> ([], 0)]"
    using assms(2) by (auto simp: reserve_one_def leases_def hm_get_insert fun_eq_iff split: list.splits)
  moreover have "p \<in> pool_ports pl - dom (leases pl)"
    using assms reserve_one_avail [OF assms] by (auto simp: dom_leases pool_inv_def)
  ultimately show ?thesis using lease_step.grant [of "[p \<mapsto> ([], 0)]" "pool_ports pl" "leases pl"] by simp
qed

lemma release_leases:
  assumes "pool_inv pl" "set ps \<subseteq> pool_ports pl"
  shows "leases (fold release_one ps pl) = leases pl |` (- set ps)"
  using fold_release_one [OF assms] by (auto simp: leases_def restrict_map_def fun_eq_iff)

lemma pool_step_leases:
  assumes inv: "pool_inv pl" and step: "pool_step pl pl'"
  shows "leases pl' = leases pl \<or> lease_step (pool_ports pl) (leases pl) (leases pl')"
  using step
proof cases
  case (step_assign dig lps m)
  then show ?thesis using assign_leases [OF inv] by blast
next
  case (step_reserve p)
  then show ?thesis using reserve_leases [OF inv] by blast
next
  case (step_release_client dig)
  then show ?thesis
    using release_leases [OF inv client_ports_subset [OF inv, of dig]] lease_step.withdraw
    by (simp add: release_client_def client_ports_def)
next
  case (step_release_port p)
  have "leases (release_by_port p pl) = leases pl |` (- {p})" if "hm_get (assignments pl) p \<noteq> None"
    using that by (auto simp: release_by_port_def leases_def assignments_release_one hm_get_remove restrict_map_def fun_eq_iff)
  then show ?thesis
    using step_release_port lease_step.withdraw by (cases "hm_get (assignments pl) p") (auto simp: release_by_port_def)
qed

interpretation leasing: refinement_map "pool_over P" pool_step "pool_over P" leases "\<lambda>m. dom m \<subseteq> P" "lease_step P" for P
proof
  fix s t :: "'l port_pool"
  show "pool_over P s \<Longrightarrow> dom (leases s) \<subseteq> P"
    using assigned_subset [of s] by (auto simp: pool_over_def dom_leases)
  show "pool_over P s \<Longrightarrow> pool_step s t \<Longrightarrow> leases t = leases s \<or> lease_step P (leases s) (leases t)"
    using pool_step_leases by (auto simp: pool_over_def)
qed

section \<open>Properties\<close>

text \<open>
  C12. The tunnel server implements a membership service. However its tasks interleave, from the start on, what it knows of identities and of registered clients changes only by
  issuing an identity that has no owner, by a client joining under an identity that has one, and by a client parting; so owners never change and
  every registered client has an identity with an owner.
\<close>

theorem tunnel_refines_membership:
  assumes "hm_wf b" "tunnel_init b s" "(tunnel_step env)\<^sup>*\<^sup>* s t"
  shows "member_step\<^sup>*\<^sup>* \<lparr>mb_owner = hm_get b, mb_present = {}\<rparr> (members t)
    \<and> hm_get b \<subseteq>\<^sub>m hm_get (tn_bindings t) \<and> hm_keys (tn_registry t) \<subseteq> hm_keys (tn_bindings t)"
proof -
  have inv: "tunnel_inv env s" using tunnel.inv_init assms(1,2) by blast
  have start: "members s = \<lparr>mb_owner = hm_get b, mb_present = {}\<rparr>"
    using assms(2) by (simp add: members_def tunnel_init_def)
  note run = membership.steps_abs [OF assms(3) inv, unfolded start]
  from member_steps_owner [OF run] member_steps_present [OF run] run show ?thesis
    by (auto simp: members_def dom_map_of_conv_image_fst)
qed


section \<open>Sample runs\<close>

theorem tunnel_refines_membership_witness:
  "member_step\<^sup>*\<^sup>* \<lparr>mb_owner = Map.empty, mb_present = {}\<rparr>
     (members (connect sample_env ''v'' [1] [5] [5] (sample_report (Some ''u'')) (server_from [])))"
proof -
  have "(tunnel_step sample_env)\<^sup>*\<^sup>* (server_from []) (connect sample_env ''v'' [1] [5] [5] (sample_report (Some ''u'')) (server_from []))"
    by (rule connect_steps) (simp add: server_from_def)
  from tunnel_refines_membership [OF _ sample_init this] show ?thesis by simp
qed


end
