(* ===== verification/Config.thy ===== *)
theory Config
  imports Kdct_Prelude
begin

text \<open>
  The configuration of both programs, \<^verbatim>\<open>crates/tunnel/src/config.rs\<close>, and the choice between
  server and client mode, \<^verbatim>\<open>crates/tunnel/src/lib.rs\<close>. The TOML parser is a parameter; the
  defaults it fills in for absent keys are the \<open>default_\<close> constants below.
\<close>

section \<open>Defaults\<close>

definition DEFAULT_HEARTBEAT_INTERVAL_SECS :: u64 where "DEFAULT_HEARTBEAT_INTERVAL_SECS = 30"
definition DEFAULT_HEARTBEAT_TIMEOUT_SECS :: u64 where "DEFAULT_HEARTBEAT_TIMEOUT_SECS = 40"
definition DEFAULT_CLIENT_RETRY_INTERVAL_SECS :: u64 where "DEFAULT_CLIENT_RETRY_INTERVAL_SECS = 1"
definition default_image_cache_ttl :: u64 where "default_image_cache_ttl = 300"
definition default_nodelay :: bool where "default_nodelay = True"
definition default_keepalive_secs :: u64 where "default_keepalive_secs = 20"
definition default_keepalive_interval :: u64 where "default_keepalive_interval = 8"
definition default_port_pool :: string where "default_port_pool = ''9000-9999''"
definition default_http_port :: u16 where "default_http_port = 80"
definition default_https_port :: u16 where "default_https_port = 443"
definition default_api_port :: u16 where "default_api_port = 9933"

section \<open>Data\<close>

text \<open>A string whose \<^verbatim>\<open>Debug\<close> output hides it.\<close>

datatype masked_string = MaskedString string

fun masked_debug :: "masked_string \<Rightarrow> string" where
  "masked_debug (MaskedString _) = ''MASKED''"

fun masked_deref :: "masked_string \<Rightarrow> string" where
  "masked_deref (MaskedString s) = s"

datatype transport_type = TcpTransport

datatype service_type = ServiceTcp | ServiceUdp

record client_service_config =
  cs_service_type :: service_type
  cs_name :: string
  cs_local_addr :: "string option"
  cs_prefer_ipv6 :: bool
  cs_token :: "masked_string option"
  cs_nodelay :: "bool option"
  cs_retry_interval :: "u64 option"
  cs_port_range_start :: u16
  cs_port_range_end :: u16
  cs_image_cache_ttl_seconds :: u64

definition client_service_default :: client_service_config where
  "client_service_default =
     \<lparr>cs_service_type = ServiceTcp, cs_name = [], cs_local_addr = None, cs_prefer_ipv6 = False,
      cs_token = None, cs_nodelay = None, cs_retry_interval = None, cs_port_range_start = 0,
      cs_port_range_end = 0, cs_image_cache_ttl_seconds = 300\<rparr>"

definition client_service_with_name :: "string \<Rightarrow> client_service_config" where
  "client_service_with_name name = client_service_default\<lparr>cs_name := name\<rparr>"

definition port_range :: "client_service_config \<Rightarrow> u16 \<times> u16" where
  "port_range c = (cs_port_range_start c, cs_port_range_end c)"

record server_service_config =
  ss_service_type :: service_type
  ss_name :: string
  ss_bind_addr :: string
  ss_token :: "masked_string option"
  ss_nodelay :: "bool option"

definition server_service_with_name :: "string \<Rightarrow> server_service_config" where
  "server_service_with_name name =
     \<lparr>ss_service_type = ServiceTcp, ss_name = name, ss_bind_addr = [], ss_token = None, ss_nodelay = None\<rparr>"

record tcp_config =
  tc_nodelay :: bool
  tc_keepalive_secs :: u64
  tc_keepalive_interval :: u64
  tc_proxy :: "string option"

definition tcp_config_default :: tcp_config where
  "tcp_config_default =
     \<lparr>tc_nodelay = default_nodelay, tc_keepalive_secs = default_keepalive_secs,
      tc_keepalive_interval = default_keepalive_interval, tc_proxy = None\<rparr>"

record transport_config =
  tr_transport_type :: transport_type
  tr_tcp :: tcp_config

record client_config =
  cc_remote_addr :: string
  cc_default_token :: masked_string
  cc_prefer_ipv6 :: "bool option"
  cc_services :: "(string, client_service_config) hmap"
  cc_heartbeat_timeout :: u64
  cc_retry_interval :: u64

record acme_config =
  ac_enabled :: bool
  ac_email :: "string option"
  ac_directory_url :: "string option"
  ac_staging :: bool
  ac_state_dir :: "string option"

definition acme_config_default :: acme_config where
  "acme_config_default =
     \<lparr>ac_enabled = False, ac_email = None, ac_directory_url = None, ac_staging = False, ac_state_dir = None\<rparr>"

record server_config =
  sc_bind_addr :: string
  sc_default_token :: masked_string
  sc_services :: "(string, server_service_config) hmap"
  sc_transport :: transport_config
  sc_heartbeat_interval :: u64
  sc_port_pool :: string
  sc_domain :: "string option"
  sc_http_port :: u16
  sc_https_port :: u16
  sc_api_port :: u16
  sc_tls_cert_path :: "string option"
  sc_tls_key_path :: "string option"
  sc_admin_user :: "string option"
  sc_admin_password :: "string option"
  sc_acme :: "acme_config option"

record config =
  cf_server :: "server_config option"
  cf_client :: "client_config option"

datatype config_error = ReadFailed | ParseFailed | NeitherSection

section \<open>Validation\<close>

text \<open>The loop bodies; a loop over \<^verbatim>\<open>&mut\<close> values of a hash map changes each value in place.\<close>

definition validate_server_service :: "masked_string \<Rightarrow> string \<Rightarrow> server_service_config \<Rightarrow> server_service_config" where
  "validate_server_service default_token name s =
     (let s = s\<lparr>ss_name := name\<rparr> in
      if ss_token s = None then s\<lparr>ss_token := Some default_token\<rparr> else s)"

definition validate_client_service ::
  "masked_string \<Rightarrow> u64 \<Rightarrow> string \<Rightarrow> client_service_config \<Rightarrow> client_service_config" where
  "validate_client_service default_token retry_interval name s =
     (let s = s\<lparr>cs_name := name\<rparr>;
          s = (if cs_token s = None then s\<lparr>cs_token := Some default_token\<rparr> else s) in
      if cs_retry_interval s = None then s\<lparr>cs_retry_interval := Some retry_interval\<rparr> else s)"

definition validate_server_config :: "server_config \<Rightarrow> server_config" where
  "validate_server_config c =
     c\<lparr>sc_services := map (\<lambda>(name, s). (name, validate_server_service (sc_default_token c) name s)) (sc_services c)\<rparr>"

definition validate_client_config :: "client_config \<Rightarrow> client_config" where
  "validate_client_config c =
     c\<lparr>cc_services := map (\<lambda>(name, s). (name, validate_client_service (cc_default_token c) (cc_retry_interval c) name s))
         (cc_services c)\<rparr>"

definition config_from_str :: "(string \<Rightarrow> config option) \<Rightarrow> string \<Rightarrow> config_error + config" where
  "config_from_str toml s =
     (case toml s of
        None \<Rightarrow> Inl ParseFailed
      | Some c \<Rightarrow>
          (let c = c\<lparr>cf_server := map_option validate_server_config (cf_server c)\<rparr>;
               c = c\<lparr>cf_client := map_option validate_client_config (cf_client c)\<rparr> in
           if cf_server c = None \<and> cf_client c = None then Inl NeitherSection else Inr c))"

definition config_from_file ::
  "(string \<Rightarrow> string option) \<Rightarrow> (string \<Rightarrow> config option) \<Rightarrow> string \<Rightarrow> config_error + config" where
  "config_from_file read_file toml path =
     (case read_file path of None \<Rightarrow> Inl ReadFailed | Some s \<Rightarrow> config_from_str toml s)"

section \<open>Run mode\<close>

record cli =
  cli_config_path :: "string option"
  cli_server :: bool
  cli_client :: bool

datatype run_mode = ModeServer | ModeClient | Undetermine

definition determine_run_mode :: "config \<Rightarrow> cli \<Rightarrow> run_mode" where
  "determine_run_mode config args =
     (if cli_client args \<and> cli_server args then Undetermine
      else if cli_client args then ModeClient
      else if cli_server args then ModeServer
      else if cf_client config \<noteq> None \<and> cf_server config = None then ModeClient
      else if cf_server config \<noteq> None \<and> cf_client config = None then ModeServer
      else Undetermine)"

lemmas [kdct_simps] = DEFAULT_HEARTBEAT_INTERVAL_SECS_def DEFAULT_HEARTBEAT_TIMEOUT_SECS_def
  DEFAULT_CLIENT_RETRY_INTERVAL_SECS_def default_image_cache_ttl_def default_nodelay_def
  default_keepalive_secs_def default_keepalive_interval_def default_port_pool_def default_http_port_def
  default_https_port_def default_api_port_def client_service_default_def client_service_with_name_def
  port_range_def server_service_with_name_def tcp_config_default_def acme_config_default_def
  validate_server_service_def validate_client_service_def validate_server_config_def
  validate_client_config_def config_from_str_def config_from_file_def determine_run_mode_def

section \<open>What a loaded configuration satisfies\<close>

definition server_ready :: "server_config \<Rightarrow> bool" where
  "server_ready c \<longleftrightarrow> (\<forall>(name, s) \<in> set (sc_services c). ss_name s = name \<and> ss_token s \<noteq> None)"

definition client_ready :: "client_config \<Rightarrow> bool" where
  "client_ready c \<longleftrightarrow> (\<forall>(name, s) \<in> set (cc_services c).
     cs_name s = name \<and> cs_token s \<noteq> None \<and> cs_retry_interval s \<noteq> None)"

lemma hm_get_map_values: "hm_get (map (\<lambda>(k, v). (k, f k v)) m) k = map_option (f k) (hm_get m k)"
  by (induction m) auto

lemma validate_server_ready: "server_ready (validate_server_config c)"
  by (auto simp: server_ready_def validate_server_config_def validate_server_service_def Let_def)

lemma validate_client_ready: "client_ready (validate_client_config c)"
  by (auto simp: client_ready_def validate_client_config_def validate_client_service_def Let_def)

lemma validate_server_service_eq:
  "validate_server_service t name s =
     s\<lparr>ss_name := name, ss_token := Some (case ss_token s of None \<Rightarrow> t | Some u \<Rightarrow> u)\<rparr>"
  by (cases s) (auto simp: validate_server_service_def Let_def split: option.splits)

lemma validate_client_service_eq:
  "validate_client_service t i name s =
     s\<lparr>cs_name := name, cs_token := Some (case cs_token s of None \<Rightarrow> t | Some u \<Rightarrow> u),
       cs_retry_interval := Some (case cs_retry_interval s of None \<Rightarrow> i | Some u \<Rightarrow> u)\<rparr>"
  by (cases s) (auto simp: validate_client_service_def Let_def split: option.splits)

lemma validate_idem:
  "validate_server_config (validate_server_config x) = validate_server_config x"
  "validate_client_config (validate_client_config y) = validate_client_config y"
  by (simp_all add: validate_server_config_def validate_client_config_def validate_server_service_eq
      validate_client_service_eq comp_def case_prod_unfold)

lemma validated_services:
  "hm_get (sc_services (validate_server_config c)) name =
     map_option (validate_server_service (sc_default_token c) name) (hm_get (sc_services c) name)"
  "hm_get (cc_services (validate_client_config d)) name =
     map_option (validate_client_service (cc_default_token d) (cc_retry_interval d) name) (hm_get (cc_services d) name)"
  by (simp_all add: validate_server_config_def validate_client_config_def hm_get_map_values)

text \<open>
  C40. A loaded configuration is complete: if loading succeeds, some section is present, every service
  knows its own name and has a token, every client service has a retry interval; a
  service's own token and interval are kept, missing ones are the section's defaults, and loading
  a validated section again changes nothing.
\<close>

theorem loaded_config_complete:
  assumes "config_from_file read_file toml path = Inr c"
  shows "(cf_server c \<noteq> None \<or> cf_client c \<noteq> None) \<and>
    (\<forall>sc. cf_server c = Some sc \<longrightarrow> server_ready sc \<and> validate_server_config sc = sc) \<and>
    (\<forall>cc. cf_client c = Some cc \<longrightarrow> client_ready cc \<and> validate_client_config cc = cc) \<and>
    (\<exists>src raw. read_file path = Some src \<and> toml src = Some raw \<and>
       (\<forall>sc name s. cf_server raw = Some sc \<longrightarrow> hm_get (sc_services sc) name = Some s \<longrightarrow>
          (\<exists>sc'. cf_server c = Some sc' \<and> hm_get (sc_services sc') name =
             Some (s\<lparr>ss_name := name, ss_token := Some (case ss_token s of None \<Rightarrow> sc_default_token sc | Some t \<Rightarrow> t)\<rparr>))) \<and>
       (\<forall>cc name s. cf_client raw = Some cc \<longrightarrow> hm_get (cc_services cc) name = Some s \<longrightarrow>
          (\<exists>cc'. cf_client c = Some cc' \<and> hm_get (cc_services cc') name =
             Some (s\<lparr>cs_name := name, cs_token := Some (case cs_token s of None \<Rightarrow> cc_default_token cc | Some t \<Rightarrow> t),
                     cs_retry_interval := Some (case cs_retry_interval s of None \<Rightarrow> cc_retry_interval cc | Some t \<Rightarrow> t)\<rparr>))))"
proof -
  obtain src raw where r: "read_file path = Some src" "toml src = Some raw"
      "cf_server c = map_option validate_server_config (cf_server raw)"
      "cf_client c = map_option validate_client_config (cf_client raw)" "cf_server c \<noteq> None \<or> cf_client c \<noteq> None"
    using assms by (auto simp: config_from_file_def config_from_str_def Let_def split: option.splits if_splits)
  show ?thesis
    using r by (auto simp: validate_idem validate_server_ready validate_client_ready validated_services
        validate_server_service_eq validate_client_service_eq)
qed

theorem loaded_config_complete_witness:
  "\<exists>c cc. config_from_file (\<lambda>_. Some ''x'')
      (\<lambda>_. Some \<lparr>cf_server = None, cf_client = Some \<lparr>cc_remote_addr = ''h:2333'', cc_default_token = MaskedString ''t'',
         cc_prefer_ipv6 = None, cc_services = [(''web'', client_service_default)], cc_heartbeat_timeout = 40,
         cc_retry_interval = 1\<rparr>\<rparr>) ''client.toml'' = Inr c \<and> cf_client c = Some cc \<and> client_ready cc"
proof -
  let ?cc = "\<lparr>cc_remote_addr = ''h:2333'', cc_default_token = MaskedString ''t'',
         cc_prefer_ipv6 = None, cc_services = [(''web'', client_service_default)], cc_heartbeat_timeout = 40,
         cc_retry_interval = 1\<rparr> :: client_config"
  let ?raw = "\<lparr>cf_server = None, cf_client = Some ?cc\<rparr> :: config"
  have l: "config_from_file (\<lambda>_. Some ''x'') (\<lambda>_. Some ?raw) ''client.toml'' =
      Inr \<lparr>cf_server = None, cf_client = Some (validate_client_config ?cc)\<rparr>"
    by (simp add: config_from_file_def config_from_str_def)
  from loaded_config_complete [OF l] l show ?thesis by simp
qed

text \<open>
  The mode is decided by the flags when exactly one is given, else by which one section is present.
\<close>

lemma determine_run_mode_iff:
  "determine_run_mode c args = ModeServer \<longleftrightarrow> \<not> cli_client args \<and>
     (cli_server args \<or> cf_server c \<noteq> None \<and> cf_client c = None)"
  "determine_run_mode c args = ModeClient \<longleftrightarrow> \<not> cli_server args \<and>
     (cli_client args \<or> cf_client c \<noteq> None \<and> cf_server c = None)"
  by (auto simp: determine_run_mode_def)

end
