(* ===== verification/Client_Host.thy ===== *)
theory Client_Host
  imports Config Protocol
begin

text \<open>
  What the client does on its own machine, \<^verbatim>\<open>crates/tunnel/src/client.rs\<close>: the persisted node
  identity, the cache of pulled images, the status it reports, and its use of the \<^verbatim>\<open>docker\<close> and \<^verbatim>\<open>git\<close>
  commands. The machine (processes and files) is the parameter \<open>h\<close>; a process runs to
  completion and yields whether it succeeded, its output and its error output, or cannot be started. Text is the byte
  string of its UTF-8 encoding.
\<close>

section \<open>The machine\<close>

type_synonym exec_result = "(bool \<times> string \<times> string) option"

record 'w host =
  h_exec :: "string \<Rightarrow> string list \<Rightarrow> string option \<Rightarrow> 'w \<Rightarrow> 'w \<times> exec_result"
  h_read :: "string \<Rightarrow> 'w \<Rightarrow> string option"
  h_write :: "string \<Rightarrow> string \<Rightarrow> 'w \<Rightarrow> 'w \<times> bool"
  h_create_dir_all :: "string \<Rightarrow> 'w \<Rightarrow> 'w \<times> bool"
  h_exists :: "string \<Rightarrow> 'w \<Rightarrow> bool"
  h_remove_dir_all :: "string \<Rightarrow> 'w \<Rightarrow> 'w"
  h_HOME :: "string option"
  h_USERPROFILE :: "string option"
  h_temp_dir :: string
  h_OS :: string
  h_ARCH :: string
  h_parallelism :: "nat option"

section \<open>The node identity\<close>

definition identity_path :: "'w host \<Rightarrow> string + string" where
  "identity_path h =
     (case (case h_HOME h of Some v \<Rightarrow> Some v | None \<Rightarrow> h_USERPROFILE h) of
        None \<Rightarrow> Inl ''neither HOME nor USERPROFILE is set; cannot locate ~/.kdct/node_id''
      | Some home \<Rightarrow>
          if home = [] then Inl ''HOME/USERPROFILE is empty; cannot locate ~/.kdct/node_id''
          else Inr (path_join (path_join home ''.kdct'') ''node_id''))"

definition identity_load :: "'w host \<Rightarrow> 'w \<Rightarrow> string option" where
  "identity_load h w =
     (case identity_path h of
        Inl _ \<Rightarrow> None
      | Inr p \<Rightarrow>
          Option.bind (h_read h p w) (\<lambda>raw. let s = trim raw in if s = [] then None else Some s))"

text \<open>The parent of the identity file; \<^verbatim>\<open>Path::parent\<close> drops the last component.\<close>

definition identity_parent :: "'w host \<Rightarrow> string" where
  "identity_parent h =
     path_join (case (case h_HOME h of Some v \<Rightarrow> Some v | None \<Rightarrow> h_USERPROFILE h) of None \<Rightarrow> [] | Some v \<Rightarrow> v) ''.kdct''"

definition identity_save :: "'w host \<Rightarrow> string \<Rightarrow> 'w \<Rightarrow> 'w \<times> (string + unit)" where
  "identity_save h uuid w =
     (case identity_path h of
        Inl e \<Rightarrow> (w, Inl e)
      | Inr p \<Rightarrow>
          (case h_create_dir_all h (identity_parent h) w of
             (w, False) \<Rightarrow> (w, Inl (''Failed to create '' @ identity_parent h))
           | (w, True) \<Rightarrow>
               (case h_write h p uuid w of
                  (w, False) \<Rightarrow> (w, Inl (''Failed to persist node_id at '' @ p))
                | (w, True) \<Rightarrow> (w, Inr ()))))"

section \<open>The image cache\<close>

type_synonym image_cache = "(string, int) hmap"

definition cache_dir :: "'w host \<Rightarrow> string" where
  "cache_dir h =
     path_join (case (case h_HOME h of Some v \<Rightarrow> Some v | None \<Rightarrow> h_USERPROFILE h) of None \<Rightarrow> ''/tmp'' | Some v \<Rightarrow> v) ''.kdct''"

definition cache_path :: "'w host \<Rightarrow> string" where
  "cache_path h = path_join (cache_dir h) ''image_cache.txt''"

definition cache_entry :: "string \<Rightarrow> (string \<times> int) option" where
  "cache_entry line =
     (case splitn2 (CHR ''|'') line of
        (img, Some ts) \<Rightarrow> map_option (Pair img) (parse_i64 ts)
      | (img, None) \<Rightarrow> None)"

definition cache_parse :: "string \<Rightarrow> image_cache" where
  "cache_parse content = fold (\<lambda>(k, v). hm_insert k v) (List.map_filter cache_entry (str_lines content)) []"

definition cache_render :: "image_cache \<Rightarrow> string" where
  "cache_render es = join_with [CHR 0x0A] (map (\<lambda>(k, v). k @ ''|'' @ show_int v) es)"

definition cache_load :: "'w host \<Rightarrow> 'w \<Rightarrow> image_cache" where
  "cache_load h w = (case h_read h (cache_path h) w of Some content \<Rightarrow> cache_parse content | None \<Rightarrow> [])"

definition cache_save :: "'w host \<Rightarrow> image_cache \<Rightarrow> 'w \<Rightarrow> 'w" where
  "cache_save h es w = fst (h_write h (cache_path h) (cache_render es) (fst (h_create_dir_all h (cache_dir h) w)))"

definition cache_record :: "'w host \<Rightarrow> int \<Rightarrow> string \<Rightarrow> image_cache \<Rightarrow> 'w \<Rightarrow> image_cache \<times> 'w" where
  "cache_record h now img es w = (let es = hm_insert img now es in (es, cache_save h es w))"

definition cache_clear_expired :: "'w host \<Rightarrow> int \<Rightarrow> image_cache \<Rightarrow> 'w \<Rightarrow> image_cache \<times> 'w" where
  "cache_clear_expired h ttl_secs es w = ([], cache_save h [] w)"

definition image_cache_record :: "'w host \<Rightarrow> int \<Rightarrow> string \<Rightarrow> 'w \<Rightarrow> 'w" where
  "image_cache_record h now img w = snd (cache_record h now img (cache_load h w) w)"

section \<open>Docker\<close>

definition docker :: "'w host \<Rightarrow> string list \<Rightarrow> 'w \<Rightarrow> 'w \<times> exec_result" where
  "docker h args = h_exec h ''docker'' args None"

text \<open>A command of which only the exit status matters; both failures carry the same text.\<close>

definition status_ok :: "string \<Rightarrow> 'w \<times> exec_result \<Rightarrow> 'w \<times> (string + unit)" where
  "status_ok msg r = (case r of (w, Some (True, _)) \<Rightarrow> (w, Inr ()) | (w, _) \<Rightarrow> (w, Inl msg))"

definition docker_pull :: "'w host \<Rightarrow> string \<Rightarrow> 'w \<Rightarrow> 'w \<times> (string + unit)" where
  "docker_pull h img w = status_ok (''docker pull failed for '' @ img) (docker h [''pull'', img] w)"

definition build_dir :: "'w host \<Rightarrow> string \<Rightarrow> string" where
  "build_dir h tag =
     path_join (h_temp_dir h) (''kdct-build-'' @ replace_chars [CHR ''/'', CHR '':'', CHR ''@'', CHR 0x5C] ''_'' tag)"

definition docker_build_from_git :: "'w host \<Rightarrow> string \<Rightarrow> string \<Rightarrow> string \<Rightarrow> 'w \<Rightarrow> 'w \<times> (string + unit)" where
  "docker_build_from_git h git_url branch tag w =
     (let dir = build_dir h tag;
          w = (if h_exists h dir w then h_remove_dir_all h dir w else w) in
      case status_ok (''git clone failed for '' @ git_url)
             (h_exec h ''git'' [''clone'', ''--depth'', ''1'', ''--branch'', branch, git_url, dir] None w) of
        (w, Inl e) \<Rightarrow> (w, Inl e)
      | (w, Inr _) \<Rightarrow>
          (case h_exec h ''docker'' [''build'', ''-t'', tag, ''.''] (Some dir) w of
             (w, None) \<Rightarrow> (w, Inl (''docker build failed for '' @ tag))
           | (w, Some r) \<Rightarrow> status_ok (''docker build failed for '' @ tag) (h_remove_dir_all h dir w, Some r)))"

definition docker_image_exists :: "'w host \<Rightarrow> string \<Rightarrow> 'w \<Rightarrow> 'w \<times> bool" where
  "docker_image_exists h img w =
     (case docker h [''images'', ''-q'', img] w of
        (w, Some (_, out, _)) \<Rightarrow> (w, trim out \<noteq> [])
      | (w, None) \<Rightarrow> (w, False))"

definition docker_container_exists :: "'w host \<Rightarrow> string \<Rightarrow> 'w \<Rightarrow> 'w \<times> bool" where
  "docker_container_exists h name w =
     (case docker h [''ps'', ''-a'', ''-q'', ''-f'', ''name=^'' @ name @ ''$''] w of
        (w, Some (_, out, _)) \<Rightarrow> (w, trim out \<noteq> [])
      | (w, None) \<Rightarrow> (w, False))"

definition docker_run_args ::
  "string \<Rightarrow> string \<Rightarrow> (u16 \<times> u16) list \<Rightarrow> (string \<times> string) list \<Rightarrow> string list" where
  "docker_run_args tag name port_map env =
     [''run'', ''-d'', ''--name'', name]
     @ concat (map (\<lambda>(hp, cp). [''-p'', show_nat (unat hp) @ '':'' @ show_nat (unat cp)]) port_map)
     @ concat (map (\<lambda>(k, v). [''-e'', k @ ''='' @ v]) env)
     @ [tag]"

definition docker_run ::
  "'w host \<Rightarrow> string \<Rightarrow> string \<Rightarrow> (u16 \<times> u16) list \<Rightarrow> (string \<times> string) list \<Rightarrow> 'w \<Rightarrow> 'w \<times> (string + u16 list)" where
  "docker_run h tag name port_map env w =
     (case docker h (docker_run_args tag name port_map env) w of
        (w, None) \<Rightarrow> (w, Inl (''docker run failed for '' @ name))
      | (w, Some (True, _, _)) \<Rightarrow> (w, Inr (map fst port_map))
      | (w, Some (False, _, err)) \<Rightarrow> (w, Inl (''docker run failed: '' @ err)))"

definition docker_stop :: "'w host \<Rightarrow> string \<Rightarrow> 'w \<Rightarrow> 'w \<times> (string + unit)" where
  "docker_stop h name w =
     (case status_ok (''docker stop failed for '' @ name) (docker h [''stop'', name] w) of
        (w, Inl e) \<Rightarrow> (w, Inl e)
      | (w, Inr _) \<Rightarrow> (fst (docker h [''rm'', name] w), Inr ()))"

definition docker_rmi :: "'w host \<Rightarrow> string \<Rightarrow> 'w \<Rightarrow> 'w \<times> (string + unit)" where
  "docker_rmi h img w = status_ok (''docker rmi failed for '' @ img) (docker h [''rmi'', img] w)"

definition image_start :: "'w host \<Rightarrow> int \<Rightarrow> image_start \<Rightarrow> 'w \<Rightarrow> 'w \<times> (string + u16 list)" where
  "image_start h now c w =
     (case docker_container_exists h (is_container_name c) w of (w, exists) \<Rightarrow>
        let w = (if exists then fst (docker h [''rm'', ''-f'', is_container_name c]
                                  (fst (docker h [''stop'', is_container_name c] w))) else w) in
        case docker_image_exists h (is_image_tag c) w of
          (w, True) \<Rightarrow> docker_run h (is_image_tag c) (is_container_name c) (is_port_map c) (is_env c) w
        | (w, False) \<Rightarrow>
            (case (if is_source_type c = ''git'' then docker_build_from_git h (is_source c) ''main'' (is_image_tag c) w
                   else docker_pull h (is_source c) w) of
               (w, Inl e) \<Rightarrow> (w, Inl e)
             | (w, Inr _) \<Rightarrow>
                 docker_run h (is_image_tag c) (is_container_name c) (is_port_map c) (is_env c)
                   (image_cache_record h now (is_image_tag c) w)))"

section \<open>The status of the machine\<close>

definition get_hostname :: "'w host \<Rightarrow> 'w \<Rightarrow> 'w \<times> string" where
  "get_hostname h w =
     (case h_exec h ''hostname'' [] None w of
        (w, Some (_, out, _)) \<Rightarrow> (w, trim out) | (w, None) \<Rightarrow> (w, ''unknown''))"

definition get_docker_version :: "'w host \<Rightarrow> 'w \<Rightarrow> 'w \<times> string" where
  "get_docker_version h w =
     (case docker h [''--version''] w of
        (w, Some (_, out, _)) \<Rightarrow> (w, trim out) | (w, None) \<Rightarrow> (w, ''not installed''))"

definition meminfo_mb :: "string \<Rightarrow> u64 option" where
  "meminfo_mb content =
     Option.bind (find (prefix ''MemTotal:'') (str_lines content))
       (\<lambda>l. case split_whitespace l of _ # kb # _ \<Rightarrow> map_option (\<lambda>n. n div 1024) (parse_u64 kb) | _ \<Rightarrow> None)"

definition get_memory_mb :: "'w host \<Rightarrow> 'w \<Rightarrow> u64" where
  "get_memory_mb h w =
     (case Option.bind (h_read h ''/proc/meminfo'' w) meminfo_mb of Some n \<Rightarrow> n | None \<Rightarrow> 0)"

definition published_port :: "string \<Rightarrow> u16 option" where
  "published_port p = parse_u16 (last (split_on (CHR '':'') (before_str ''->'' (trim p))))"

definition parse_ps_line :: "string \<Rightarrow> container_info option" where
  "parse_ps_line line =
     (case split_on (CHR 0x09) line of
        name # img # ports # status # _ \<Rightarrow>
          Some \<lparr>ci_container_name = name, ci_image = img,
                ci_ports = List.map_filter published_port (split_on (CHR '','') ports), ci_status = status\<rparr>
      | _ \<Rightarrow> None)"

definition ps_format :: string where
  "ps_format = ''{{.Names}}'' @ [CHR 0x09] @ ''{{.Image}}'' @ [CHR 0x09] @ ''{{.Ports}}'' @ [CHR 0x09] @ ''{{.Status}}''"

definition get_running_containers :: "'w host \<Rightarrow> 'w \<Rightarrow> 'w \<times> container_info list" where
  "get_running_containers h w =
     (case docker h [''ps'', ''--format'', ps_format] w of
        (w, Some (True, out, _)) \<Rightarrow> (w, List.map_filter parse_ps_line (str_lines out))
      | (w, _) \<Rightarrow> (w, []))"

definition gather_node_status :: "'w host \<Rightarrow> client_service_config \<Rightarrow> string option \<Rightarrow> 'w \<Rightarrow> 'w \<times> node_report" where
  "gather_node_status h service node_uuid w =
     (case get_hostname h w of (w, hostname) \<Rightarrow>
      case get_docker_version h w of (w, docker_version) \<Rightarrow>
      let memory_mb = get_memory_mb h w in
      case get_running_containers h w of (w, running) \<Rightarrow>
        (w, \<lparr>nr_node_uuid = node_uuid, nr_hostname = hostname, nr_os = h_OS h, nr_arch = h_ARCH h,
             nr_docker_version = docker_version,
             nr_port_range_start = fst (port_range service), nr_port_range_end = snd (port_range service),
             nr_cpu_cores = (case h_parallelism h of Some n \<Rightarrow> word_of_nat n | None \<Rightarrow> 1),
             nr_memory_mb = memory_mb, nr_running_containers = running\<rparr>))"

lemmas [kdct_simps] = identity_path_def identity_load_def identity_parent_def identity_save_def cache_dir_def
  cache_path_def cache_entry_def cache_parse_def cache_render_def cache_load_def cache_save_def cache_record_def
  cache_clear_expired_def image_cache_record_def docker_def status_ok_def docker_pull_def build_dir_def
  docker_build_from_git_def docker_image_exists_def docker_container_exists_def docker_run_args_def docker_run_def
  docker_stop_def docker_rmi_def image_start_def get_hostname_def get_docker_version_def meminfo_mb_def
  get_memory_mb_def published_port_def parse_ps_line_def ps_format_def get_running_containers_def gather_node_status_def


section \<open>Files\<close>

text \<open>What the client relies on: a file that was written reads back.\<close>

definition files_ok :: "'w host \<Rightarrow> bool" where
  "files_ok h \<longleftrightarrow> (\<forall>p c w w'. h_write h p c w = (w', True) \<longrightarrow> h_read h p w' = Some c)"

lemma identity_saved:
  assumes "files_ok h" "identity_save h u w = (w', Inr ())"
  shows "identity_load h w' = (if trim u = [] then None else Some (trim u))"
proof -
  obtain p w1 where p: "identity_path h = Inr p" and "h_write h p u w1 = (w', True)"
    using assms(2) by (auto simp: identity_save_def split: sum.splits prod.splits bool.splits)
  then have "h_read h p w' = Some u" using assms(1) by (auto simp: files_ok_def)
  then show ?thesis using p by (simp add: identity_load_def Let_def)
qed

lemma show_int_last: "last (show_int i) \<noteq> CHR 0x0D" "CHR 0x0A \<notin> set (show_int i)" "show_int i \<noteq> []"
proof -
  have d: "c \<in> set (show_nat n) \<Longrightarrow> c \<noteq> CHR 0x0D \<and> c \<noteq> CHR 0x0A" for c n
    using show_nat_digits [of c n] by (auto simp: digit_val_def)
  have "last (show_nat n) \<in> set (show_nat n)" for n by simp
  then have "last (show_nat n) \<noteq> CHR 0x0D" for n using d by blast
  then show "last (show_int i) \<noteq> CHR 0x0D" by (simp add: show_int_def)
  show "CHR 0x0A \<notin> set (show_int i)" "show_int i \<noteq> []" using d by (auto simp: show_int_def)
qed

lemma fold_hm_insert_fresh:
  "distinct (map fst (b @ es)) \<Longrightarrow> fold (\<lambda>(k, v). hm_insert k v) es b = b @ es"
proof (induction es arbitrary: b)
  case (Cons e es)
  obtain k v where e: "e = (k, v)" by (cases e)
  have "k \<notin> fst ` set b" using Cons.prems by (auto simp: e)
  then have "hm_insert k v b = b @ [(k, v)]" by (induction b) auto
  then show ?case using Cons.IH [of "b @ [(k, v)]"] Cons.prems by (simp add: e)
qed simp

text \<open>
  The image cache survives being written and read back, provided no image name contains the
  separator or a newline.
\<close>

theorem cache_roundtrip:
  assumes "hm_wf es" "\<forall>(k, v) \<in> set es. CHR ''|'' \<notin> set k \<and> CHR 0x0A \<notin> set k \<and> - (2 ^ 63) \<le> v \<and> v < 2 ^ 63"
  shows "cache_parse (cache_render es) = es"
proof -
  let ?line = "\<lambda>(k, v). k @ ''|'' @ show_int v"
  have "str_lines (cache_render es) = map ?line es"
    unfolding cache_render_def by (rule str_lines_join) (use assms(2) show_int_last in auto)
  moreover have "List.map_filter cache_entry (map ?line es) = es"
    using assms(2)
  proof (induction es)
    case (Cons e es)
    obtain k v where e: "e = (k, v)" by (cases e)
    have "splitn2 (CHR ''|'') (k @ ''|'' @ show_int v) = (k, Some (show_int v))"
      using Cons.prems split_once_append [of "CHR ''|''" k "show_int v"] by (simp add: e splitn2_def)
    moreover have "parse_i64 (show_int v) = Some v" using Cons.prems by (intro parse_i64_show_int) (auto simp: e)
    ultimately show ?case using Cons by (simp add: e cache_entry_def List.map_filter_simps)
  qed (simp add: List.map_filter_simps)
  ultimately show ?thesis
    using assms(1) fold_hm_insert_fresh [of "[]" es] by (simp add: cache_parse_def)
qed

section \<open>Starting a container\<close>

text \<open>The same machine, with a log of the commands that were run.\<close>

definition logged :: "'w host \<Rightarrow> ('w \<times> (string \<times> string list) list) host" where
  "logged h =
     \<lparr>h_exec = (\<lambda>prog args cwd (w, l). case h_exec h prog args cwd w of (w, r) \<Rightarrow> ((w, l @ [(prog, args)]), r)),
      h_read = (\<lambda>p (w, l). h_read h p w),
      h_write = (\<lambda>p c (w, l). case h_write h p c w of (w, ok) \<Rightarrow> ((w, l), ok)),
      h_create_dir_all = (\<lambda>p (w, l). case h_create_dir_all h p w of (w, ok) \<Rightarrow> ((w, l), ok)),
      h_exists = (\<lambda>p (w, l). h_exists h p w),
      h_remove_dir_all = (\<lambda>p (w, l). (h_remove_dir_all h p w, l)),
      h_HOME = h_HOME h, h_USERPROFILE = h_USERPROFILE h, h_temp_dir = h_temp_dir h, h_OS = h_OS h, h_ARCH = h_ARCH h,
      h_parallelism = h_parallelism h\<rparr>"

lemma logged_docker:
  "docker (logged h) args s = ((fst (docker h args (fst s)), snd s @ [(''docker'', args)]), snd (docker h args (fst s)))"
  by (cases s) (simp add: docker_def logged_def case_prod_beta)

lemma logged_exec:
  "h_exec (logged h) prog args cwd s =
     ((fst (h_exec h prog args cwd (fst s)), snd s @ [(prog, args)]), snd (h_exec h prog args cwd (fst s)))"
  by (cases s) (simp add: logged_def case_prod_beta)

lemma logged_record: "snd (image_cache_record (logged h) now img s) = snd s"
  by (cases s) (simp add: image_cache_record_def cache_record_def cache_save_def logged_def case_prod_beta Let_def)

lemma status_ok_fst: "fst (status_ok msg r) = fst r"
  by (cases r) (auto simp: status_ok_def split: option.splits bool.splits)

lemma logged_exists:
  "snd (fst (docker_container_exists (logged h) n s)) = snd s @ [(''docker'', [''ps'', ''-a'', ''-q'', ''-f'', ''name=^'' @ n @ ''$''])]"
  "snd (fst (docker_image_exists (logged h) img s)) = snd s @ [(''docker'', [''images'', ''-q'', img])]"
  by (auto simp: docker_container_exists_def docker_image_exists_def logged_docker split: option.splits)

lemma logged_run:
  "snd (fst (docker_run (logged h) tag n pm env s)) = snd s @ [(''docker'', docker_run_args tag n pm env)]"
  "snd (docker_run (logged h) tag n pm env s) = Inr ports \<Longrightarrow> ports = map fst pm"
  by (auto simp: docker_run_def logged_docker split: option.splits bool.splits)

definition clone_cmd :: "'w host \<Rightarrow> image_start \<Rightarrow> string \<times> string list" where
  "clone_cmd h c =
     (''git'', [''clone'', ''--depth'', ''1'', ''--branch'', ''main'', is_source c, build_dir h (is_image_tag c)])"

definition obtain_cmds :: "'w host \<Rightarrow> image_start \<Rightarrow> (string \<times> string list) list set" where
  "obtain_cmds h c =
     (if is_source_type c = ''git''
      then {[clone_cmd h c], [clone_cmd h c, (''docker'', [''build'', ''-t'', is_image_tag c, ''.''])]}
      else {[(''docker'', [''pull'', is_source c])]})"

lemma logged_fields [simp]:
  "snd (h_remove_dir_all (logged h) p s) = snd s" "build_dir (logged h) tag = build_dir h tag"
  by (cases s) (simp_all add: logged_def build_dir_def)

lemma status_ok_cases: "status_ok msg (w, x) = (w', r) \<Longrightarrow> w' = w \<and> (r = Inl msg \<or> r = Inr ())"
  by (auto simp: status_ok_def split: option.splits bool.splits)

lemma logged_obtain:
  assumes "(if is_source_type c = ''git'' then docker_build_from_git (logged h) (is_source c) ''main'' (is_image_tag c) s
            else docker_pull (logged h) (is_source c) s) = (s', r)"
  shows "\<exists>cmds \<in> obtain_cmds h c. snd s' = snd s @ cmds \<and> (r = Inr () \<longrightarrow> cmds \<noteq> [clone_cmd h c])"
proof (cases "is_source_type c = ''git''")
  case True
  let ?dir = "build_dir h (is_image_tag c)"
  define s0 where "s0 = (if h_exists (logged h) ?dir s then h_remove_dir_all (logged h) ?dir s else s)"
  have s0: "snd s0 = snd s" by (simp add: s0_def)
  obtain s1 r1 where clone: "status_ok (''git clone failed for '' @ is_source c)
      (h_exec (logged h) ''git'' [''clone'', ''--depth'', ''1'', ''--branch'', ''main'', is_source c, ?dir] None s0) = (s1, r1)"
    by fastforce
  have s1: "snd s1 = snd s @ [clone_cmd h c]"
    using status_ok_cases [OF clone [unfolded logged_exec]] s0 by (auto simp: clone_cmd_def)
  have *: "docker_build_from_git (logged h) (is_source c) ''main'' (is_image_tag c) s = (s', r)" using assms True by simp
  show ?thesis
  proof (cases r1)
    case (Inl e)
    then have "s' = s1 \<and> r = Inl e" using * clone by (simp add: docker_build_from_git_def s0_def [symmetric] Let_def)
    then show ?thesis using True s1 by (simp add: obtain_cmds_def)
  next
    case (Inr u)
    have "snd s' = snd s1 @ [(''docker'', [''build'', ''-t'', is_image_tag c, ''.''])]"
      using * clone Inr
      by (auto simp: docker_build_from_git_def s0_def [symmetric] Let_def logged_exec [of _ "''docker''"]
          split: option.splits dest!: status_ok_cases)
    then show ?thesis using True s1 by (simp add: obtain_cmds_def clone_cmd_def)
  qed
next
  case False
  then have "status_ok (''docker pull failed for '' @ is_source c) (docker (logged h) [''pull'', is_source c] s) = (s', r)"
    using assms by (simp add: docker_pull_def)
  then have "snd s' = snd s @ [(''docker'', [''pull'', is_source c])]"
    unfolding logged_docker by (auto dest!: status_ok_cases)
  then show ?thesis using False by (simp add: obtain_cmds_def clone_cmd_def)
qed

text \<open>
  What starting a container runs on the machine, in order: a look for an old container of that name, which is
  stopped and removed if there is one; a look for the image, which is built from the repository or pulled only if it is
  missing; and last, once, the run command with the requested ports and environment. When the image cannot be
  obtained nothing is run and the error is returned; on success the result is the list of host ports.
\<close>

theorem image_start_commands:
  assumes "image_start (logged h) now c (w, []) = ((w', cmds), res)"
  defines "n \<equiv> is_container_name c"
  shows "\<exists>cleanup fetch.
      (cleanup = [] \<or> cleanup = [(''docker'', [''stop'', n]), (''docker'', [''rm'', ''-f'', n])])
    \<and> (fetch = [] \<or> fetch \<in> obtain_cmds h c)
    \<and> (let before = (''docker'', [''ps'', ''-a'', ''-q'', ''-f'', ''name=^'' @ n @ ''$'']) # cleanup
                     @ (''docker'', [''images'', ''-q'', is_image_tag c]) # fetch;
           run = (''docker'', docker_run_args (is_image_tag c) n (is_port_map c) (is_env c)) in
         cmds = before @ [run] \<and> fetch \<noteq> [clone_cmd h c] \<and> (res = Inr (map fst (is_port_map c)) \<or> (\<exists>e. res = Inl e))
         \<or> cmds = before \<and> fetch \<noteq> [] \<and> (\<exists>e. res = Inl e))"
proof -
  let ?h = "logged h" let ?run = "docker_run ?h (is_image_tag c) n (is_port_map c) (is_env c)"
  define cmd1 cmd2 where "cmd1 = (''docker'', [''ps'', ''-a'', ''-q'', ''-f'', ''name=^'' @ n @ ''$''])"
    and "cmd2 = (''docker'', [''images'', ''-q'', is_image_tag c])"
  obtain s1 ex where s1: "docker_container_exists ?h n (w, []) = (s1, ex)" by fastforce
  define cleanup where "cleanup = (if ex then [(''docker'', [''stop'', n]), (''docker'', [''rm'', ''-f'', n])] else [])"
  define s2 where "s2 = (if ex then fst (docker ?h [''rm'', ''-f'', n] (fst (docker ?h [''stop'', n] s1))) else s1)"
  obtain s3 have_img where s3: "docker_image_exists ?h (is_image_tag c) s2 = (s3, have_img)" by fastforce
  have "snd s1 = [cmd1]" using logged_exists(1) [of h n "(w, [])"] s1 by (simp add: cmd1_def)
  then have "snd s2 = cmd1 # cleanup" by (simp add: s2_def cleanup_def logged_docker)
  then have l3: "snd s3 = cmd1 # cleanup @ [cmd2]"
    using logged_exists(2) [of h "is_image_tag c" s2] s3 by (simp add: cmd2_def)
  have run: "snd t = snd s @ [(''docker'', docker_run_args (is_image_tag c) n (is_port_map c) (is_env c))]
      \<and> (r = Inr (map fst (is_port_map c)) \<or> (\<exists>e. r = Inl e))" if "?run s = (t, r)" for s t r
    using that logged_run [of h "is_image_tag c" n "is_port_map c" "is_env c" s] by (cases r) auto
  have cl: "cleanup = [] \<or> cleanup = [(''docker'', [''stop'', n]), (''docker'', [''rm'', ''-f'', n])]" by (simp add: cleanup_def)
  show ?thesis
  proof (cases have_img)
    case True
    then have "?run s3 = ((w', cmds), res)"
      using assms(1) s1 s3 by (simp add: image_start_def n_def [symmetric] Let_def s2_def [symmetric] cong: if_cong)
    from run [OF this] show ?thesis
      using l3 cl by (intro exI [of _ cleanup] exI [of _ "[]"]) (simp add: cmd1_def cmd2_def)
  next
    case False
    obtain s4 r where s4: "(if is_source_type c = ''git'' then docker_build_from_git ?h (is_source c) ''main'' (is_image_tag c) s3
        else docker_pull ?h (is_source c) s3) = (s4, r)" by fastforce
    from logged_obtain [OF this] obtain fetch where f: "fetch \<in> obtain_cmds h c" "snd s4 = snd s3 @ fetch"
      "r = Inr () \<longrightarrow> fetch \<noteq> [clone_cmd h c]" by blast
    have ne: "fetch \<noteq> []" using f(1) by (auto simp: obtain_cmds_def split: if_splits)
    have img: "image_start ?h now c (w, []) =
        (case (s4, r) of (s, Inl e) \<Rightarrow> (s, Inl e) | (s, Inr _) \<Rightarrow> ?run (image_cache_record ?h now (is_image_tag c) s))"
      using False s1 s3 by (simp add: image_start_def n_def [symmetric] Let_def s2_def [symmetric] s4 cong: if_cong)
    show ?thesis
    proof (cases r)
      case (Inl e)
      then have "cmds = snd s4 \<and> res = Inl e" using assms(1) img by auto
      then show ?thesis
        using l3 cl f ne by (intro exI [of _ cleanup] exI [of _ fetch]) (simp add: cmd1_def cmd2_def)
    next
      case (Inr u)
      then have "?run (image_cache_record ?h now (is_image_tag c) s4) = ((w', cmds), res)" using assms(1) img by simp
      from run [OF this] show ?thesis
        using l3 cl f ne Inr by (intro exI [of _ cleanup] exI [of _ fetch]) (simp add: cmd1_def cmd2_def logged_record)
    qed
  qed
qed


section \<open>The container list\<close>

text \<open>A line of \<^verbatim>\<open>docker ps\<close> for a container whose ports are published on all addresses.\<close>

definition render_port :: "u16 \<times> u16 \<Rightarrow> string" where
  "render_port p = ''0.0.0.0:'' @ show_nat (unat (fst p)) @ ''->'' @ show_nat (unat (snd p)) @ ''/tcp''"

definition render_ps :: "string \<Rightarrow> string \<Rightarrow> (u16 \<times> u16) list \<Rightarrow> string \<Rightarrow> string" where
  "render_ps name img ports status =
     join_with [CHR 0x09] [name, img, join_with '', '' (map render_port ports), status]"

lemma digits_free:
  assumes "digit_val c = None"
  shows "c \<notin> set (show_nat n)"
  using show_nat_digits [of c n] assms by auto

lemma published_render:
  shows "published_port (render_port p) = Some (fst p)" "published_port ('' '' @ render_port p) = Some (fst p)"
proof -
  let ?r = "render_port p" let ?n = "show_nat (unat (fst p))"
  have free: "CHR '':'' \<notin> set ?n" "CHR ''-'' \<notin> set ?n" by (rule digits_free, simp add: digit_val_def)+
  have ends: "?r \<noteq> []" "plain_byte (hd ?r)" "plain_byte (last ?r)"
    by (simp_all add: render_port_def plain_byte_def white_space_def)
  have "before_str ''->'' ?r = ''0.0.0.0:'' @ ?n"
    using before_str_append [of "''->''" "''0.0.0.0:'' @ ?n" "show_nat (unat (snd p)) @ ''/tcp''"] free(2)
    by (simp add: render_port_def)
  moreover have "split_on (CHR '':'') (''0.0.0.0:'' @ ?n) = [''0.0.0.0'', ?n]"
    using split_on_append_sep [of "CHR '':''" "''0.0.0.0''" ?n] split_on_free [OF free(1)] by simp
  ultimately have "parse_u16 (last (split_on (CHR '':'') (before_str ''->'' ?r))) = Some (fst p)" by simp
  then show "published_port ?r = Some (fst p)" "published_port ('' '' @ ?r) = Some (fst p)"
    unfolding published_port_def trim_plain [OF ends] trim_leading_space [OF ends] by this+
qed

lemma render_port_free: "CHR '','' \<notin> set (render_port p)" "CHR 0x09 \<notin> set (render_port p)" "CHR 0x0A \<notin> set (render_port p)"
  using digits_free [of "CHR '',''"] digits_free [of "CHR 0x09"] digits_free [of "CHR 0x0A"]
  by (simp_all add: render_port_def digit_val_def)

lemma published_ports:
  "List.map_filter published_port (split_on (CHR '','') (join_with '', '' (map render_port ps))) = map fst ps"
proof (induction ps)
  case (Cons p ps)
  show ?case
  proof (cases ps)
    case Nil
    then show ?thesis
      using split_on_free [OF render_port_free(1)] published_render(1) by (simp add: List.map_filter_simps)
  next
    case (Cons q qs)
    let ?rest = "join_with '', '' (map render_port ps)"
    have "join_with '', '' (map render_port (p # ps)) = render_port p @ CHR '','' # '' '' @ ?rest" by (simp add: Cons)
    then have eq: "split_on (CHR '','') (join_with '', '' (map render_port (p # ps))) = render_port p # split_on (CHR '','') ('' '' @ ?rest)"
      using split_on_append_sep [OF render_port_free(1)] by simp
    obtain x xs where x: "split_on (CHR '','') ?rest = x # xs" by (cases "split_on (CHR '','') ?rest") auto
    then have sp: "split_on (CHR '','') ('' '' @ ?rest) = ('' '' @ x) # xs" by simp
    have "x = render_port q"
    proof (cases qs)
      case Nil
      then show ?thesis using x split_on_free [OF render_port_free(1) [of q]] by (simp add: Cons)
    next
      case (Cons r rs)
      then show ?thesis
        using x split_on_append_sep [OF render_port_free(1) [of q], of "'' '' @ join_with '', '' (map render_port qs)"]
        by (simp add: \<open>ps = q # qs\<close>)
    qed
    then have "published_port ('' '' @ x) = published_port x" using published_render by simp
    then show ?thesis
      using Cons.IH published_render(1) [of p] unfolding eq sp x by (simp add: List.map_filter_simps)
  qed
qed (simp add: published_port_def List.map_filter_simps kdct_simps)

lemma set_join_with: "set (join_with sep ss) \<subseteq> set sep \<union> \<Union> (set ` set ss)"
  by (induction sep ss rule: join_with.induct) auto

text \<open>
  The containers the client reports are those \<^verbatim>\<open>docker ps\<close> lists: from its tab-separated output every container
  is read back with its name, image, status and exactly its published host ports, in order.
\<close>

theorem running_containers_parsed:
  assumes "\<forall>(n, i, ps, st) \<in> set cs. \<forall>f \<in> {n, i, st}. CHR 0x09 \<notin> set f \<and> CHR 0x0A \<notin> set f"
    and "\<forall>(n, i, ps, st) \<in> set cs. st \<noteq> [] \<and> last st \<noteq> CHR 0x0D"
    and "docker h [''ps'', ''--format'', ps_format] w =
      (w', Some (True, join_with [CHR 0x0A] (map (\<lambda>(n, i, ps, st). render_ps n i ps st) cs), err))"
  shows "get_running_containers h w =
    (w', map (\<lambda>(n, i, ps, st). \<lparr>ci_container_name = n, ci_image = i, ci_ports = map fst ps, ci_status = st\<rparr>) cs)"
proof -
  let ?l = "\<lambda>(n, i, ps, st). render_ps n i ps st"
  have ports_free: "c \<notin> set (join_with '', '' (map render_port ps))" if "c = CHR 0x09 \<or> c = CHR 0x0A" for c ps
    using that render_port_free set_join_with [of "'', ''" "map render_port ps"] by fastforce
  have line: "parse_ps_line (render_ps n i ps st) = Some \<lparr>ci_container_name = n, ci_image = i, ci_ports = map fst ps, ci_status = st\<rparr>"
    if "(n, i, ps, st) \<in> set cs" for n i ps st
  proof -
    have "split_on (CHR 0x09) (render_ps n i ps st) = [n, i, join_with '', '' (map render_port ps), st]"
      unfolding render_ps_def by (rule split_on_join) (use that assms(1) ports_free in auto)
    then show ?thesis by (simp add: parse_ps_line_def published_ports)
  qed
  have "str_lines (join_with [CHR 0x0A] (map ?l cs)) = map ?l cs"
    by (rule str_lines_join) (use assms(1,2) ports_free in \<open>fastforce simp: render_ps_def\<close>)
  moreover have "List.map_filter parse_ps_line (map ?l cs) =
      map (\<lambda>(n, i, ps, st). \<lparr>ci_container_name = n, ci_image = i, ci_ports = map fst ps, ci_status = st\<rparr>) cs"
    using line by (induction cs) (auto simp: List.map_filter_simps)
  ultimately show ?thesis using assms(3) by (simp add: get_running_containers_def)
qed


section \<open>The docker module of the client binary\<close>

text \<open>
  \<^verbatim>\<open>crates/kdctc/src/docker.rs\<close> repeats four of these operations; it differs in the text of some
  errors and reports the failure to start a command separately.
\<close>

definition status_ok2 :: "string \<Rightarrow> string \<Rightarrow> 'w \<times> exec_result \<Rightarrow> 'w \<times> (string + unit)" where
  "status_ok2 spawn_msg msg r =
     (case r of (w, None) \<Rightarrow> (w, Inl spawn_msg) | (w, Some (True, _)) \<Rightarrow> (w, Inr ()) | (w, Some (False, _)) \<Rightarrow> (w, Inl msg))"

definition kdctc_docker_pull :: "'w host \<Rightarrow> string \<Rightarrow> 'w \<Rightarrow> 'w \<times> (string + unit)" where
  "kdctc_docker_pull h img w =
     status_ok2 (''Failed to pull image: '' @ img) (''docker pull failed for '' @ img) (docker h [''pull'', img] w)"

definition kdctc_docker_run ::
  "'w host \<Rightarrow> string \<Rightarrow> string \<Rightarrow> (u16 \<times> u16) list \<Rightarrow> (string \<times> string) list \<Rightarrow> 'w \<Rightarrow> 'w \<times> (string + u16 list)" where
  "kdctc_docker_run h tag name port_map env w =
     (case docker h (docker_run_args tag name port_map env) w of
        (w, None) \<Rightarrow> (w, Inl (''Failed to run container: '' @ name))
      | (w, Some (True, _, _)) \<Rightarrow> (w, Inr (map fst port_map))
      | (w, Some (False, _, err)) \<Rightarrow> (w, Inl (''docker run failed for '' @ name @ '': '' @ err)))"

definition kdctc_docker_stop :: "'w host \<Rightarrow> string \<Rightarrow> 'w \<Rightarrow> 'w \<times> (string + unit)" where
  "kdctc_docker_stop h name w =
     (case status_ok2 (''Failed to stop container: '' @ name) (''docker stop failed for '' @ name) (docker h [''stop'', name] w) of
        (w, Inl e) \<Rightarrow> (w, Inl e)
      | (w, Inr _) \<Rightarrow> (fst (docker h [''rm'', name] w), Inr ()))"

definition sanitize_tag :: "string \<Rightarrow> string" where
  "sanitize_tag tag = replace_chars [CHR ''/'', CHR '':'', CHR ''@'', CHR 0x5C] ''_'' tag"

definition kdctc_docker_build :: "'w host \<Rightarrow> string \<Rightarrow> string \<Rightarrow> string \<Rightarrow> 'w \<Rightarrow> 'w \<times> (string + unit)" where
  "kdctc_docker_build h git_url branch tag w =
     (let dir = path_join (h_temp_dir h) (''kdct-build-'' @ sanitize_tag tag);
          w = (if h_exists h dir w then h_remove_dir_all h dir w else w) in
      case status_ok2 (''Failed to clone '' @ git_url) (''git clone failed for '' @ git_url)
             (h_exec h ''git'' [''clone'', ''--depth'', ''1'', ''--branch'', branch, git_url, dir] None w) of
        (w, Inl e) \<Rightarrow> (w, Inl e)
      | (w, Inr _) \<Rightarrow>
          (case h_exec h ''docker'' [''build'', ''-t'', tag, ''.''] (Some dir) w of
             (w, None) \<Rightarrow> (w, Inl (''docker build failed for '' @ tag))
           | (w, Some r) \<Rightarrow>
               status_ok2 (''docker build failed for '' @ tag) (''docker build failed for '' @ tag) (h_remove_dir_all h dir w, Some r)))"

definition check_docker :: "'w host \<Rightarrow> 'w \<Rightarrow> 'w \<times> (string + unit)" where
  "check_docker h w =
     status_ok ''Docker is not installed or not in PATH. Please install Docker first.'' (docker h [''--version''] w)"

text \<open>The same effect on the machine, and success with the same value; only error texts may differ.\<close>

definition same_outcome :: "'w \<times> (string + 'a) \<Rightarrow> 'w \<times> (string + 'a) \<Rightarrow> bool" where
  "same_outcome a b \<longleftrightarrow> fst a = fst b \<and> (\<forall>x. snd a = Inr x \<longleftrightarrow> snd b = Inr x)"

lemma status_ok2_same: "same_outcome (status_ok2 m1 m2 r) (status_ok m r)"
  by (cases r) (auto simp: same_outcome_def status_ok2_def status_ok_def split: option.splits bool.splits)

lemma status_ok2_cases:
  obtains w e e' where "status_ok2 m1 m2 r = (w, Inl e)" "status_ok m r = (w, Inl e')"
  | w where "status_ok2 m1 m2 r = (w, Inr ())" "status_ok m r = (w, Inr ())"
proof -
  consider w where "r = (w, None)" | w x where "r = (w, Some (True, x))" | w x where "r = (w, Some (False, x))"
    by (cases r) (metis (full_types) not_None_eq prod.collapse)
  then show thesis by cases (simp_all add: that status_ok2_def status_ok_def)
qed

text \<open>
  The docker module of the client binary and the client's own operations do the same on every machine:
  same commands with the same effect, and success with the same result in the same cases.
\<close>

theorem docker_modules_equivalent:
  "same_outcome (kdctc_docker_pull h img w) (docker_pull h img w)
   \<and> same_outcome (kdctc_docker_run h tag name pm env w) (docker_run h tag name pm env w)
   \<and> same_outcome (kdctc_docker_stop h name w) (docker_stop h name w)
   \<and> same_outcome (kdctc_docker_build h url branch tag w) (docker_build_from_git h url branch tag w)"
proof (intro conjI)
  show "same_outcome (kdctc_docker_pull h img w) (docker_pull h img w)"
    unfolding kdctc_docker_pull_def docker_pull_def by (rule status_ok2_same)
  show "same_outcome (kdctc_docker_run h tag name pm env w) (docker_run h tag name pm env w)"
    by (auto simp: kdctc_docker_run_def docker_run_def same_outcome_def split: prod.splits option.splits bool.splits)
  show "same_outcome (kdctc_docker_stop h name w) (docker_stop h name w)"
    by (rule status_ok2_cases [of "''Failed to stop container: '' @ name" "''docker stop failed for '' @ name"
          "docker h [''stop'', name] w" "''docker stop failed for '' @ name"])
      (simp_all add: kdctc_docker_stop_def docker_stop_def same_outcome_def)
  let ?dir = "build_dir h tag"
  have dir: "path_join (h_temp_dir h) (''kdct-build-'' @ sanitize_tag tag) = ?dir" by (simp add: build_dir_def sanitize_tag_def)
  let ?w = "if h_exists h ?dir w then h_remove_dir_all h ?dir w else w"
  let ?r = "h_exec h ''git'' [''clone'', ''--depth'', ''1'', ''--branch'', branch, url, ?dir] None ?w"
  show "same_outcome (kdctc_docker_build h url branch tag w) (docker_build_from_git h url branch tag w)"
    unfolding kdctc_docker_build_def docker_build_from_git_def dir Let_def
    by (rule status_ok2_cases [of "''Failed to clone '' @ url" "''git clone failed for '' @ url" ?r "''git clone failed for '' @ url"])
      (auto simp: same_outcome_def split: prod.splits option.splits simp: status_ok2_same [unfolded same_outcome_def])
qed


section \<open>Instances\<close>

text \<open>A machine on which every command succeeds, with one image and one running container.\<close>

definition sample_host :: "(string \<times> string) list host" where
  "sample_host =
     \<lparr>h_exec = (\<lambda>prog args cwd w. (w, Some (True,
          if args = [''ps'', ''--format'', ps_format] then render_ps ''web'' ''nginx'' [(8080, 80)] ''Up''
          else if take 1 args = [''images''] then ''f00'' else [], []))),
      h_read = (\<lambda>p w. hm_get w p), h_write = (\<lambda>p c w. (hm_insert p c w, True)),
      h_create_dir_all = (\<lambda>p w. (w, True)), h_exists = (\<lambda>p w. False), h_remove_dir_all = (\<lambda>p w. w),
      h_HOME = Some ''/root'', h_USERPROFILE = None, h_temp_dir = ''/tmp'', h_OS = ''linux'', h_ARCH = ''x86_64'',
      h_parallelism = Some 4\<rparr>"

definition sample_start :: image_start where
  "sample_start =
     \<lparr>is_image_tag = ''nginx'', is_source = ''nginx'', is_source_type = ''docker'', is_container_name = ''web'',
      is_port_map = [(8080, 80)], is_env = [(''A'', ''1'')]\<rparr>"

lemma sample_files_ok: "files_ok sample_host"
  by (simp add: files_ok_def sample_host_def hm_get_insert)

theorem image_start_commands_witness:
  "snd (image_start (logged sample_host) 0 sample_start ([], [])) = Inr [8080]"
proof -
  have "image_start (logged sample_host) 0 sample_start ([], []) =
     (([], [(''docker'', [''ps'', ''-a'', ''-q'', ''-f'', ''name=^web$'']), (''docker'', [''images'', ''-q'', ''nginx'']),
        (''docker'', docker_run_args ''nginx'' ''web'' [(8080, 80)] [(''A'', ''1'')])]), Inr [8080])"
    by (simp add: image_start_def sample_start_def docker_container_exists_def docker_image_exists_def docker_run_def
        docker_def logged_def sample_host_def docker_run_args_def kdct_simps)
  from this and image_start_commands [OF this] show ?thesis by simp
qed

theorem running_containers_parsed_witness:
  "get_running_containers sample_host [] =
     ([], [\<lparr>ci_container_name = ''web'', ci_image = ''nginx'', ci_ports = [8080], ci_status = ''Up''\<rparr>])"
proof -
  have "docker sample_host [''ps'', ''--format'', ps_format] [] =
     ([], Some (True, join_with [CHR 0x0A] (map (\<lambda>(n, i, ps, st). render_ps n i ps st) [(''web'', ''nginx'', [(8080, 80)], ''Up'')]), []))"
    by (simp add: docker_def sample_host_def)
  from running_containers_parsed [OF _ _ this] show ?thesis by simp
qed

end
