(* ===== verification/Net_Helpers.thy ===== *)
theory Net_Helpers
  imports Config
begin

text \<open>
  Sockets and addresses: \<^verbatim>\<open>crates/tunnel/src/helper.rs\<close>, \<^verbatim>\<open>transport/mod.rs\<close>,
  \<^verbatim>\<open>transport/tcp.rs\<close> and \<^verbatim>\<open>constants.rs\<close>. The operating system and the proxy crates are the parameter
  \<open>net\<close>: what a name resolves to, which connections come about and which proxies agree. A socket is its options.
\<close>

section \<open>Addresses\<close>

datatype sock_addr = V4 bytes u16 | V6 bytes u16

fun is_ipv6 :: "sock_addr \<Rightarrow> bool" where
  "is_ipv6 (V6 _ _) = True"
| "is_ipv6 (V4 _ _) = False"

text \<open>Errors are values; a panic of the code (\<^verbatim>\<open>expect\<close>, \<^verbatim>\<open>panic!\<close>) is one too.\<close>

datatype net_error =
    LookupFailed
  | NoAddress
  | InvalidPort
  | BindFailed string
  | ConnectFailed
  | ProxyRefused
  | ShutdownRequested
  | Panics string

record url =
  url_scheme :: string
  url_host :: "string option"
  url_port :: "u16 option"
  url_username :: string
  url_password :: "string option"

record net =
  nt_lookup :: "string \<Rightarrow> sock_addr list option"
  nt_connect :: "sock_addr \<Rightarrow> bool"
  nt_connect_host :: "string \<Rightarrow> u16 \<Rightarrow> bool"
  nt_bind_udp :: "string \<Rightarrow> bool"
  nt_socks5 :: "string \<Rightarrow> u16 \<Rightarrow> (string \<times> string) option \<Rightarrow> bool"
  nt_http :: "string \<Rightarrow> u16 \<Rightarrow> (string \<times> string) option \<Rightarrow> bool"
  nt_parse_url :: "string \<Rightarrow> url"

definition to_socket_addr :: "net \<Rightarrow> string \<Rightarrow> net_error + sock_addr" where
  "to_socket_addr n addr =
     (case nt_lookup n addr of
        None \<Rightarrow> Inl LookupFailed
      | Some [] \<Rightarrow> Inl NoAddress
      | Some (a # _) \<Rightarrow> Inr a)"

text \<open>The text before and after the last separator.\<close>

fun rsplit_once :: "char \<Rightarrow> string \<Rightarrow> (string \<times> string) option" where
  "rsplit_once c [] = None"
| "rsplit_once c (x # xs) =
     (case rsplit_once c xs of
        Some (a, b) \<Rightarrow> Some (x # a, b)
      | None \<Rightarrow> if x = c then Some ([], xs) else None)"

definition host_port_pair :: "string \<Rightarrow> net_error + string \<times> u16" where
  "host_port_pair s =
     (case rsplit_once (CHR '':'') s of
        None \<Rightarrow> Inl (Panics ''missing semicolon'')
      | Some (host, port) \<Rightarrow> (case parse_u16 port of None \<Rightarrow> Inl InvalidPort | Some p \<Rightarrow> Inr (host, p)))"

section \<open>UDP sockets\<close>

text \<open>The addresses chosen: where the socket is bound and whom it is connected to.\<close>

definition ANY_V4 :: string where "ANY_V4 = ''0.0.0.0:0''"
definition ANY_V6 :: string where "ANY_V6 = '':::0''"

definition udp_addresses :: "net \<Rightarrow> string \<Rightarrow> bool \<Rightarrow> net_error + string \<times> sock_addr" where
  "udp_addresses n addr prefer_ipv6 =
     (if \<not> prefer_ipv6 then
        (case to_socket_addr n addr of
           Inl e \<Rightarrow> Inl e
         | Inr a \<Rightarrow> Inr (case a of V4 _ _ \<Rightarrow> ANY_V4 | V6 _ _ \<Rightarrow> ANY_V6, a))
      else
        (case nt_lookup n addr of
           None \<Rightarrow> Inl LookupFailed
         | Some all \<Rightarrow>
             (case find is_ipv6 all of
                Some a \<Rightarrow> Inr (ANY_V6, a)
              | None \<Rightarrow>
                  (case find (\<lambda>a. \<not> is_ipv6 a) all of
                     None \<Rightarrow> Inl NoAddress
                   | Some a \<Rightarrow> Inr (ANY_V4, a)))))"

definition udp_connect :: "net \<Rightarrow> string \<Rightarrow> bool \<Rightarrow> net_error + string \<times> sock_addr" where
  "udp_connect n addr prefer_ipv6 =
     (case udp_addresses n addr prefer_ipv6 of
        Inl e \<Rightarrow> Inl e
      | Inr (b, a) \<Rightarrow>
          if \<not> nt_bind_udp n b then Inl (BindFailed b)
          else if \<not> nt_connect n a then Inl ConnectFailed
          else Inr (b, a))"

section \<open>Cached addresses and connecting\<close>

record addr_maybe_cached =
  am_addr :: string
  am_socket_addr :: "sock_addr option"

definition addr_new :: "string \<Rightarrow> addr_maybe_cached" where
  "addr_new addr = \<lparr>am_addr = addr, am_socket_addr = None\<rparr>"

definition addr_resolve :: "net \<Rightarrow> addr_maybe_cached \<Rightarrow> addr_maybe_cached \<times> (net_error + unit)" where
  "addr_resolve n a =
     (case to_socket_addr n (am_addr a) of
        Inr s \<Rightarrow> (a\<lparr>am_socket_addr := Some s\<rparr>, Inr ())
      | Inl e \<Rightarrow> (a, Inl e))"

definition addr_display :: "(sock_addr \<Rightarrow> string) \<Rightarrow> addr_maybe_cached \<Rightarrow> string" where
  "addr_display show_addr a =
     (case am_socket_addr a of Some s \<Rightarrow> show_addr s | None \<Rightarrow> am_addr a)"

text \<open>\<^verbatim>\<open>TcpStream::connect\<close> on a name tries the addresses it resolves to until one connects.\<close>

definition connect_name :: "net \<Rightarrow> string \<Rightarrow> net_error + sock_addr" where
  "connect_name n addr =
     (case nt_lookup n addr of
        None \<Rightarrow> Inl LookupFailed
      | Some all \<Rightarrow> (case find (nt_connect n) all of None \<Rightarrow> Inl ConnectFailed | Some a \<Rightarrow> Inr a))"

text \<open>Whom a stream is connected to: an address, or a host and port behind a proxy.\<close>

datatype tcp_peer = Direct sock_addr | Proxied url string u16

definition proxy_auth :: "url \<Rightarrow> (string \<times> string) option" where
  "proxy_auth u =
     (if url_username u \<noteq> [] \<or> url_password u \<noteq> None
      then Some (url_username u, case url_password u of Some p \<Rightarrow> p | None \<Rightarrow> [])
      else None)"

definition tcp_connect_with_proxy :: "net \<Rightarrow> addr_maybe_cached \<Rightarrow> url option \<Rightarrow> net_error + tcp_peer" where
  "tcp_connect_with_proxy n addr proxy =
     (case proxy of
        Some u \<Rightarrow>
          (case (url_host u, url_port u) of
             (None, _) \<Rightarrow> Inl (Panics ''proxy url should have host field'')
           | (Some _, None) \<Rightarrow> Inl (Panics ''proxy url should have port field'')
           | (Some h, Some p) \<Rightarrow>
               if \<not> nt_connect_host n h p then Inl ConnectFailed
               else if url_scheme u \<notin> {''socks5'', ''http''} then Inl (Panics ''unknown proxy scheme'')
               else
                 (case host_port_pair (am_addr addr) of
                    Inl e \<Rightarrow> Inl e
                  | Inr (host, port) \<Rightarrow>
                      if (if url_scheme u = ''socks5'' then nt_socks5 n else nt_http n) host port (proxy_auth u)
                      then Inr (Proxied u host port) else Inl ProxyRefused))
      | None \<Rightarrow>
          (case am_socket_addr addr of
             Some s \<Rightarrow> if nt_connect n s then Inr (Direct s) else Inl ConnectFailed
           | None \<Rightarrow> (case connect_name n (am_addr addr) of Inl e \<Rightarrow> Inl e | Inr a \<Rightarrow> Inr (Direct a))))"

section \<open>Socket options\<close>

definition DEFAULT_NODELAY :: bool where "DEFAULT_NODELAY = True"
definition DEFAULT_KEEPALIVE_SECS :: u64 where "DEFAULT_KEEPALIVE_SECS = 20"
definition DEFAULT_KEEPALIVE_INTERVAL :: u64 where "DEFAULT_KEEPALIVE_INTERVAL = 8"

record keepalive =
  ka_secs :: u64
  ka_interval :: u64

record socket_opts =
  so_nodelay :: "bool option"
  so_keepalive :: "keepalive option"

definition opts_none :: socket_opts where
  "opts_none = \<lparr>so_nodelay = None, so_keepalive = None\<rparr>"

definition for_control_channel :: socket_opts where
  "for_control_channel = opts_none\<lparr>so_nodelay := Some True\<rparr>"

definition opts_from_cfg :: "tcp_config \<Rightarrow> socket_opts" where
  "opts_from_cfg cfg =
     \<lparr>so_nodelay = Some (tc_nodelay cfg),
      so_keepalive = Some \<lparr>ka_secs = tc_keepalive_secs cfg, ka_interval = tc_keepalive_interval cfg\<rparr>\<rparr>"

definition opts_from_client_cfg :: "client_service_config \<Rightarrow> socket_opts" where
  "opts_from_client_cfg cfg = opts_none\<lparr>so_nodelay := cs_nodelay cfg\<rparr>"

definition opts_from_server_cfg :: "server_service_config \<Rightarrow> socket_opts" where
  "opts_from_server_cfg cfg = opts_none\<lparr>so_nodelay := ss_nodelay cfg\<rparr>"

text \<open>A stream's options; \<open>ka_ok\<close> and \<open>nd_ok\<close> are whether the system accepts them. A refusal is only logged.\<close>

record stream =
  st_nodelay :: bool
  st_keepalive :: "keepalive option"

definition try_set_tcp_keepalive :: "bool \<Rightarrow> u64 \<Rightarrow> u64 \<Rightarrow> stream \<Rightarrow> stream option" where
  "try_set_tcp_keepalive ka_ok duration interval s =
     (if ka_ok then Some (s\<lparr>st_keepalive := Some \<lparr>ka_secs = duration, ka_interval = interval\<rparr>\<rparr>) else None)"

definition opts_apply :: "bool \<Rightarrow> bool \<Rightarrow> socket_opts \<Rightarrow> stream \<Rightarrow> stream" where
  "opts_apply ka_ok nd_ok o1 s =
     (let s = (case so_keepalive o1 of
                 None \<Rightarrow> s
               | Some v \<Rightarrow> (case try_set_tcp_keepalive ka_ok (ka_secs v) (ka_interval v) s of None \<Rightarrow> s | Some s' \<Rightarrow> s')) in
      case so_nodelay o1 of
        None \<Rightarrow> s
      | Some nodelay \<Rightarrow> if nd_ok then s\<lparr>st_nodelay := nodelay\<rparr> else s)"

section \<open>The TCP transport\<close>

record tcp_transport =
  tt_socket_opts :: socket_opts
  tt_cfg :: tcp_config

definition tcp_new :: "transport_config \<Rightarrow> tcp_transport" where
  "tcp_new config = \<lparr>tt_socket_opts = opts_from_cfg (tr_tcp config), tt_cfg = tr_tcp config\<rparr>"

definition tcp_hint :: "bool \<Rightarrow> bool \<Rightarrow> stream \<Rightarrow> socket_opts \<Rightarrow> stream" where
  "tcp_hint ka_ok nd_ok conn o1 = opts_apply ka_ok nd_ok o1 conn"

definition tcp_accept :: "bool \<Rightarrow> bool \<Rightarrow> tcp_transport \<Rightarrow> stream option \<Rightarrow> stream option" where
  "tcp_accept ka_ok nd_ok t incoming = map_option (opts_apply ka_ok nd_ok (tt_socket_opts t)) incoming"

definition tcp_handshake :: "'c \<Rightarrow> 'c option" where
  "tcp_handshake conn = Some conn"

definition tcp_connect ::
  "net \<Rightarrow> bool \<Rightarrow> bool \<Rightarrow> tcp_transport \<Rightarrow> addr_maybe_cached \<Rightarrow> stream \<Rightarrow> net_error + tcp_peer \<times> stream" where
  "tcp_connect n ka_ok nd_ok t addr fresh =
     (case tcp_connect_with_proxy n addr (map_option (nt_parse_url n) (tc_proxy (tt_cfg t))) of
        Inl e \<Rightarrow> Inl e
      | Inr peer \<Rightarrow> Inr (peer, opts_apply ka_ok nd_ok (tt_socket_opts t) fresh))"

text \<open>Server and client build their transport from the default settings (\<^verbatim>\<open>Server::from\<close>, \<^verbatim>\<open>Client::from\<close>).\<close>

definition default_transport :: transport_config where
  "default_transport = \<lparr>tr_transport_type = TcpTransport, tr_tcp = tcp_config_default\<rparr>"

definition server_transport :: "server_config \<Rightarrow> tcp_transport" where
  "server_transport config = tcp_new default_transport"

definition client_transport :: "client_config \<Rightarrow> tcp_transport" where
  "client_transport config = tcp_new default_transport"

section \<open>Back-off and deadlines\<close>

definition UDP_BUFFER_SIZE :: nat where "UDP_BUFFER_SIZE = 2048"
definition UDP_SENDQ_SIZE :: nat where "UDP_SENDQ_SIZE = 1024"
definition UDP_TIMEOUT :: nat where "UDP_TIMEOUT = 60"

text \<open>
  The settings of a back-off that the code chooses, times in milliseconds and factors in tenths; \<^const>\<open>None\<close> is the crate's default.
  The policy itself is the \<^verbatim>\<open>backoff\<close> crate's: a state, the next pause, and a reset.
\<close>

record backoff_settings =
  bs_max_interval :: nat
  bs_max_elapsed :: "nat option"
  bs_multiplier :: "nat option"
  bs_randomization :: "nat option"

definition listen_backoff :: backoff_settings where
  "listen_backoff = \<lparr>bs_max_interval = 1000, bs_max_elapsed = None, bs_multiplier = None, bs_randomization = None\<rparr>"

definition run_control_chan_backoff :: "nat \<Rightarrow> backoff_settings" where
  "run_control_chan_backoff interval =
     \<lparr>bs_max_interval = 1000 * interval, bs_max_elapsed = None, bs_multiplier = Some 30, bs_randomization = Some 2\<rparr>"

record 'b backoff =
  bo_next :: "'b \<Rightarrow> 'b \<times> nat option"
  bo_reset :: "'b \<Rightarrow> 'b"

text \<open>Without a limit on the elapsed time the crate never gives up.\<close>

definition patient :: "'b backoff \<Rightarrow> bool" where
  "patient bo \<longleftrightarrow> (\<forall>b. snd (bo_next bo b) \<noteq> None)"

text \<open>
  The result of the crate's retry loop is \<open>retried\<close>, or \<^const>\<open>None\<close> when the loop is still at it as the shutdown signal
  arrives.
\<close>

definition retry_notify_with_deadline :: "(net_error + 'a) option \<Rightarrow> net_error + 'a" where
  "retry_notify_with_deadline retried = (case retried of Some v \<Rightarrow> v | None \<Rightarrow> Inl ShutdownRequested)"

lemmas [kdct_simps] = to_socket_addr_def host_port_pair_def ANY_V4_def ANY_V6_def udp_addresses_def udp_connect_def addr_new_def
  addr_resolve_def addr_display_def connect_name_def proxy_auth_def tcp_connect_with_proxy_def opts_none_def for_control_channel_def
  opts_from_cfg_def opts_from_client_cfg_def opts_from_server_cfg_def try_set_tcp_keepalive_def opts_apply_def tcp_new_def tcp_hint_def
  tcp_accept_def tcp_handshake_def tcp_connect_def default_transport_def server_transport_def client_transport_def
  retry_notify_with_deadline_def

section \<open>Host and port\<close>

lemma rsplit_once_None: "rsplit_once c s = None \<longleftrightarrow> c \<notin> set s"
  by (induction s) (auto split: option.splits)

lemma rsplit_once_append: "c \<notin> set b \<Longrightarrow> rsplit_once c (a @ c # b) = Some (a, b)"
  by (induction a) (use rsplit_once_None [of c b] in simp_all)

lemma rsplit_once_Some: "rsplit_once c s = Some (a, b) \<Longrightarrow> s = a @ c # b \<and> c \<notin> set b"
  by (induction s arbitrary: a) (use rsplit_once_None in \<open>auto split: option.splits if_splits\<close>)

lemma show_nat_no_colon: "CHR '':'' \<notin> set (show_nat n)"
  using show_nat_digits [of "CHR '':''" n] by (auto simp: digit_val_def)

text \<open>
  A host and a port, written the usual way, are read back, also when the host contains colons itself; a text without a colon makes
  the code panic, and nothing else does.
\<close>

theorem host_port_roundtrip:
  "host_port_pair (h @ '':'' @ show_nat (unat p)) = Inr (h, p)
   \<and> ((\<exists>m. host_port_pair s = Inl (Panics m)) \<longleftrightarrow> CHR '':'' \<notin> set s)"
  using rsplit_once_append [OF show_nat_no_colon, of h "unat p"]
  by (auto simp: host_port_pair_def rsplit_once_None [symmetric] split: option.splits)

section \<open>Choosing addresses\<close>

lemma to_socket_addr_Inr: "to_socket_addr n addr = Inr a \<longleftrightarrow> (\<exists>rest. nt_lookup n addr = Some (a # rest))"
  by (auto simp: to_socket_addr_def split: option.splits list.splits)

lemma bind_family: "(case a of V4 x p \<Rightarrow> ANY_V4 | V6 x p \<Rightarrow> ANY_V6) = (if is_ipv6 a then ANY_V6 else ANY_V4)"
  by (cases a) simp_all

text \<open>
  A UDP socket is bound in the family of the address it talks to. That address is one the name resolves to: with the preference
  for IPv6 an IPv6 one if there is any, without it the first one whatever its family.
\<close>

theorem udp_connect_family:
  assumes "udp_connect n addr prefer_ipv6 = Inr (b, a)"
  shows "\<exists>all. nt_lookup n addr = Some all \<and> a \<in> set all \<and> nt_bind_udp n b \<and> nt_connect n a
    \<and> b = (if is_ipv6 a then ANY_V6 else ANY_V4)
    \<and> (if prefer_ipv6 then is_ipv6 a \<longleftrightarrow> (\<exists>x \<in> set all. is_ipv6 x) else a = hd all)"
proof (cases prefer_ipv6)
  case True
  with assms show ?thesis
    by (auto simp: udp_connect_def udp_addresses_def find_None_iff dest!: find_Some_set split: option.splits sum.splits if_splits)
next
  case False
  with assms show ?thesis
    by (auto simp: udp_connect_def udp_addresses_def bind_family to_socket_addr_Inr split: sum.splits if_splits)
qed

text \<open>
  Resolving an address ties the connection to the first of the addresses its name has: where an unresolved name
  reaches any of them that answers, a resolved one fails as soon as the first does not.
\<close>

theorem resolved_address_has_no_fallback:
  assumes "nt_lookup n name = Some (x # xs)" "\<not> nt_connect n x" "\<exists>y \<in> set xs. nt_connect n y"
  shows "tcp_connect_with_proxy n (fst (addr_resolve n (addr_new name))) None = Inl ConnectFailed
    \<and> (\<exists>y \<in> set xs. tcp_connect_with_proxy n (addr_new name) None = Inr (Direct y))"
proof -
  obtain y where "find (nt_connect n) xs = Some y" "y \<in> set xs"
    using assms(3) by (cases "find (nt_connect n) xs") (auto simp: find_None_iff dest: find_Some_set)
  with assms show ?thesis
    by (simp add: tcp_connect_with_proxy_def addr_resolve_def addr_new_def to_socket_addr_def connect_name_def)
qed

section \<open>Socket options in force\<close>

lemma opts_apply_eq:
  "opts_apply True True o1 s =
     s\<lparr>st_keepalive := (case so_keepalive o1 of None \<Rightarrow> st_keepalive s | Some k \<Rightarrow> Some k),
       st_nodelay := (case so_nodelay o1 of None \<Rightarrow> st_nodelay s | Some d \<Rightarrow> d)\<rparr>"
  by (cases s) (auto simp: opts_apply_def try_set_tcp_keepalive_def split: option.splits)

text \<open>
  A control channel is without delay and kept alive at its server end, and so is at its client end every connection the client makes,
  which is always a direct one; no setting of either configuration changes that, in particular not the
  \<^verbatim>\<open>[server.transport]\<close> section.
\<close>

theorem transport_settings_fixed:
  fixes fresh :: stream
  shows "map_option (\<lambda>c. tcp_hint True True c for_control_channel) (tcp_accept True True (server_transport sc) (Some fresh))
      = Some \<lparr>st_nodelay = True, st_keepalive = Some \<lparr>ka_secs = 20, ka_interval = 8\<rparr>\<rparr>
    \<and> (case tcp_connect n True True (client_transport cc) addr fresh of
         Inr (peer, s) \<Rightarrow> (\<exists>a. peer = Direct a \<and> nt_connect n a)
           \<and> s = \<lparr>st_nodelay = True, st_keepalive = Some \<lparr>ka_secs = 20, ka_interval = 8\<rparr>\<rparr>
       | Inl e \<Rightarrow> e = LookupFailed \<or> e = ConnectFailed)"
  by (cases fresh)
    (auto simp: opts_apply_eq tcp_hint_def for_control_channel_def opts_none_def tcp_accept_def server_transport_def client_transport_def
      tcp_new_def default_transport_def opts_from_cfg_def tcp_config_default_def default_nodelay_def default_keepalive_secs_def
      default_keepalive_interval_def tcp_connect_def tcp_connect_with_proxy_def connect_name_def
      dest: find_Some_set split: sum.splits option.splits if_splits)

end
