(* ===== verification/Client_Agent.thy ===== *)
theory Client_Agent
  imports Client_Host Tunnel_Runs Net_Helpers
begin

text \<open>
  The client, \<^verbatim>\<open>crates/tunnel/src/client.rs\<close>: the handshake of its control channel, the commands it obeys, the
  targets of its data channels, the UDP forwarders, the supervision of a channel that keeps failing, and the timers of its main loop. A task
  the client spawns for a command is run to completion in one step.
\<close>

section \<open>Handshake\<close>

datatype client_error =
    ClientProto proto_error
  | UnexpectedHello
  | AuthenticationFailed ack
  | CannotPersistUuid string
  | NoLocalAddr
  | HeartbeatTimedOut
  | ReadFailed

record client_codecs =
  cl_ser_hello :: "hello \<Rightarrow> bytes option"
  cl_de_hello :: "bytes \<Rightarrow> hello option"
  cl_ser_auth :: "auth \<Rightarrow> bytes option"
  cl_de_ack :: "bytes \<Rightarrow> ack option"

text \<open>
  The client's side of the handshake: \<open>inp\<close> is what the server sends. The result is what the client
  writes and, on success, the session key its data channels use.
\<close>

definition client_handshake ::
  "client_codecs \<Rightarrow> (bytes \<Rightarrow> digest) \<Rightarrow> digest \<Rightarrow> bytes \<Rightarrow> bytes \<Rightarrow> bytes \<times> (client_error + digest \<times> bytes)" where
  "client_handshake cl dig service_digest token inp =
     (case write_message (cl_ser_hello cl) (ControlChannelHello CURRENT_PROTO_VERSION service_digest) of
        Inl e \<Rightarrow> ([], Inl (ClientProto e))
      | Inr out \<Rightarrow>
          (case read_hello (cl_de_hello cl) inp of
             Inl e \<Rightarrow> (out, Inl (ClientProto e))
           | Inr (DataChannelHello _ _, _) \<Rightarrow> (out, Inl UnexpectedHello)
           | Inr (ControlChannelHello _ nonce, inp) \<Rightarrow>
               (let session_key = dig (token @ nonce) in
                case write_message (cl_ser_auth cl) (Auth session_key) of
                  Inl e \<Rightarrow> (out, Inl (ClientProto e))
                | Inr out2 \<Rightarrow>
                    (case read_message (cl_de_ack cl) inp of
                       Inl e \<Rightarrow> (out @ out2, Inl (ClientProto e))
                     | Inr (AckOk, inp) \<Rightarrow> (out @ out2, Inr (session_key, inp))
                     | Inr (a, inp) \<Rightarrow> (out @ out2, Inl (AuthenticationFailed a))))))"

definition data_hello :: "client_codecs \<Rightarrow> digest \<Rightarrow> client_error + bytes" where
  "data_hello cl session_key =
     (case write_message (cl_ser_hello cl) (DataChannelHello CURRENT_PROTO_VERSION session_key) of
        Inl e \<Rightarrow> Inl (ClientProto e) | Inr out \<Rightarrow> Inr out)"

section \<open>Data channels\<close>

datatype channel_target = ForwardTcp string | ForwardUdp string bool

definition data_channel_target :: "client_service_config \<Rightarrow> data_cmd \<Rightarrow> client_error + channel_target" where
  "data_channel_target service cmd =
     (case cmd of
        StartForwardTcp (Some port) \<Rightarrow> Inr (ForwardTcp (''127.0.0.1:'' @ show_nat (unat port)))
      | StartForwardTcp None \<Rightarrow>
          (case cs_local_addr service of None \<Rightarrow> Inl NoLocalAddr | Some a \<Rightarrow> Inr (ForwardTcp a))
      | StartForwardUdp \<Rightarrow>
          (case cs_local_addr service of None \<Rightarrow> Inl NoLocalAddr | Some a \<Rightarrow> Inr (ForwardUdp a (cs_prefer_ipv6 service))))"

definition run_data_channel ::
  "(bytes \<Rightarrow> data_cmd option) \<Rightarrow> client_service_config \<Rightarrow> bytes \<Rightarrow> client_error + channel_target" where
  "run_data_channel de service inp =
     (case read_message de inp of
        Inl e \<Rightarrow> Inl (ClientProto e)
      | Inr (cmd, _) \<Rightarrow> data_channel_target service cmd)"

section \<open>UDP forwarders\<close>

text \<open>
  The UDP side of a data channel: one forwarder per source address. A forwarder has the queue of data for
  its socket and is open until its task ends; the port map names the forwarder of each source. \<open>can\<close> is the outcome of
  \<^verbatim>\<open>udp_connect\<close>; a packet whose forwarder cannot be made, or has ended, is dropped.
\<close>

record 'a udp_map =
  um_ports :: "('a, nat) hmap"
  um_queues :: "nat \<Rightarrow> bytes list"
  um_open :: "nat \<Rightarrow> bool"
  um_next :: nat

definition udp_map_new :: "'a udp_map" where
  "udp_map_new = \<lparr>um_ports = [], um_queues = (\<lambda>_. []), um_open = (\<lambda>_. False), um_next = 0\<rparr>"

definition udp_packet :: "bool \<Rightarrow> 'a udp_traffic \<Rightarrow> 'a udp_map \<Rightarrow> 'a udp_map" where
  "udp_packet can p m =
     (let m = (if hm_get (um_ports m) (ut_from p) = None \<and> can
               then m\<lparr>um_ports := hm_insert (ut_from p) (um_next m) (um_ports m),
                      um_queues := (um_queues m)(um_next m := []), um_open := (um_open m)(um_next m := True),
                      um_next := Suc (um_next m)\<rparr>
               else m) in
      case hm_get (um_ports m) (ut_from p) of
        None \<Rightarrow> m
      | Some f \<Rightarrow> if um_open m f then m\<lparr>um_queues := (um_queues m)(f := um_queues m f @ [ut_data p])\<rparr> else m)"

text \<open>
  What wakes a forwarder up: the next queued datagram, with whether the socket took it; the end of its queue; a datagram from
  the local service, with whether the outbound queue took it; a socket error; a minute of silence.
\<close>

datatype udp_event =
    Inbound bool
  | InboundClosed
  | LocalData bytes bool
  | LocalError
  | Silence

text \<open>
  One turn of \<^verbatim>\<open>run_udp_forwarder\<close>. Every \<^verbatim>\<open>break\<close> of its loop falls through to the removal
  of the map entry; the two \<^verbatim>\<open>?\<close> return at once.
\<close>

datatype 'a udp_effect =
    SentLocal bytes
  | SentOut "'a udp_traffic"
  | NoEffect

definition close_forwarder :: "nat \<Rightarrow> 'a udp_map \<Rightarrow> 'a udp_map" where
  "close_forwarder f m = m\<lparr>um_open := (um_open m)(f := False)\<rparr>"

definition drop_forwarder :: "'a \<Rightarrow> nat \<Rightarrow> 'a udp_map \<Rightarrow> 'a udp_map" where
  "drop_forwarder from f m = close_forwarder f (m\<lparr>um_ports := hm_remove from (um_ports m)\<rparr>)"

definition forwarder_turn :: "'a \<Rightarrow> nat \<Rightarrow> udp_event \<Rightarrow> 'a udp_map \<Rightarrow> 'a udp_map \<times> 'a udp_effect" where
  "forwarder_turn from f ev m =
     (case ev of
        Inbound ok \<Rightarrow>
          (case um_queues m f of
             [] \<Rightarrow> (m, NoEffect)
           | d # ds \<Rightarrow>
               let m = m\<lparr>um_queues := (um_queues m)(f := ds)\<rparr> in
               if ok then (m, SentLocal d) else (close_forwarder f m, NoEffect))
      | InboundClosed \<Rightarrow> (drop_forwarder from f m, NoEffect)
      | LocalData d ok \<Rightarrow>
          if ok then (m, SentOut \<lparr>ut_from = from, ut_data = d\<rparr>) else (close_forwarder f m, NoEffect)
      | LocalError \<Rightarrow> (drop_forwarder from f m, NoEffect)
      | Silence \<Rightarrow> (drop_forwarder from f m, NoEffect))"

section \<open>Commands\<close>

record tracked_container =
  tc_container_name :: string
  tc_image_tag :: string

record agent =
  ag_service :: client_service_config
  ag_node_uuid :: "string option"
  ag_containers :: "tracked_container list"
  ag_cache :: image_cache
  ag_sent :: "control_cmd list"
  ag_data_channels :: nat

definition agent_new :: "'w host \<Rightarrow> client_service_config \<Rightarrow> 'w \<Rightarrow> agent" where
  "agent_new h service w =
     \<lparr>ag_service = service, ag_node_uuid = identity_load h w, ag_containers = [], ag_cache = cache_load h w,
      ag_sent = [], ag_data_channels = 0\<rparr>"

text \<open>A write to the server either goes out or is lost; the client only logs the difference.\<close>

definition agent_send :: "bool \<Rightarrow> control_cmd \<Rightarrow> agent \<Rightarrow> agent" where
  "agent_send ok cmd a = (if ok then a\<lparr>ag_sent := ag_sent a @ [cmd]\<rparr> else a)"

definition send_status :: "'w host \<Rightarrow> bool \<Rightarrow> agent \<times> 'w \<Rightarrow> agent \<times> 'w" where
  "send_status h ok s =
     (case s of (a, w) \<Rightarrow>
        case gather_node_status h (ag_service a) (ag_node_uuid a) w of
          (w, rep) \<Rightarrow> (agent_send ok (ReportNodeStatus rep) a, w))"

definition start_task :: "'w host \<Rightarrow> int \<Rightarrow> bool \<Rightarrow> image_start \<Rightarrow> agent \<times> 'w \<Rightarrow> agent \<times> 'w" where
  "start_task h now ok c s =
     (case s of (a, w) \<Rightarrow>
        case image_start h now c w of
          (w, Inr ports) \<Rightarrow>
            (agent_send ok (ContainerStarted (is_container_name c) ports)
               (a\<lparr>ag_containers := ag_containers a
                    @ [\<lparr>tc_container_name = is_container_name c, tc_image_tag = is_image_tag c\<rparr>]\<rparr>), w)
        | (w, Inl e) \<Rightarrow> (agent_send ok (ContainerError (is_container_name c) e) a, w))"

definition stop_task :: "'w host \<Rightarrow> bool \<Rightarrow> string \<Rightarrow> agent \<times> 'w \<Rightarrow> agent \<times> 'w" where
  "stop_task h ok name s =
     (case s of (a, w) \<Rightarrow>
        case docker_stop h name w of
          (w, Inr _) \<Rightarrow>
            (agent_send ok (ContainerStopped name)
               (a\<lparr>ag_containers := filter (\<lambda>c. tc_container_name c \<noteq> name) (ag_containers a)\<rparr>), w)
        | (w, Inl e) \<Rightarrow> (agent_send ok (ContainerError name e) a, w))"

definition handle_cmd ::
  "'w host \<Rightarrow> int \<Rightarrow> bool \<Rightarrow> control_cmd \<Rightarrow> agent \<times> 'w \<Rightarrow> (agent \<times> 'w) \<times> (client_error + unit)" where
  "handle_cmd h now ok cmd s =
     (case cmd of
        CreateDataChannel \<Rightarrow> ((case s of (a, w) \<Rightarrow> (a\<lparr>ag_data_channels := Suc (ag_data_channels a)\<rparr>, w)), Inr ())
      | HeartBeat \<Rightarrow> (send_status h ok s, Inr ())
      | AssignNodeUuid u \<Rightarrow>
          (case s of (a, w) \<Rightarrow>
             case identity_save h u w of
               (w, Inl e) \<Rightarrow> ((a, w), Inl (CannotPersistUuid e))
             | (w, Inr _) \<Rightarrow> ((a\<lparr>ag_node_uuid := Some u\<rparr>, w), Inr ()))
      | ImageStart c \<Rightarrow> (start_task h now ok c s, Inr ())
      | ImageStop name \<Rightarrow> (stop_task h ok name s, Inr ())
      | _ \<Rightarrow> (s, Inr ()))"

text \<open>
  An established channel: the client reports once, then handles commands and status ticks one at a time; the first error ends
  the session. Each event comes with the time of day and with whether what is written to the server goes out.
\<close>

datatype agent_event = ServerCmd control_cmd | StatusTick

fun session_loop ::
  "'w host \<Rightarrow> (int \<times> bool \<times> agent_event) list \<Rightarrow> agent \<times> 'w \<Rightarrow> (agent \<times> 'w) \<times> (client_error + unit)" where
  "session_loop h [] s = (s, Inr ())"
| "session_loop h ((now, ok, StatusTick) # evs) s = session_loop h evs (send_status h ok s)"
| "session_loop h ((now, ok, ServerCmd cmd) # evs) s =
     (case handle_cmd h now ok cmd s of
        (s, Inl e) \<Rightarrow> (s, Inl e)
      | (s, Inr _) \<Rightarrow> session_loop h evs s)"

definition session ::
  "'w host \<Rightarrow> bool \<Rightarrow> (int \<times> bool \<times> agent_event) list \<Rightarrow> agent \<times> 'w \<Rightarrow> (agent \<times> 'w) \<times> (client_error + unit)" where
  "session h ok evs s = session_loop h evs (send_status h ok s)"

text \<open>
  \<^verbatim>\<open>Client::run\<close> gives every configured service its own channel, with a digest of the service's name; a configuration without services is
  an error.
\<close>

definition client_run ::
  "(bytes \<Rightarrow> digest) \<Rightarrow> 'w host \<Rightarrow> client_config \<Rightarrow> 'w \<Rightarrow> string + (string, digest \<times> agent) hmap" where
  "client_run dig h config w =
     (let services = cc_services config in
      if services = []
      then Inl ''No services configured in [client.services]. Please add at least one service with port_range_start and port_range_end.''
      else Inr (fold (\<lambda>(name, cfg). hm_insert name (dig (map of_char (cs_name cfg)), agent_new h cfg w)) services []))"

section \<open>Supervision\<close>

text \<open>
  The loop around a failing channel. Times are milliseconds, \<open>ttl\<close> is in seconds; \<open>now\<close> is when the channel failed.
\<close>

record supervisor =
  sp_disconnected_at :: "nat option"
  sp_cleanup_done :: bool

fun stop_tracked :: "'w host \<Rightarrow> tracked_container list \<Rightarrow> 'w \<Rightarrow> 'w" where
  "stop_tracked h [] w = w"
| "stop_tracked h (c # cs) w =
     stop_tracked h cs (fst (docker_rmi h (tc_image_tag c) (fst (docker_stop h (tc_container_name c) w))))"

definition on_failure ::
  "'w host \<Rightarrow> nat \<Rightarrow> nat \<Rightarrow> supervisor \<times> agent \<times> 'w \<Rightarrow> supervisor \<times> agent \<times> 'w" where
  "on_failure h ttl now s =
     (case s of (sp, a, w) \<Rightarrow>
        let sp = (if sp_disconnected_at sp = None then sp\<lparr>sp_disconnected_at := Some now\<rparr> else sp) in
        if \<not> sp_cleanup_done sp
           \<and> (case sp_disconnected_at sp of Some dt \<Rightarrow> now - dt > 1000 * ttl | None \<Rightarrow> False)
        then
          let w = stop_tracked h (ag_containers a) w in
          case cache_clear_expired h (int ttl) (ag_cache a) w of
            (cache, w) \<Rightarrow> (sp\<lparr>sp_cleanup_done := True\<rparr>, a\<lparr>ag_containers := [], ag_cache := cache\<rparr>, w)
        else (sp, a, w))"

text \<open>
  A turn of the supervisor: the channel, started at \<open>started\<close>,
  failed at \<open>now\<close>; \<open>later\<close> is the time after the clean-up, and \<open>stop\<close> whether a shutdown was requested.
\<close>

datatype verdict = Retry nat | Stopped | Panicked

definition supervise ::
  "'w host \<Rightarrow> 'b backoff \<Rightarrow> nat \<Rightarrow> nat \<Rightarrow> nat \<Rightarrow> nat \<Rightarrow> bool \<Rightarrow> (supervisor \<times> agent \<times> 'w) \<times> 'b
     \<Rightarrow> ((supervisor \<times> agent \<times> 'w) \<times> 'b) \<times> verdict" where
  "supervise h bo ttl started now later stop s =
     (case s of (s, b) \<Rightarrow>
        let s = on_failure h ttl now s in
        if stop then ((s, b), Stopped)
        else
          let b = (if later - started > 3000 then bo_reset bo b else b) in
          case bo_next bo b of (b, Some d) \<Rightarrow> ((s, b), Retry d) | (b, None) \<Rightarrow> ((s, b), Panicked))"

section \<open>Timers\<close>

definition STATUS_INTERVAL :: nat where
  "STATUS_INTERVAL = 5000"

text \<open>
  The turns of the client's loop, in milliseconds. A turn begins at \<open>ck_start\<close> and is woken by whichever comes first of a command from
  the server, the status tick, due at \<open>ck_tick\<close>, and the heartbeat timeout, which counts from the start
  of the turn; of several that are ready any may be taken. Handling it takes any time. A tick that is overdue fires at once, and the
  next one is due five seconds after it was due.
\<close>

record clock =
  ck_start :: nat
  ck_tick :: nat

datatype wake = Command | Tick | Timeout

inductive loop_turn :: "nat \<Rightarrow> clock \<Rightarrow> wake \<Rightarrow> clock \<Rightarrow> bool" for timeout where
  on_command: "ck_start c \<le> m \<Longrightarrow> m \<le> max (ck_start c) (ck_tick c) \<Longrightarrow> timeout = 0 \<or> m \<le> ck_start c + 1000 * timeout \<Longrightarrow>
    m \<le> t \<Longrightarrow> loop_turn timeout c Command (c\<lparr>ck_start := t\<rparr>)"
| on_tick: "timeout = 0 \<or> max (ck_start c) (ck_tick c) \<le> ck_start c + 1000 * timeout \<Longrightarrow> max (ck_start c) (ck_tick c) \<le> t \<Longrightarrow>
    loop_turn timeout c Tick \<lparr>ck_start = t, ck_tick = ck_tick c + STATUS_INTERVAL\<rparr>"
| on_timeout: "timeout \<noteq> 0 \<Longrightarrow> ck_start c + 1000 * timeout \<le> max (ck_start c) (ck_tick c) \<Longrightarrow>
    loop_turn timeout c Timeout (c\<lparr>ck_start := ck_start c + 1000 * timeout\<rparr>)"

definition loop_begins :: "nat \<Rightarrow> clock \<Rightarrow> bool" where
  "loop_begins t0 c \<longleftrightarrow> ck_tick c = t0 \<and> t0 \<le> ck_start c"

lemmas [kdct_simps] = client_handshake_def data_hello_def data_channel_target_def run_data_channel_def udp_map_new_def udp_packet_def
  close_forwarder_def drop_forwarder_def forwarder_turn_def agent_new_def agent_send_def send_status_def start_task_def stop_task_def handle_cmd_def
  session_def on_failure_def supervise_def STATUS_INTERVAL_def


section \<open>The handshake, both sides\<close>

lemma read_wire: "length p < 65536 \<Longrightarrow> de p = Some m \<Longrightarrow> read_message de (write_len_prefixed p @ s) = Inr (m, s)"
  by (simp add: read_message_def frame.read_written)

lemma read_wire_end: "length p < 65536 \<Longrightarrow> de p = Some m \<Longrightarrow> read_message de (write_len_prefixed p) = Inr (m, [])"
  using read_wire [of p de m "[]"] by simp

text \<open>
  What both sides rely on: a message one side's codec writes is short enough and the other side's codec reads it
  back. A digest is an array of 32 bytes in the code; the codecs need to work for those only.
\<close>

definition is_digest :: "digest \<Rightarrow> bool" where
  "is_digest d \<longleftrightarrow> length d = HASH_WIDTH_IN_BYTES"

definition carries :: "('m \<Rightarrow> bytes option) \<Rightarrow> (bytes \<Rightarrow> 'm option) \<Rightarrow> 'm \<Rightarrow> bool" where
  "carries ser de m \<longleftrightarrow> (case ser m of None \<Rightarrow> False | Some b \<Rightarrow> length b < 65536 \<and> de b = Some m)"

lemma carriesD: "carries ser de m \<Longrightarrow> \<exists>b. ser m = Some b \<and> length b < 65536 \<and> de b = Some m"
  by (auto simp: carries_def split: option.splits)

definition codecs_agree :: "client_codecs \<Rightarrow> codecs \<Rightarrow> bool" where
  "codecs_agree cl cod \<longleftrightarrow>
     (\<forall>d v. is_digest d \<longrightarrow> carries (cl_ser_hello cl) (de_hello cod) (ControlChannelHello v d)
        \<and> carries (cl_ser_hello cl) (de_hello cod) (DataChannelHello v d)
        \<and> carries (ser_hello cod) (cl_de_hello cl) (ControlChannelHello v d)
        \<and> carries (cl_ser_auth cl) (de_auth cod) (Auth d))
   \<and> (\<forall>a. carries (ser_ack cod) (cl_de_ack cl) a)"

text \<open>
  C6. The two ends of a handshake agree. With the codecs of both sides matching, a client and a server that exchange what each of them writes
  finish together: when their tokens give the same digest with the nonce, both succeed, with the same session key, which the
  server's table leads to the new channel; otherwise both fail with an authentication error and the server keeps its state.
\<close>

theorem handshakes_agree:
  fixes env :: server_env and inp out :: bytes
  assumes codecs: "codecs_agree cl cod"
    and client: "client_handshake cl (env_digest env) dig token inp = (out, rc)"
    and server: "handle_connection env cod nonce cid conn out s = (t, inp, rs)"
    and wf: "mm_wf (tn_control_channels s)"
    and digests: "is_digest dig" "is_digest nonce" "\<forall>b. is_digest (env_digest env b)"
  defines "key \<equiv> env_digest env (env_token env @ nonce)"
  shows "if env_digest env (token @ nonce) = key
    then rc = Inr (key, []) \<and> rs = Inr () \<and> t = insert_handle (tn_next s) (spawn_channel dig cid key s)
       \<and> (mm_get1 (tn_control_channels s) cid = None \<and> mm_get2 (tn_control_channels s) key = None \<longrightarrow>
            mm_get2 (tn_control_channels t) key = Some (tn_next s))
    else rc = Inl (AuthenticationFailed AuthFailed) \<and> rs = Inl ClientFailedAuthentication \<and> t = s"
proof -
  obtain h where h: "cl_ser_hello cl (ControlChannelHello CURRENT_PROTO_VERSION dig) = Some h" "length h < 65536"
    "de_hello cod h = Some (ControlChannelHello CURRENT_PROTO_VERSION dig)" using codecs digests unfolding codecs_agree_def by (meson carriesD)
  obtain n where n: "ser_hello cod (ControlChannelHello CURRENT_PROTO_VERSION nonce) = Some n" "length n < 65536"
    "cl_de_hello cl n = Some (ControlChannelHello CURRENT_PROTO_VERSION nonce)" using codecs digests unfolding codecs_agree_def by (meson carriesD)
  obtain a where a: "cl_ser_auth cl (Auth (env_digest env (token @ nonce))) = Some a" "length a < 65536"
    "de_auth cod a = Some (Auth (env_digest env (token @ nonce)))" using codecs digests unfolding codecs_agree_def by (meson carriesD)
  obtain y where y: "ser_ack cod AckOk = Some y" "length y < 65536" "cl_de_ack cl y = Some AckOk"
    using codecs digests unfolding codecs_agree_def by (meson carriesD)
  obtain f where f: "ser_ack cod AuthFailed = Some f" "length f < 65536" "cl_de_ack cl f = Some AuthFailed"
    using codecs digests unfolding codecs_agree_def by (meson carriesD)
  have hello: "\<exists>x. out = write_len_prefixed h @ x"
    using client h by (auto simp: client_handshake_def write_message_def Let_def split: sum.splits prod.splits hello.splits ack.splits)
  then have srv: "(t, inp, rs) = do_control_channel_handshake env cod nonce cid dig (drop (length (write_len_prefixed h)) out) s"
    using server h by (auto simp: handle_connection_def read_hello_def read_wire)
  then have "\<exists>x. inp = write_len_prefixed n @ x"
    using n by (auto simp: do_control_channel_handshake_def write_message_def Let_def split: sum.splits prod.splits auth.splits if_splits option.splits)
  then have "out = write_len_prefixed h @ write_len_prefixed a"
    using client h n a by (auto simp: client_handshake_def write_message_def read_hello_def read_wire Let_def split: sum.splits prod.splits ack.splits)
  with srv a n y f have srv2: "(t, inp, rs) = (if key = env_digest env (token @ nonce)
      then (insert_handle (tn_next s) (spawn_channel dig cid key s), write_len_prefixed n @ write_len_prefixed y, Inr ())
      else (s, write_len_prefixed n @ write_len_prefixed f, Inl ClientFailedAuthentication))"
    by (simp add: do_control_channel_handshake_def write_message_def read_wire_end key_def Let_def)
  then have "rc = (if key = env_digest env (token @ nonce) then Inr (key, []) else Inl (AuthenticationFailed AuthFailed))"
    using client h n a y f by (auto simp: client_handshake_def write_message_def read_hello_def read_wire read_wire_end Let_def split: if_splits)
  with srv2 show ?thesis
    using mm.get_ins(2) [OF wf] by (auto simp: insert_handle_def spawn_channel_def new_channel_def)
qed


section \<open>Data channels of a client\<close>

text \<open>
  The data channel a client opens after a successful handshake reaches its own control channel: the server finds by the key in the
  hello the channel the handshake made, gives the connection to the first visitor that waits on it, and starts the forwarding
  with that visitor's port, which the client takes as the local port to connect to.
\<close>

theorem data_channel_reaches_visitor:
  fixes env :: server_env
  assumes "codecs_agree cl cod" "is_digest key" "mm_get2 (tn_control_channels s) key = Some i"
    and "cc_port_pending (tn_ccs s i) = []" "cc_callbacks (tn_ccs s i) = (v, lp) # vs"
    and "data_hello cl key = Inr out" "carries ser_cmd de_cmd (StartForwardTcp (Some lp))"
    and "write_message ser_cmd (StartForwardTcp (Some lp)) = Inr start"
  shows "do_data_channel_handshake key conn s = (upd_cc i (\<lambda>c. c\<lparr>cc_callbacks := vs\<rparr>) s, Inr (ToVisitor v lp))
    \<and> handle_connection env cod nonce cid conn out s = (upd_cc i (\<lambda>c. c\<lparr>cc_callbacks := vs\<rparr>) s, [], Inr ())
    \<and> run_data_channel de_cmd service start = Inr (ForwardTcp (''127.0.0.1:'' @ show_nat (unat lp)))"
proof -
  obtain h where h: "cl_ser_hello cl (DataChannelHello CURRENT_PROTO_VERSION key) = Some h" "length h < 65536"
    "de_hello cod h = Some (DataChannelHello CURRENT_PROTO_VERSION key)"
    using assms(1,2) unfolding codecs_agree_def by (meson carriesD)
  then have "out = write_len_prefixed h" using assms(6) by (simp add: data_hello_def write_message_def)
  then have "read_hello (de_hello cod) out = Inr (DataChannelHello CURRENT_PROTO_VERSION key, [])"
    using h by (simp add: read_hello_def read_wire_end)
  moreover have "read_message de_cmd start = Inr (StartForwardTcp (Some lp), [])"
    using assms(7,8) by (auto dest!: carriesD simp: write_message_def read_wire_end)
  ultimately show ?thesis
    by (simp add: handle_connection_def data_to_visitor [OF assms(3-5)] run_data_channel_def data_channel_target_def)
qed

section \<open>Obeying commands\<close>

fun reply_to :: "control_cmd \<Rightarrow> string option" where
  "reply_to (ContainerStarted n _) = Some n"
| "reply_to (ContainerStopped n) = Some n"
| "reply_to (ContainerError n _) = Some n"
| "reply_to _ = None"

fun asks_for :: "agent_event \<Rightarrow> string option" where
  "asks_for (ServerCmd (ImageStart c)) = Some (is_container_name c)"
| "asks_for (ServerCmd (ImageStop n)) = Some n"
| "asks_for _ = None"

definition replies :: "agent \<Rightarrow> string list" where
  "replies a = List.map_filter reply_to (ag_sent a)"

lemma map_filter_snoc: "List.map_filter f (xs @ [x]) = List.map_filter f xs @ (case f x of None \<Rightarrow> [] | Some y \<Rightarrow> [y])"
  by (induction xs) (simp_all add: List.map_filter_simps split: option.splits)

lemma replies_send_status: "replies (fst (send_status h ok s)) = replies (fst s)"
  by (auto simp: replies_def send_status_def agent_send_def map_filter_snoc split: prod.splits)

lemma replies_handle_cmd:
  "replies (fst (fst (handle_cmd h now True cmd s))) =
     replies (fst s) @ (case asks_for (ServerCmd cmd) of None \<Rightarrow> [] | Some n \<Rightarrow> [n])"
  by (cases cmd) (auto simp: replies_send_status [unfolded replies_def] handle_cmd_def start_task_def stop_task_def agent_send_def replies_def
      map_filter_snoc split: prod.splits sum.splits)



lemma gather_claims: "nr_node_uuid (snd (gather_node_status h service u w)) = u"
  by (simp add: gather_node_status_def case_prod_beta Let_def)

text \<open>
  An identity the server assigns is kept: when the client goes on after the command, it has written
  the identity, its reports claim it from then on, and a client started later on the same machine claims it in its first report. When it cannot be
  written the session ends with an error and the client keeps claiming what it claimed before.
\<close>

theorem assigned_identity_persists:
  fixes a :: agent and w :: 'w
  assumes files: "files_ok h" and u: "trim u = u" "u \<noteq> []"
    and handled: "handle_cmd h now ok (AssignNodeUuid u) (a, w) = ((a', w'), r)"
  shows "case r of
      Inr _ \<Rightarrow> ag_node_uuid a' = Some u \<and> ag_sent a' = ag_sent a
        \<and> (\<exists>rep w2. send_status h True (a', w') = (a'\<lparr>ag_sent := ag_sent a' @ [ReportNodeStatus rep]\<rparr>, w2)
             \<and> nr_node_uuid rep = Some u)
        \<and> (\<exists>rep w2. send_status h True (agent_new h service w', w')
               = ((agent_new h service w')\<lparr>ag_sent := [ReportNodeStatus rep]\<rparr>, w2) \<and> nr_node_uuid rep = Some u)
    | Inl e \<Rightarrow> (\<exists>m. e = CannotPersistUuid m) \<and> a' = a"
proof -
  have claim: "\<exists>rep w2. send_status h True (b, v) = (b\<lparr>ag_sent := ag_sent b @ [ReportNodeStatus rep]\<rparr>, w2)
      \<and> nr_node_uuid rep = Some u" if "ag_node_uuid b = Some u" for b :: agent and v :: 'w
  proof -
    obtain w2 rep where g: "gather_node_status h (ag_service b) (Some u) v = (w2, rep)" by fastforce
    with gather_claims [of h "ag_service b" "Some u" v] that show ?thesis
      by (auto simp: send_status_def agent_send_def intro: exI [of _ rep])
  qed
  show ?thesis
  proof (cases r)
    case (Inl e)
    then show ?thesis using handled by (auto simp: handle_cmd_def split: prod.splits sum.splits)
  next
    case (Inr x)
    then have save: "identity_save h u w = (w', Inr ())" and a': "a' = a\<lparr>ag_node_uuid := Some u\<rparr>"
      using handled by (auto simp: handle_cmd_def split: prod.splits sum.splits)
    have "ag_node_uuid (agent_new h service w') = Some u"
      using identity_saved [OF files save] u by (simp add: agent_new_def)
    from claim [OF this, of w'] claim [of a' w'] show ?thesis using Inr a' by (simp add: agent_new_def)
  qed
qed

section \<open>Containers of a failing channel\<close>

text \<open>
  The time after which the client stops its containers counts from the first failure of the channel, not from the last: however long it was connected in
  between and whatever it started there, the second failure removes every container it tracks at once when it comes more
  than the time-to-live after the first one. From then on no failure removes anything.
\<close>

theorem cleanup_counts_from_first_failure:
  fixes a0 a1 a2 :: agent and w0 w1 w2 :: 'w
  assumes first: "on_failure h ttl t0 (\<lparr>sp_disconnected_at = None, sp_cleanup_done = False\<rparr>, a0, w0) = (sp0, a0', w0')"
    and second: "on_failure h ttl t1 (sp0, a1, w1) = (sp1, a1', w1')"
    and late: "t1 - t0 > 1000 * ttl"
  shows "a0' = a0 \<and> w0' = w0 \<and> ag_containers a1' = []
    \<and> w1' = cache_save h [] (stop_tracked h (ag_containers a1) w1)
    \<and> on_failure h ttl t2 (sp1, a2, w2) = (sp1, a2, w2)"
  using assms by (auto simp: on_failure_def Let_def cache_clear_expired_def)

section \<open>The heartbeat timeout\<close>

inductive_cases loop_turnE [elim]: "loop_turn timeout c w c'"

definition loop_inv :: "clock \<Rightarrow> bool" where
  "loop_inv c \<longleftrightarrow> ck_tick c \<le> ck_start c + STATUS_INTERVAL"

interpretation loop: inductive_invariant "loop_begins t0" "\<lambda>c c'. \<exists>w. w \<noteq> Timeout \<and> loop_turn timeout c w c'" loop_inv
proof unfold_locales
  show "loop_begins t0 c \<Longrightarrow> loop_inv c" for c by (simp add: loop_begins_def loop_inv_def)
  show "loop_inv c \<Longrightarrow> \<exists>w. w \<noteq> Timeout \<and> loop_turn timeout c w c' \<Longrightarrow> loop_inv c'" for c c'
    by (auto simp: loop_inv_def STATUS_INTERVAL_def)
qed

text \<open>
  The heartbeat timeout of the client never fires when it is set to more than the five seconds of its status reports (the default
  is 40): it is counted anew in every turn of the loop, and the client's own status tick
  ends each turn within five seconds, whether or not the server says anything.
\<close>

theorem heartbeat_timeout_never_fires:
  assumes "5 < timeout" "loop_begins t0 c0"
    and "(\<lambda>c c'. \<exists>w. w \<noteq> Timeout \<and> loop_turn timeout c w c')\<^sup>*\<^sup>* c0 c"
  shows "\<not> loop_turn timeout c Timeout c'
    \<and> (\<exists>c''. loop_turn timeout c Tick c'' \<and> ck_start c'' \<le> ck_start c + STATUS_INTERVAL)"
proof -
  have inv: "ck_tick c \<le> ck_start c + 5000"
    using loop.steps_inv [OF assms(3)] loop.inv_init [OF assms(2)] by (simp add: loop_inv_def STATUS_INTERVAL_def)
  have "loop_turn timeout c Tick \<lparr>ck_start = max (ck_start c) (ck_tick c), ck_tick = ck_tick c + STATUS_INTERVAL\<rparr>"
    by (rule on_tick) (use inv assms(1) in auto)
  with inv assms(1) show ?thesis by (auto simp: STATUS_INTERVAL_def)
qed


section \<open>UDP forwarders at work\<close>

definition udp_inv :: "'a udp_map \<Rightarrow> bool" where
  "udp_inv m \<longleftrightarrow> (\<forall>a f. hm_get (um_ports m) a = Some f \<longrightarrow> f < um_next m \<and> um_open m f)
     \<and> (\<forall>a b f. hm_get (um_ports m) a = Some f \<and> hm_get (um_ports m) b = Some f \<longrightarrow> a = b)"

definition udp_waiting :: "'a udp_map \<Rightarrow> 'a \<Rightarrow> bytes list option" where
  "udp_waiting m a = map_option (um_queues m) (hm_get (um_ports m) a)"

lemma udp_packet_eq:
  "hm_get (um_ports m) (ut_from p) = Some f \<Longrightarrow> um_open m f \<Longrightarrow>
     udp_packet can p m = m\<lparr>um_queues := (um_queues m)(f := um_queues m f @ [ut_data p])\<rparr>"
  "hm_get (um_ports m) (ut_from p) = None \<Longrightarrow> udp_packet False p m = m"
  "hm_get (um_ports m) (ut_from p) = None \<Longrightarrow> udp_packet True p m =
     \<lparr>um_ports = hm_insert (ut_from p) (um_next m) (um_ports m), um_queues = (um_queues m)(um_next m := [ut_data p]),
      um_open = (um_open m)(um_next m := True), um_next = Suc (um_next m)\<rparr>"
  by (simp_all add: udp_packet_def Let_def hm_get_insert)

lemma udp_cases:
  assumes "udp_inv m"
  shows "(\<exists>f. hm_get (um_ports m) a = Some f \<and> um_open m f) \<or> hm_get (um_ports m) a = None"
  using assms by (cases "hm_get (um_ports m) a") (auto simp: udp_inv_def)

lemma udp_fresh: "udp_inv m \<Longrightarrow> hm_get (um_ports m) a \<noteq> Some (um_next m)"
  by (auto simp: udp_inv_def)

lemma udp_less: "udp_inv m \<Longrightarrow> hm_get (um_ports m) a = Some f \<Longrightarrow> f < um_next m"
  by (auto simp: udp_inv_def)

lemma udp_packet_inv: "udp_inv m \<Longrightarrow> udp_inv (udp_packet can p m)"
proof -
  assume inv: "udp_inv m"
  from udp_cases [OF inv, of "ut_from p"] show ?thesis
  proof (elim disjE exE conjE)
    fix f assume "hm_get (um_ports m) (ut_from p) = Some f" "um_open m f"
    with inv show ?thesis by (simp add: udp_packet_eq(1) udp_inv_def)
  next
    assume new: "hm_get (um_ports m) (ut_from p) = None"
    show ?thesis
    proof (cases can)
      case True
      then show ?thesis
        using inv udp_fresh [OF inv] udp_less [OF inv]
        by (auto simp: udp_packet_eq(3) [OF new] udp_inv_def hm_get_insert less_SucI split: if_splits)
    qed (simp add: udp_packet_eq(2) [OF new] inv)
  qed
qed

lemma udp_packet_waiting:
  assumes inv: "udp_inv m"
  shows "udp_waiting (udp_packet can p m) a =
    (if a \<noteq> ut_from p then udp_waiting m a
     else case udp_waiting m a of
       None \<Rightarrow> if can then Some [ut_data p] else None
     | Some ds \<Rightarrow> Some (ds @ [ut_data p]))"
  using udp_cases [OF inv, of "ut_from p"]
proof (elim disjE exE conjE)
  fix f assume f: "hm_get (um_ports m) (ut_from p) = Some f" "um_open m f"
  have "hm_get (um_ports m) a = Some g \<Longrightarrow> a \<noteq> ut_from p \<Longrightarrow> g \<noteq> f" for g
    using inv f by (auto simp: udp_inv_def)
  with f show ?thesis by (cases "hm_get (um_ports m) a") (auto simp: udp_packet_eq(1) udp_waiting_def)
next
  assume new: "hm_get (um_ports m) (ut_from p) = None"
  show ?thesis
  proof (cases can)
    case True
    then show ?thesis using new udp_fresh [OF inv, of a]
      by (cases "hm_get (um_ports m) a") (auto simp: udp_packet_eq(3) udp_waiting_def hm_get_insert)
  qed (use new in \<open>auto simp: udp_packet_eq(2) udp_waiting_def\<close>)
qed

text \<open>
  The datagrams of a data channel are told apart by their source: as long as no forwarder ends, each source has one
  forwarder of its own, and what is queued for it is what came from that source, in order, no more and no
  less, however the sources are interleaved.
\<close>

theorem udp_sources_kept_apart:
  "udp_waiting (fold (udp_packet True) ps udp_map_new) a =
     (let ds = map ut_data (filter (\<lambda>p. ut_from p = a) ps) in if ds = [] then None else Some ds)
   \<and> udp_inv (fold (udp_packet True) ps (udp_map_new :: 'a udp_map))"
proof (induction ps rule: rev_induct)
  case Nil
  then show ?case by (simp add: udp_waiting_def udp_map_new_def udp_inv_def)
next
  case (snoc p ps)
  then show ?case
    by (auto simp: udp_packet_inv udp_packet_waiting Let_def split: option.splits if_splits)
qed

text \<open>
  A forwarder that ends because the local service refuses a datagram (a socket error such as a refused port) leaves its entry in the map: from
  then on every datagram of that source is dropped and no new forwarder is made, for as long as the data channel
  lives. The other ways a forwarder ends remove the entry, and the next datagram makes a new forwarder.
\<close>

theorem failed_forwarder_silences_source:
  assumes "hm_get (um_ports m) a = Some f" "um_queues m f = d # ds" "list_all (\<lambda>p. ut_from p = a) ps"
  defines "dead \<equiv> fst (forwarder_turn a f (Inbound False) m)"
  shows "fold (udp_packet True) ps dead = dead
    \<and> (\<forall>ev \<in> {InboundClosed, LocalError, Silence}. \<forall>p. ut_from p = a \<longrightarrow>
         udp_waiting (udp_packet True p (fst (forwarder_turn a f ev m))) a = Some [ut_data p])"
proof
  have dead: "hm_get (um_ports dead) a = Some f" "\<not> um_open dead f"
    using assms(1,2) by (simp_all add: dead_def forwarder_turn_def close_forwarder_def)
  show "fold (udp_packet True) ps dead = dead"
    using assms(3) by (induction ps) (simp_all add: udp_packet_def dead)
  show "\<forall>ev \<in> {InboundClosed, LocalError, Silence}. \<forall>p. ut_from p = a \<longrightarrow>
      udp_waiting (udp_packet True p (fst (forwarder_turn a f ev m))) a = Some [ut_data p]"
    by (auto simp: forwarder_turn_def drop_forwarder_def close_forwarder_def udp_packet_def udp_waiting_def hm_get_insert hm_get_remove)
qed


section \<open>Sample runs\<close>

fun sample_ser_hello :: "hello \<Rightarrow> bytes option" where
  "sample_ser_hello (ControlChannelHello v d) = Some (0 # v # d)"
| "sample_ser_hello (DataChannelHello v d) = Some (1 # v # d)"

definition sample_de_hello :: "bytes \<Rightarrow> hello option" where
  "sample_de_hello b =
     (case b of k # v # d \<Rightarrow> Some (if k = 0 then ControlChannelHello v d else DataChannelHello v d) | _ \<Rightarrow> None)"

definition sample_ser_ack :: "ack \<Rightarrow> bytes option" where
  "sample_ser_ack a = Some (case a of AckOk \<Rightarrow> [0] | ServiceNotExist \<Rightarrow> [1] | AuthFailed \<Rightarrow> [2])"

definition sample_de_ack :: "bytes \<Rightarrow> ack option" where
  "sample_de_ack b = (if b = [0] then Some AckOk else if b = [1] then Some ServiceNotExist else if b = [2] then Some AuthFailed else None)"

definition sample_client :: client_codecs where
  "sample_client =
     \<lparr>cl_ser_hello = sample_ser_hello, cl_de_hello = sample_de_hello, cl_ser_auth = (\<lambda>a. case a of Auth d \<Rightarrow> Some d),
      cl_de_ack = sample_de_ack\<rparr>"

definition server_codecs :: codecs where
  "server_codecs =
     \<lparr>de_hello = sample_de_hello, ser_hello = sample_ser_hello, de_auth = (\<lambda>b. Some (Auth b)), ser_ack = sample_ser_ack\<rparr>"

definition sample_digest :: "bytes \<Rightarrow> digest" where
  "sample_digest b = take 32 (b @ replicate 32 0)"

definition digest_env :: server_env where
  "digest_env = sample_env\<lparr>env_digest := sample_digest\<rparr>"

lemmas sample_codec_defs = sample_client_def server_codecs_def sample_de_hello_def sample_ser_ack_def sample_de_ack_def

lemma sample_codecs_agree: "codecs_agree sample_client server_codecs"
  unfolding codecs_agree_def
proof (intro conjI allI impI)
  show "carries (ser_ack server_codecs) (cl_de_ack sample_client) a" for a
    by (cases a) (simp_all add: carries_def sample_codec_defs)
qed (simp_all add: carries_def sample_codec_defs is_digest_def HASH_WIDTH_IN_BYTES_def)

lemma sample_is_digest: "is_digest (sample_digest b)"
  by (simp add: is_digest_def sample_digest_def HASH_WIDTH_IN_BYTES_def)

lemma sample_exchange:
  fixes token :: bytes
  defines "d \<equiv> sample_digest [1]" and "n \<equiv> sample_digest [2]" and "k \<equiv> sample_digest (token @ sample_digest [2])"
  defines "out \<equiv> write_len_prefixed (0 # CURRENT_PROTO_VERSION # d) @ write_len_prefixed k"
  shows "\<exists>inp rc t rs. client_handshake sample_client (env_digest digest_env) d token inp = (out, rc)
    \<and> handle_connection digest_env server_codecs n [5] 0 out (server_from []) = (t, inp, rs)"
proof -
  have len: "length (sample_digest b) = 32" for b by (simp add: sample_digest_def)
  note rd = read_wire [of "0 # CURRENT_PROTO_VERSION # sample_digest b" for b] read_wire_end [of "sample_digest b" for b]
    read_wire_end [of "[0]"] read_wire_end [of "[2]"]
  show ?thesis
    by (simp add: out_def d_def n_def k_def handle_connection_def read_hello_def rd len do_control_channel_handshake_def
        write_message_def sample_codec_defs digest_env_def Let_def client_handshake_def)
qed

theorem handshakes_agree_witness:
  "\<exists>inp out t. client_handshake sample_client sample_digest (sample_digest [1]) [8] inp = (out, Inl (AuthenticationFailed AuthFailed))
     \<and> handle_connection digest_env server_codecs (sample_digest [2]) [5] 0 out (server_from [])
         = (t, inp, Inl ClientFailedAuthentication)"
proof -
  obtain inp out rc t rs where ex: "client_handshake sample_client (env_digest digest_env) (sample_digest [1]) [8] inp = (out, rc)"
    "handle_connection digest_env server_codecs (sample_digest [2]) [5] 0 out (server_from []) = (t, inp, rs)"
    using sample_exchange [of "[8]"] by blast
  have "env_digest digest_env ([8] @ sample_digest [2]) \<noteq> env_digest digest_env (env_token digest_env @ sample_digest [2])"
    by (simp add: digest_env_def sample_env_def) (simp add: sample_digest_def)
  with handshakes_agree [OF sample_codecs_agree ex] ex show ?thesis
    by (auto simp: server_from_def mm_wf_new sample_is_digest digest_env_def)
qed

theorem data_channel_reaches_visitor_witness:
  "run_data_channel (\<lambda>b. if b = [9] then Some (StartForwardTcp (Some 80)) else None) client_service_default (write_len_prefixed [9])
     = Inr (ForwardTcp ''127.0.0.1:80'')"
proof -
  let ?s = "upd_cc 0 (\<lambda>c. c\<lparr>cc_callbacks := [(1, 80)]\<rparr>)
    (insert_handle 0 (spawn_channel [1] [5] (sample_digest [5]) (server_from [])))"
  have s: "mm_get2 (tn_control_channels ?s) (sample_digest [5]) = Some 0" "cc_port_pending (tn_ccs ?s 0) = []"
    "cc_callbacks (tn_ccs ?s 0) = (1, 80) # []"
    by (simp_all add: insert_handle_def spawn_channel_def new_channel_def server_from_def mm_insert_def mm_new_def mm_get2_def
        upd_cc_def kdct_simps)
  have "data_hello sample_client (sample_digest [5]) = Inr (write_len_prefixed (1 # CURRENT_PROTO_VERSION # sample_digest [5]))"
    by (simp add: data_hello_def write_message_def sample_codec_defs)
  from data_channel_reaches_visitor [OF sample_codecs_agree sample_is_digest s this,
      of "\<lambda>c. Some [9]" "\<lambda>b. if b = [9] then Some (StartForwardTcp (Some 80)) else None" "write_len_prefixed [9]"]
  show ?thesis by (simp add: carries_def write_message_def show_nat.simps digit_char_def)
qed


definition sample_agent :: agent where
  "sample_agent = agent_new sample_host client_service_default []"

definition sample_events :: "(int \<times> bool \<times> agent_event) list" where
  "sample_events =
     [(0, True, ServerCmd (ImageStart sample_start)), (0, True, StatusTick), (0, True, ServerCmd HeartBeat),
      (0, True, ServerCmd (ImageStop ''web''))]"

lemma sample_session: "\<exists>t. session sample_host True sample_events (sample_agent, []) = (t, Inr ())"
  by (simp add: session_def sample_events_def handle_cmd_def split: prod.splits)


theorem assigned_identity_persists_witness:
  "\<exists>a' w'. handle_cmd sample_host 0 True (AssignNodeUuid ''u1'') (sample_agent, []) = ((a', w'), Inr ())
     \<and> ag_node_uuid a' = Some ''u1''"
proof -
  have "handle_cmd sample_host 0 True (AssignNodeUuid ''u1'') (sample_agent, []) =
     ((sample_agent\<lparr>ag_node_uuid := Some ''u1''\<rparr>, [(''/root/.kdct/node_id'', ''u1'')]), Inr ())"
    by (simp add: handle_cmd_def identity_save_def identity_path_def sample_host_def path_join_def path_absolute_def)
  from assigned_identity_persists [OF sample_files_ok _ _ this] this show ?thesis by (simp add: kdct_simps)
qed

theorem cleanup_counts_from_first_failure_witness:
  "fst (snd (on_failure sample_host 300 400000
      (\<lparr>sp_disconnected_at = Some 1000, sp_cleanup_done = False\<rparr>,
       sample_agent\<lparr>ag_containers := [\<lparr>tc_container_name = ''web'', tc_image_tag = ''nginx''\<rparr>]\<rparr>, [])))
     = sample_agent\<lparr>ag_containers := [], ag_cache := []\<rparr>"
proof -
  let ?sp = "\<lparr>sp_disconnected_at = Some 1000, sp_cleanup_done = False\<rparr>"
  let ?a = "sample_agent\<lparr>ag_containers := [\<lparr>tc_container_name = ''web'', tc_image_tag = ''nginx''\<rparr>]\<rparr>"
  have first: "on_failure sample_host 300 1000 (\<lparr>sp_disconnected_at = None, sp_cleanup_done = False\<rparr>, sample_agent, [])
      = (?sp, sample_agent, [])"
    by (simp add: on_failure_def)
  obtain sp a w where second: "on_failure sample_host 300 400000 (?sp, ?a, []) = (sp, a, w)" by (metis prod_cases3)
  from cleanup_counts_from_first_failure [OF first second] have "ag_containers a = []" by simp
  moreover have "a = ?a\<lparr>ag_containers := [], ag_cache := []\<rparr>" using second by (simp add: on_failure_def cache_clear_expired_def)
  ultimately show ?thesis by (simp add: second)
qed

theorem heartbeat_timeout_never_fires_witness:
  "\<not> loop_turn 40 \<lparr>ck_start = 17, ck_tick = 5000\<rparr> Timeout \<lparr>ck_start = 40017, ck_tick = 5000\<rparr>"
proof -
  have "loop_turn 40 \<lparr>ck_start = 0, ck_tick = 0\<rparr> Tick \<lparr>ck_start = 17, ck_tick = 0 + STATUS_INTERVAL\<rparr>"
    using on_tick [of 40 "\<lparr>ck_start = 0, ck_tick = 0\<rparr>" 17] by simp
  then have "(\<lambda>c c'. \<exists>w. w \<noteq> Timeout \<and> loop_turn 40 c w c')\<^sup>*\<^sup>* \<lparr>ck_start = 0, ck_tick = 0\<rparr> \<lparr>ck_start = 17, ck_tick = 5000\<rparr>"
    by (intro r_into_rtranclp exI [of _ Tick]) (simp add: STATUS_INTERVAL_def)
  from heartbeat_timeout_never_fires [OF _ _ this] show ?thesis by (simp add: loop_begins_def)
qed

theorem failed_forwarder_silences_source_witness:
  "let m = fst (forwarder_turn (1 :: nat) 0 (Inbound False) (udp_packet True \<lparr>ut_from = 1, ut_data = [7]\<rparr> udp_map_new)) in
   udp_packet True \<lparr>ut_from = 1, ut_data = [8]\<rparr> m = m"
proof -
  let ?m = "udp_packet True \<lparr>ut_from = 1 :: nat, ut_data = [7]\<rparr> udp_map_new"
  have "hm_get (um_ports ?m) 1 = Some 0" "um_queues ?m 0 = [7] # []" by (simp_all add: udp_packet_def udp_map_new_def)
  from failed_forwarder_silences_source [OF this, of "[\<lparr>ut_from = 1, ut_data = [8]\<rparr>]"] show ?thesis by (simp add: Let_def)
qed

end
