(* ===== verification/Port_Forward.thy ===== *)
theory Port_Forward
  imports Client_Agent "HOL-Library.Sublist"
begin

text \<open>
  The accept loop of a forwarded TCP port, \<^verbatim>\<open>spawn_port_accept_loop\<close> in \<^verbatim>\<open>crates/tunnel/src/server.rs\<close>, as one more task beside the
  server: it accepts a visitor, asks the node's control channel for a data channel, queues the visitor, waits until a data channel is handed to it, and
  copies. Visitors and data channels are numbers. Only while it accepts does the loop listen for the signal to stop.
\<close>

section \<open>The loop\<close>

datatype port_task =
    Accepting
  | Requested nat
  | Awaiting nat
  | Joined nat nat
  | Copying nat nat
  | LoopEnded

record port_loop =
  pl_channel :: nat                          \<comment> \<open>the control channel whose queues it shares\<close>
  pl_local_port :: u16
  pl_task :: port_task
  pl_accepted :: "nat list"                  \<comment> \<open>visitors accepted, oldest first\<close>
  pl_cmds :: "(nat \<times> data_cmd) list"         \<comment> \<open>written to data channels, oldest first\<close>
  pl_served :: "(nat \<times> nat) list"            \<comment> \<open>visitors whose copying is over, with their data channel\<close>

definition spawn_loop :: "nat \<Rightarrow> u16 \<Rightarrow> port_loop" where
  "spawn_loop i local_port =
     \<lparr>pl_channel = i, pl_local_port = local_port, pl_task = Accepting, pl_accepted = [], pl_cmds = [], pl_served = []\<rparr>"

text \<open>A visitor comes, or accepting fails (\<^const>\<open>None\<close>).\<close>

definition loop_accept :: "nat option \<Rightarrow> port_loop \<times> tunnel \<Rightarrow> port_loop \<times> tunnel" where
  "loop_accept visitor x =
     (case x of (l, s) \<Rightarrow>
        case visitor of
          None \<Rightarrow> (l\<lparr>pl_task := LoopEnded\<rparr>, s)
        | Some v \<Rightarrow>
            let l = l\<lparr>pl_accepted := pl_accepted l @ [v]\<rparr> in
            case request_channel (pl_channel l) s of
              None \<Rightarrow> (l\<lparr>pl_task := LoopEnded\<rparr>, s)
            | Some s \<Rightarrow> (l\<lparr>pl_task := Requested v\<rparr>, s))"

definition loop_queue :: "nat \<Rightarrow> port_loop \<times> tunnel \<Rightarrow> port_loop \<times> tunnel" where
  "loop_queue v x =
     (case x of (l, s) \<Rightarrow> (l\<lparr>pl_task := Awaiting v\<rparr>, queue_visitor (pl_channel l) v (pl_local_port l) s))"

text \<open>The one-shot receiver resolves: with a data channel, or with an error when its sender is gone.\<close>

definition loop_resume :: "nat \<Rightarrow> nat option \<Rightarrow> port_loop \<Rightarrow> port_loop" where
  "loop_resume v data_ch l =
     (case data_ch of Some ch \<Rightarrow> l\<lparr>pl_task := Joined v ch\<rparr> | None \<Rightarrow> l\<lparr>pl_task := Accepting\<rparr>)"

definition loop_start :: "nat \<Rightarrow> nat \<Rightarrow> bool \<Rightarrow> port_loop \<Rightarrow> port_loop" where
  "loop_start v ch ok l =
     (if ok
      then l\<lparr>pl_task := Copying v ch, pl_cmds := pl_cmds l @ [(ch, StartForwardTcp (Some (pl_local_port l)))]\<rparr>
      else l\<lparr>pl_task := Accepting\<rparr>)"

definition loop_copied :: "nat \<Rightarrow> nat \<Rightarrow> port_loop \<Rightarrow> port_loop" where
  "loop_copied v ch l = l\<lparr>pl_task := Accepting, pl_served := pl_served l @ [(v, ch)]\<rparr>"

definition loop_stop :: "port_loop \<Rightarrow> port_loop" where
  "loop_stop l = l\<lparr>pl_task := LoopEnded\<rparr>"

text \<open>
  The loop beside the server. The visitor's sender sits in the queue of callbacks, which the loop itself keeps alive, so the receiver
  fails only if the entry is no longer there. Everything else the server does leaves the entry where it is.
\<close>

inductive port_step :: "server_env \<Rightarrow> port_loop \<times> tunnel \<Rightarrow> port_loop \<times> tunnel \<Rightarrow> bool" for env where
  port_accept: "pl_task l = Accepting \<Longrightarrow> port_step env (l, s) (loop_accept visitor (l, s))"
| port_stop: "pl_task l = Accepting \<Longrightarrow> port_step env (l, s) (loop_stop l, s)"
| port_queue: "pl_task l = Requested v \<Longrightarrow> port_step env (l, s) (loop_queue v (l, s))"
| port_handed: "pl_task l = Awaiting v \<Longrightarrow> mm_get2 (tn_control_channels s) nonce = Some (pl_channel l) \<Longrightarrow>
    do_data_channel_handshake nonce ch s = (s', Inr (ToVisitor v lp)) \<Longrightarrow>
    port_step env (l, s) (loop_resume v (Some ch) l, s')"
| port_cancelled: "pl_task l = Awaiting v \<Longrightarrow> v \<notin> fst ` set (cc_callbacks (tn_ccs s (pl_channel l))) \<Longrightarrow>
    port_step env (l, s) (loop_resume v None l, s)"
| port_start: "pl_task l = Joined v ch \<Longrightarrow> port_step env (l, s) (loop_start v ch ok l, s)"
| port_copied: "pl_task l = Copying v ch \<Longrightarrow> port_step env (l, s) (loop_copied v ch l, s)"
| port_server: "tunnel_step env s s' \<Longrightarrow>
    (\<And>v. pl_task l = Awaiting v \<Longrightarrow> (v, pl_local_port l) \<in> set (cc_callbacks (tn_ccs s (pl_channel l))) \<Longrightarrow>
       (v, pl_local_port l) \<in> set (cc_callbacks (tn_ccs s' (pl_channel l)))) \<Longrightarrow>
    port_step env (l, s) (l, s')"

inductive_cases port_stepE: "port_step env (l, s) y"

lemmas loop_defs = spawn_loop_def loop_accept_def loop_queue_def loop_resume_def loop_start_def loop_copied_def loop_stop_def

lemmas [kdct_simps] = loop_defs

section \<open>Invariant\<close>

fun current_visitor :: "port_task \<Rightarrow> nat list" where
  "current_visitor (Requested v) = [v]"
| "current_visitor (Awaiting v) = [v]"
| "current_visitor (Joined v ch) = [v]"
| "current_visitor (Copying v ch) = [v]"
| "current_visitor _ = []"

definition port_inv :: "nat \<Rightarrow> u16 \<Rightarrow> port_loop \<times> tunnel \<Rightarrow> bool" where
  "port_inv i local_port x \<longleftrightarrow>
     (case x of (l, s) \<Rightarrow>
        pl_channel l = i \<and> pl_local_port l = local_port
        \<and> (\<forall>v. pl_task l = Awaiting v \<longrightarrow> (v, local_port) \<in> set (cc_callbacks (tn_ccs s i)))
        \<and> subseq (map fst (pl_served l) @ current_visitor (pl_task l)) (pl_accepted l)
        \<and> (\<forall>(ch, cmd) \<in> set (pl_cmds l). cmd = StartForwardTcp (Some local_port))
        \<and> map snd (pl_served l) @ (case pl_task l of Copying v ch \<Rightarrow> [ch] | _ \<Rightarrow> []) = map fst (pl_cmds l))"

lemma subseq_snoc: "subseq xs ys \<Longrightarrow> subseq (xs @ [v]) (ys @ [v])"
  by (simp add: list_emb_append_mono)

lemma subseq_prefix: "subseq (xs @ zs) ys \<Longrightarrow> subseq xs ys"
  using list_emb_prefix [of "(=)" xs xs zs] subseq_order.trans [of xs "xs @ zs" ys] by simp

lemma port_inv_start: "port_inv i lp (spawn_loop i lp, s)"
  by (simp add: port_inv_def spawn_loop_def)

lemma port_inv_step:
  assumes inv: "port_inv i lp x" and step: "port_step env x y"
  shows "port_inv i lp y"
  using step
proof cases
  case (port_accept l s visitor)
  then show ?thesis using inv
    by (cases visitor; cases "request_channel (pl_channel l) s")
      (simp_all add: port_inv_def loop_accept_def list_emb_prefix subseq_snoc)
next
  case (port_cancelled l v s)
  then show ?thesis using inv by (force simp: port_inv_def)
next
  case (port_server s s' l)
  then show ?thesis using inv by (simp add: port_inv_def)
qed (use inv in \<open>auto simp: port_inv_def loop_defs queue_visitor_def upd_cc_def split: if_splits dest: subseq_prefix\<close>)

interpretation port: inductive_invariant "\<lambda>x. \<exists>s. x = (spawn_loop i lp, s)" "port_step env" "port_inv i lp" for i lp env
  by unfold_locales (auto simp: port_inv_start intro: port_inv_step)


section \<open>A visitor is served\<close>

lemma port_steps_server: "tunnel_step env s s' \<Longrightarrow> \<forall>v. pl_task l \<noteq> Awaiting v \<Longrightarrow> port_step env (l, s) (l, s')"
  by (rule port_server) simp_all

lemma visitor_accepted:
  "pl_task l = Accepting \<Longrightarrow> ch_alive (tn_channels s (pl_channel l)) \<Longrightarrow>
   port_step env (l, s) (l\<lparr>pl_accepted := pl_accepted l @ [v], pl_task := Requested v\<rparr>,
     upd_cc (pl_channel l) (\<lambda>c. c\<lparr>cc_requests := Suc (cc_requests c)\<rparr>) s)"
  using port_accept [of l env s "Some v"] by (simp add: loop_accept_def request_channel_def)

lemma visitor_queued:
  "port_step env (l\<lparr>pl_accepted := vs, pl_task := Requested v\<rparr>, s)
     (l\<lparr>pl_accepted := vs, pl_task := Awaiting v\<rparr>, queue_visitor (pl_channel l) v (pl_local_port l) s)"
  using port_queue [of "l\<lparr>pl_accepted := vs, pl_task := Requested v\<rparr>" v env s] by (simp add: loop_queue_def)

text \<open>A channel with nothing queued, waiting for commands, whose handle is found under its key.\<close>

definition idle_channel :: "digest \<Rightarrow> nat \<Rightarrow> tunnel \<Rightarrow> bool" where
  "idle_channel key i s \<longleftrightarrow>
     i < tn_next s \<and> mm_get2 (tn_control_channels s) key = Some i \<and> ch_alive (tn_channels s i)
     \<and> cc_task (tn_ccs s i) = Waiting \<and> cc_requests (tn_ccs s i) = 0 \<and> cc_port_pending (tn_ccs s i) = []
     \<and> cc_callbacks (tn_ccs s i) = [] \<and> cc_pool_alive (tn_ccs s i)"

lemma visitor_run:
  assumes "idle_channel key (pl_channel l) s" "pl_task l = Accepting"
  defines "i \<equiv> pl_channel l"
  shows "\<exists>l' t. (port_step env)\<^sup>*\<^sup>* (l, s) (l', t) \<and> pl_task l' = Copying v ch
    \<and> pl_cmds l' = pl_cmds l @ [(ch, StartForwardTcp (Some (pl_local_port l)))]
    \<and> cc_wire (tn_ccs t i) = cc_wire (tn_ccs s i) @ [CreateDataChannel]
    \<and> cc_requests (tn_ccs t i) = 0 \<and> cc_callbacks (tn_ccs t i) = [] \<and> cc_pool (tn_ccs t i) = cc_pool (tn_ccs s i)"
proof -
  let ?lp = "pl_local_port l"
  let ?l1 = "l\<lparr>pl_accepted := pl_accepted l @ [v], pl_task := Requested v\<rparr>"
  let ?l2 = "l\<lparr>pl_accepted := pl_accepted l @ [v], pl_task := Awaiting v\<rparr>" let ?l3 = "?l1\<lparr>pl_task := Joined v ch\<rparr>"
  let ?l4 = "?l1\<lparr>pl_task := Copying v ch, pl_cmds := pl_cmds l @ [(ch, StartForwardTcp (Some ?lp))]\<rparr>"
  let ?s1 = "upd_cc i (\<lambda>c. c\<lparr>cc_requests := Suc (cc_requests c)\<rparr>) s"
  let ?s2 = "serve_request i True ?s1" let ?s3 = "queue_visitor i v ?lp ?s2"
  let ?s4 = "upd_cc i (\<lambda>c. c\<lparr>cc_callbacks := []\<rparr>) ?s3"
  note idle = assms(1) [folded i_def, unfolded idle_channel_def]
  have s2: "?s2 = upd_cc i (\<lambda>c. c\<lparr>cc_requests := 0, cc_wire := cc_wire c @ [CreateDataChannel]\<rparr>) s"
    using idle by (simp add: serve_request_def write_cmd_def) (simp add: upd_cc_def)
  have "port_step env (l, s) (?l1, ?s1)" using visitor_accepted [OF assms(2)] idle by (simp add: i_def)
  moreover have "port_step env (?l1, ?s1) (?l1, ?s2)"
    by (rule port_steps_server [OF step_request]) (use idle in simp_all)
  moreover have "port_step env (?l1, ?s2) (?l2, ?s3)"
    using visitor_queued by (simp add: i_def)
  moreover have "port_step env (?l2, ?s3) (?l3, ?s4)"
  proof -
    have m: "mm_get2 (tn_control_channels ?s3) key = Some i" using idle by (simp add: queue_visitor_def s2)
    have "do_data_channel_handshake key ch ?s3 = (?s4, Inr (ToVisitor v ?lp))"
      by (rule data_to_visitor [OF m]) (use idle in \<open>simp_all add: queue_visitor_def s2\<close>)
    from port_handed [of ?l2, OF _ _ this] m show ?thesis by (simp add: loop_resume_def i_def)
  qed
  moreover have "port_step env (?l3, ?s4) (?l4, ?s4)"
    using port_start [of ?l3 v ch env ?s4 True] by (simp add: loop_start_def)
  ultimately have "(port_step env)\<^sup>*\<^sup>* (l, s) (?l4, ?s4)" by (meson converse_rtranclp_into_rtranclp rtranclp.rtrancl_refl)
  moreover have "cc_wire (tn_ccs ?s4 i) = cc_wire (tn_ccs s i) @ [CreateDataChannel]" "cc_requests (tn_ccs ?s4 i) = 0"
    "cc_callbacks (tn_ccs ?s4 i) = []" "cc_pool (tn_ccs ?s4 i) = cc_pool (tn_ccs s i)"
    by (simp_all add: queue_visitor_def s2)
  ultimately show ?thesis by (intro exI [of _ ?l4] exI [of _ ?s4]) simp
qed

text \<open>
  C28. A visitor of a forwarded port reaches the node: the loop accepts it, the control channel passes the request for a data channel on, and
  the data channel that answers is joined to this visitor and told to lead to the forwarded local port, where the client connects to
  it. Nothing stays queued.
\<close>

theorem visitor_reaches_local_port:
  assumes "idle_channel key (pl_channel l) s" "pl_task l = Accepting"
  defines "i \<equiv> pl_channel l"
  shows "\<exists>l' t. (port_step env)\<^sup>*\<^sup>* (l, s) (l', t) \<and> pl_task l' = Copying v ch
    \<and> pl_cmds l' = pl_cmds l @ [(ch, StartForwardTcp (Some (pl_local_port l)))]
    \<and> data_channel_target service (snd (last (pl_cmds l'))) = Inr (ForwardTcp (''127.0.0.1:'' @ show_nat (unat (pl_local_port l))))
    \<and> cc_wire (tn_ccs t i) = cc_wire (tn_ccs s i) @ [CreateDataChannel]
    \<and> cc_requests (tn_ccs t i) = 0 \<and> cc_callbacks (tn_ccs t i) = [] \<and> cc_pool (tn_ccs t i) = cc_pool (tn_ccs s i)"
  using visitor_run [OF assms(1,2), of env v ch] by (fastforce simp: i_def data_channel_target_def)

text \<open>
  A visitor can miss its data channel. The loop asks for the channel before it queues the visitor; a channel that arrives in
  between goes to the pool, which no visitor of a forwarded port is ever served from. The visitor then waits although its
  request has been answered and no other is outstanding.
\<close>

theorem early_data_channel_missed:
  assumes "idle_channel key (pl_channel l) s" "pl_task l = Accepting"
  defines "i \<equiv> pl_channel l"
  shows "\<exists>l' t. (port_step env)\<^sup>*\<^sup>* (l, s) (l', t) \<and> pl_task l' = Awaiting v
    \<and> cc_wire (tn_ccs t i) = cc_wire (tn_ccs s i) @ [CreateDataChannel] \<and> cc_pool (tn_ccs t i) = cc_pool (tn_ccs s i) @ [ch]
    \<and> cc_callbacks (tn_ccs t i) = [(v, pl_local_port l)] \<and> cc_requests (tn_ccs t i) = 0"
proof -
  let ?lp = "pl_local_port l"
  let ?l1 = "l\<lparr>pl_accepted := pl_accepted l @ [v], pl_task := Requested v\<rparr>"
  let ?l2 = "l\<lparr>pl_accepted := pl_accepted l @ [v], pl_task := Awaiting v\<rparr>"
  let ?s1 = "upd_cc i (\<lambda>c. c\<lparr>cc_requests := Suc (cc_requests c)\<rparr>) s"
  let ?s2 = "serve_request i True ?s1" let ?s3 = "fst (do_data_channel_handshake key ch ?s2)"
  let ?s4 = "queue_visitor i v ?lp ?s3"
  note idle = assms(1) [folded i_def, unfolded idle_channel_def]
  have s2: "?s2 = upd_cc i (\<lambda>c. c\<lparr>cc_requests := 0, cc_wire := cc_wire c @ [CreateDataChannel]\<rparr>) s"
    using idle by (simp add: serve_request_def write_cmd_def) (simp add: upd_cc_def)
  have s3: "?s3 = upd_cc i (\<lambda>c. c\<lparr>cc_pool := cc_pool c @ [ch]\<rparr>) ?s2"
    using data_to_pool [of ?s2 key i ch] idle by (simp add: s2)
  have "port_step env (l, s) (?l1, ?s1)" using visitor_accepted [OF assms(2)] idle by (simp add: i_def)
  moreover have "port_step env (?l1, ?s1) (?l1, ?s2)"
    by (rule port_steps_server [OF step_request]) (use idle in simp_all)
  moreover have "port_step env (?l1, ?s2) (?l1, ?s3)" by (rule port_steps_server [OF step_data]) simp
  moreover have "port_step env (?l1, ?s3) (?l2, ?s4)"
    using visitor_queued by (simp add: i_def)
  ultimately have "(port_step env)\<^sup>*\<^sup>* (l, s) (?l2, ?s4)" by (meson converse_rtranclp_into_rtranclp rtranclp.rtrancl_refl)
  moreover have "cc_wire (tn_ccs ?s4 i) = cc_wire (tn_ccs s i) @ [CreateDataChannel]" "cc_requests (tn_ccs ?s4 i) = 0"
    "cc_callbacks (tn_ccs ?s4 i) = [(v, ?lp)]" "cc_pool (tn_ccs ?s4 i) = cc_pool (tn_ccs s i) @ [ch]"
    unfolding s3 using idle by (simp_all add: queue_visitor_def s2)
  ultimately show ?thesis by (intro exI [of _ ?l2] exI [of _ ?s4]) simp
qed

section \<open>When the node disconnects\<close>

lemma advance_callbacks [simp]: "cc_callbacks (tn_ccs (advance env new_v4 j s) k) = cc_callbacks (tn_ccs s k)"
  by (cases "cc_task (tn_ccs s j)")
    (auto simp: advance_defs Let_def goto_def split: option.splits resolve.splits prod.splits)

lemma port_leaves:
  assumes j: "j < tn_next s" "cc_task (tn_ccs s j) = Waiting"
  shows "(port_step env)\<^sup>*\<^sup>* (l, s) (l, leave env new_v4 j s)"
proof -
  have "port_step env (l, s) (l, goto j Leaving s)"
    by (rule port_server [OF step_break [OF j]]) (auto simp: goto_def)
  moreover have "(port_step env)\<^sup>*\<^sup>* (l, t) (l, (advance env new_v4 j ^^ n) t)"
    if "j < tn_next t" "\<And>rep. cc_task (tn_ccs t j) \<noteq> Reporting rep" "\<And>rep online. cc_task (tn_ccs t j) \<noteq> Resolving rep online" for t n
    using that
  proof (induction n arbitrary: t)
    case (Suc n)
    have "port_step env (l, t) (l, advance env new_v4 j t)"
      using Suc.prems by (intro port_server advance_step) auto
    moreover have "(port_step env)\<^sup>*\<^sup>* (l, advance env new_v4 j t) (l, (advance env new_v4 j ^^ n) (advance env new_v4 j t))"
      by (rule Suc.IH) (use Suc.prems advance_not_resolving advance_not_reporting in auto)
    ultimately show ?case by (simp add: funpow_swap1 converse_rtranclp_into_rtranclp)
  qed simp
  from this [of "goto j Leaving s" 4]
  have "(port_step env)\<^sup>*\<^sup>* (l, goto j Leaving s) (l, leave env new_v4 j s)"
    using j(1) by (simp add: leave_def goto_def)
  ultimately show ?thesis by (rule converse_rtranclp_into_rtranclp)
qed

definition unhandled :: "nat \<Rightarrow> tunnel \<Rightarrow> bool" where
  "unhandled i s \<longleftrightarrow> (\<forall>k. mm_get2 (tn_control_channels s) k \<noteq> Some i)"

lemma waits_for_ever:
  assumes "(\<lambda>x y. port_step env x y \<and> unhandled i (snd x))\<^sup>*\<^sup>* (l, s) y" "port_inv i lp (l, s)" "pl_task l = Awaiting v"
  shows "fst y = l \<and> port_inv i lp y"
  using assms(1)
proof (induction rule: rtranclp_induct)
  case base
  show ?case using assms(2) by simp
next
  case (step y z)
  obtain t where y: "y = (l, t)" using step.IH by (cases y) simp
  have inv: "port_inv i lp (l, t)" using step.IH y by simp
  have "port_step env (l, t) z" using step.hyps(2) y by simp
  then show ?case
  proof (rule port_stepE)
    fix v' nonce ch s' lp'
    assume "mm_get2 (tn_control_channels t) nonce = Some (pl_channel l)"
    then show ?thesis using step.hyps(2) inv by (simp add: y unhandled_def port_inv_def)
  next
    fix v' assume "pl_task l = Awaiting v'" "v' \<notin> fst ` set (cc_callbacks (tn_ccs t (pl_channel l)))"
    then show ?thesis using inv by (force simp: port_inv_def)
  next
    fix s' assume "z = (l, s')"
    then show ?thesis using port_inv_step [OF inv, of env z] step.hyps(2) y by simp
  qed (use assms(3) in simp_all)
qed

text \<open>
  When a node's connection ends while a visitor of a forwarded port waits for its data channel, the forward is lost for good: the
  handle is gone, so that no data channel reaches the queue any more, the receiver never fails, as the loop
  itself keeps the sender alive, and the signal to stop is not looked at. Whatever happens from then on, the loop stays where it is.
\<close>

theorem disconnect_strands_waiting_visitor:
  assumes i: "i < tn_next s" "cc_task (tn_ccs s i) = Waiting" "ch_alive (tn_channels s i)"
    and id: "cc_node_uuid (tn_ccs s i) = Some u" "cc_node_uuid_slot (tn_ccs s i) = Some u" "cc_hostname (tn_ccs s i) = Some h"
    and wf: "mm_wf (tn_control_channels s)"
    and own: "\<forall>(a, b, w) \<in> mm_items (tn_control_channels s). w = i \<longrightarrow> a = cc_channel_id (tn_ccs s i)"
  shows "\<exists>l t. (port_step env)\<^sup>*\<^sup>* (spawn_loop i lp, s) (l, t) \<and> pl_task l = Awaiting v \<and> cc_task (tn_ccs t i) = Gone \<and> unhandled i t
    \<and> (\<forall>l' t'. (\<lambda>x y. port_step env x y \<and> unhandled i (snd x))\<^sup>*\<^sup>* (l, t) (l', t') \<longrightarrow> l' = l)"
proof -
  let ?l0 = "spawn_loop i lp"
  let ?l1 = "?l0\<lparr>pl_accepted := pl_accepted ?l0 @ [v], pl_task := Requested v\<rparr>"
  let ?l2 = "?l0\<lparr>pl_accepted := pl_accepted ?l0 @ [v], pl_task := Awaiting v\<rparr>"
  let ?s1 = "upd_cc i (\<lambda>c. c\<lparr>cc_requests := Suc (cc_requests c)\<rparr>) s" let ?s2 = "queue_visitor i v lp ?s1"
  let ?t = "leave env [] i ?s2"
  have l0: "pl_channel ?l0 = i" "pl_local_port ?l0 = lp" "pl_task ?l0 = Accepting" by (simp_all add: spawn_loop_def)
  have "port_step env (?l0, s) (?l1, ?s1)" using visitor_accepted [of ?l0 s env v] i(3) l0 by simp
  moreover have "port_step env (?l1, ?s1) (?l2, ?s2)"
    using visitor_queued [where l = ?l0 and s = ?s1] l0 by simp
  moreover have "(port_step env)\<^sup>*\<^sup>* (?l2, ?s2) (?l2, ?t)"
    by (rule port_leaves) (use i in \<open>simp_all add: queue_visitor_def\<close>)
  ultimately have run: "(port_step env)\<^sup>*\<^sup>* (?l0, s) (?l2, ?t)" by (meson converse_rtranclp_into_rtranclp)
  have t: "?t = ?s2\<lparr>tn_channels := tn_channels ?t, tn_updates := tn_updates ?t, tn_uuid_index := tn_uuid_index ?t,
      tn_registry := tn_registry ?t, tn_control_channels := fst (mm_remove1 (cc_channel_id (tn_ccs s i)) (tn_control_channels s)),
      tn_ccs := (tn_ccs ?s2)(i := (tn_ccs ?s2 i)\<lparr>cc_task := Gone\<rparr>)\<rparr>"
    by (subst leave_eq [where u = u and h = h]) (use id in \<open>simp_all add: queue_visitor_def leave_eq [where u = u and h = h]\<close>)
  have "unhandled i ?t"
    using mm.rem1 [OF wf, of "cc_channel_id (tn_ccs s i)"] mm.get2 own by (subst t) (fastforce simp: unhandled_def)
  moreover have "cc_task (tn_ccs ?t i) = Gone" by (subst t) simp
  moreover have "port_inv i lp (?l2, ?t)" using port.steps_inv [OF run] port_inv_start by blast
  ultimately show ?thesis
    using run waits_for_ever [of env i ?l2 ?t _ lp v] by (intro exI [of _ ?l2] exI [of _ ?t]) fastforce
qed

section \<open>Sample runs\<close>

text \<open>One client has connected and its first requests for data channels have been passed on.\<close>

definition sample_tunnel :: tunnel where
  "sample_tunnel = (serve_request 0 True ^^ 8) (insert_handle 0 (spawn_channel [1] [5] [5] (server_from [])))"

lemma sample_tunnel_eq:
  "sample_tunnel = upd_cc 0 (\<lambda>c. c\<lparr>cc_requests := 0, cc_wire := replicate 8 CreateDataChannel\<rparr>)
     (insert_handle 0 (spawn_channel [1] [5] [5] (server_from [])))"
  by (simp add: sample_tunnel_def insert_handle_def spawn_channel_def server_from_def new_channel_def TCP_POOL_SIZE_def
      serve_request_def write_cmd_def upd_cc_def eval_nat_numeral)

lemma sample_handles:
  "mm_get2 (tn_control_channels sample_tunnel) [5] = Some 0" "mm_wf (tn_control_channels sample_tunnel)"
  "mm_items (tn_control_channels sample_tunnel) = {([5], [5], 0)}"
proof -
  let ?m = "fst (mm_insert [5] [5] 0 (mm_new :: (digest, digest, nat) multi_map))"
  have m: "tn_control_channels sample_tunnel = ?m"
    by (simp add: sample_tunnel_eq insert_handle_def spawn_channel_def server_from_def new_channel_def)
  have "mm_wf ?m \<and> mm_items ?m = {([5], [5], 0)}"
    using mm.ins_free [OF mm.new(1), of "[5]" "[5]" 0] mm.new(2) by auto
  then show "mm_get2 (tn_control_channels sample_tunnel) [5] = Some 0" "mm_wf (tn_control_channels sample_tunnel)"
    "mm_items (tn_control_channels sample_tunnel) = {([5], [5], 0)}"
    unfolding m using mm.get2 [of ?m "[5]" 0] by auto
qed

lemma sample_idle: "idle_channel [5] 0 sample_tunnel"
  using sample_handles(1)
  by (simp add: idle_channel_def) (simp add: sample_tunnel_eq insert_handle_def spawn_channel_def server_from_def new_channel_def)

theorem visitor_reaches_local_port_witness:
  "\<exists>l t. (port_step sample_env)\<^sup>*\<^sup>* (spawn_loop 0 8080, sample_tunnel) (l, t) \<and> pl_task l = Copying 7 9
    \<and> pl_cmds l = [(9, StartForwardTcp (Some 8080))] \<and> cc_callbacks (tn_ccs t 0) = []"
  using visitor_reaches_local_port [of "[5]" "spawn_loop 0 8080" sample_tunnel sample_env 7 9 client_service_default] sample_idle
  by (fastforce simp: spawn_loop_def)


theorem early_data_channel_missed_witness:
  "\<exists>l t. (port_step sample_env)\<^sup>*\<^sup>* (spawn_loop 0 8080, sample_tunnel) (l, t) \<and> pl_task l = Awaiting 7
    \<and> cc_callbacks (tn_ccs t 0) = [(7, 8080)] \<and> cc_requests (tn_ccs t 0) = 0"
  using early_data_channel_missed [of "[5]" "spawn_loop 0 8080" sample_tunnel sample_env 7 9] sample_idle
  by (auto simp: spawn_loop_def)

theorem disconnect_strands_waiting_visitor_witness:
  "let s = goto 0 Waiting (publish_connected sample_env 0 (sample_report (Some ''u'')) ''u'' sample_tunnel) in
   \<exists>l t. (port_step sample_env)\<^sup>*\<^sup>* (spawn_loop 0 8080, s) (l, t) \<and> pl_task l = Awaiting 7 \<and> cc_task (tn_ccs t 0) = Gone \<and> unhandled 0 t"
proof -
  let ?s = "goto 0 Waiting (publish_connected sample_env 0 (sample_report (Some ''u'')) ''u'' sample_tunnel)"
  have m: "tn_control_channels ?s = tn_control_channels sample_tunnel"
    by (simp add: goto_def publish_connected_def)
  have "cc_channel_id (tn_ccs ?s 0) = [5]" "0 < tn_next ?s" "ch_alive (tn_channels ?s 0)"
    by (simp_all add: goto_def publish_connected_def) (simp_all add: sample_tunnel_eq insert_handle_def spawn_channel_def server_from_def new_channel_def)
  then show ?thesis
    using disconnect_strands_waiting_visitor [of 0 ?s "''u''" "nr_hostname (sample_report (Some ''u''))" sample_env 8080 7] sample_handles
    unfolding Let_def by (fastforce simp: m goto_def publish_connected_def)
qed

end
