(* ===== verification/Relay_Loops.thy ===== *)
theory Relay_Loops
  imports Client_Agent
begin

text \<open>
  The loops that keep the tunnel running, \<^verbatim>\<open>crates/tunnel/src/server.rs\<close>: the server's accept loop, the listener and the pool of a service port, and the
  two relays of UDP datagrams, together with the client's end of a UDP data channel (\<^verbatim>\<open>client.rs\<close>). What wakes a loop up is a list of events; a loop whose
  events are used up is waiting. The back-off policy is the crate's, a parameter.
\<close>

section \<open>Accepting connections\<close>

text \<open>Accepting fails (with an input/output error or another one), a connection comes in, or the signal to stop.\<close>

datatype 'c accept_event = AcceptFails bool | Accepted 'c | StopSignal

datatype loop_end = ShutDown | GaveUp | RequestsClosed | StillRunning

text \<open>The connections handed to \<^verbatim>\<open>handle_connection\<close>, in order, and how the loop ended.\<close>

fun accept_loop :: "'b backoff \<Rightarrow> ('c \<Rightarrow> 's option) \<Rightarrow> 'b \<Rightarrow> 'c accept_event list \<Rightarrow> 's list \<times> loop_end" where
  "accept_loop bo handshake b [] = ([], StillRunning)"
| "accept_loop bo handshake b (AcceptFails io # evs) =
     (if io then
        (case bo_next bo b of
           (b, Some d) \<Rightarrow> accept_loop bo handshake b evs
         | (b, None) \<Rightarrow> ([], GaveUp))
      else accept_loop bo handshake b evs)"
| "accept_loop bo handshake b (Accepted conn # evs) =
     (case accept_loop bo handshake (bo_reset bo b) evs of
        (conns, e) \<Rightarrow> (case handshake conn of Some c \<Rightarrow> (c # conns, e) | None \<Rightarrow> (conns, e)))"
| "accept_loop bo handshake b (StopSignal # evs) = ([], ShutDown)"

definition server_run ::
  "bool \<Rightarrow> 'b backoff \<Rightarrow> 'b \<Rightarrow> 'c accept_event list \<Rightarrow> net_error + 'c list \<times> loop_end" where
  "server_run bind_ok bo b evs =
     (if bind_ok then Inr (accept_loop bo tcp_handshake b evs) else Inl (BindFailed ''server.bind_addr''))"

section \<open>The service port\<close>

text \<open>
  The listener of a service port. A visitor comes with whether the queue of requests is still open; each visitor asks for one data channel
  and is then passed on. The result are the visitors passed on, the number of requests, and how the loop ended.
\<close>

fun listen_loop :: "'b backoff \<Rightarrow> 'b \<Rightarrow> ('v \<times> bool) accept_event list \<Rightarrow> 'v list \<times> nat \<times> loop_end" where
  "listen_loop bo b [] = ([], 0, StillRunning)"
| "listen_loop bo b (AcceptFails io # evs) =
     (case bo_next bo b of (b, Some d) \<Rightarrow> listen_loop bo b evs | (b, None) \<Rightarrow> ([], 0, GaveUp))"
| "listen_loop bo b (Accepted (v, is_open) # evs) =
     (if \<not> is_open then ([], 0, RequestsClosed)
      else case listen_loop bo (bo_reset bo b) evs of (vs, n, e) \<Rightarrow> (v # vs, Suc n, e))"
| "listen_loop bo b (StopSignal # evs) = ([], 0, ShutDown)"

definition tcp_listen_and_send ::
  "(net_error + unit) option \<Rightarrow> 'b backoff \<Rightarrow> 'b \<Rightarrow> ('v \<times> bool) accept_event list \<Rightarrow> net_error + 'v list \<times> nat \<times> loop_end" where
  "tcp_listen_and_send bound bo b evs =
     (case retry_notify_with_deadline bound of Inl e \<Rightarrow> Inl e | Inr _ \<Rightarrow> Inr (listen_loop bo b evs))"

text \<open>
  The pool pairs a visitor with the first data channel that still takes the start command (\<open>ok\<close>), and asks for a replacement for each one that does not, unless the queue of requests is
  closed by then (\<open>rq\<close>), which ends the pool. Out of data channels, the visitor waits.
\<close>

datatype pool_outcome = PoolServed nat "nat list" nat | PoolDry nat | PoolClosed nat

fun pool_serve :: "(nat \<Rightarrow> bool) \<Rightarrow> (nat \<Rightarrow> bool) \<Rightarrow> nat list \<Rightarrow> nat \<Rightarrow> pool_outcome" where
  "pool_serve rq ok [] asked = PoolDry asked"
| "pool_serve rq ok (ch # chs) asked =
     (if ok ch then PoolServed ch chs asked
      else if rq ch then pool_serve rq ok chs (Suc asked) else PoolClosed asked)"

text \<open>
  Visitors joined to data channels, the visitors and channels left, the requests made, and whether the pool is still running.
\<close>

fun pool_loop ::
  "(nat \<Rightarrow> bool) \<Rightarrow> (nat \<Rightarrow> bool) \<Rightarrow> 'v list \<Rightarrow> nat list \<Rightarrow> nat \<Rightarrow> ('v \<times> nat) list \<times> 'v list \<times> nat list \<times> nat \<times> loop_end" where
  "pool_loop rq ok [] chs asked = ([], [], chs, asked, StillRunning)"
| "pool_loop rq ok (v # vs) chs asked =
     (case pool_serve rq ok chs asked of
        PoolDry asked \<Rightarrow> ([], v # vs, [], asked, StillRunning)
      | PoolClosed asked \<Rightarrow> ([], [], [], asked, RequestsClosed)
      | PoolServed ch chs asked \<Rightarrow> (case pool_loop rq ok vs chs asked of (js, r) \<Rightarrow> ((v, ch) # js, r)))"

definition run_tcp_connection_pool ::
  "(net_error + unit) option \<Rightarrow> 'b backoff \<Rightarrow> 'b \<Rightarrow> ('v \<times> bool) accept_event list \<Rightarrow> (nat \<Rightarrow> bool) \<Rightarrow> (nat \<Rightarrow> bool) \<Rightarrow> nat list
     \<Rightarrow> ('v \<times> nat) list \<times> 'v list \<times> nat list \<times> nat \<times> loop_end" where
  "run_tcp_connection_pool bound bo b evs rq ok chs =
     (case tcp_listen_and_send bound bo b evs of
        Inl e \<Rightarrow> ([], [], chs, 0, ShutDown)
      | Inr (visitors, requested, _) \<Rightarrow> pool_loop rq ok visitors chs requested)"

text \<open>
  Which pool a control channel starts. The services of the configuration are indexed by the digest of their name, but the handshake makes up the service of a channel
  itself: a TCP service on a port of the loopback interface that the system chooses.
\<close>

definition UDP_POOL_SIZE :: nat where "UDP_POOL_SIZE = 2"

definition generate_service_hashmap ::
  "(bytes \<Rightarrow> digest) \<Rightarrow> server_config \<Rightarrow> (digest, server_service_config) hmap" where
  "generate_service_hashmap dig config =
     fold (\<lambda>(name, service). hm_insert (dig (map of_char name)) service) (sc_services config) []"

definition channel_service :: "(digest \<Rightarrow> string) \<Rightarrow> server_config \<Rightarrow> digest \<Rightarrow> server_service_config" where
  "channel_service hex config service_digest =
     \<lparr>ss_service_type = ServiceTcp, ss_name = hex service_digest, ss_bind_addr = ''127.0.0.1:0'',
      ss_token = Some (sc_default_token config), ss_nodelay = None\<rparr>"

datatype service_pool = TcpPool string | UdpPool string

definition start_pool :: "server_service_config \<Rightarrow> nat \<times> service_pool" where
  "start_pool service =
     (case ss_service_type service of
        ServiceTcp \<Rightarrow> (TCP_POOL_SIZE, TcpPool (ss_bind_addr service))
      | ServiceUdp \<Rightarrow> (UDP_POOL_SIZE, UdpPool (ss_bind_addr service)))"

section \<open>Relaying datagrams\<close>

text \<open>
  A relay between a UDP socket and a data channel: the bytes written to the channel, the bytes of it not yet read, and the datagrams sent back to
  visitors. A datagram arrives (with whether the channel takes it), the socket fails, the channel has something to
  read (with whether the socket takes the datagram), or the signal to stop.
\<close>

record 'a relay =
  rl_out :: bytes
  rl_in :: bytes
  rl_sent :: "'a udp_traffic list"

datatype 'a relay_event = Datagram 'a bytes bool | SocketFails | ChannelReadable bool | RelayStop

datatype relay_end = RelayFailed | RelayStopped | RelayPanicked | RelayWaiting

text \<open>A datagram is read into a buffer of fixed size; what does not fit is cut off.\<close>

definition relay_datagram ::
  "('a udp_header \<Rightarrow> bytes option) \<Rightarrow> 'a \<Rightarrow> bytes \<Rightarrow> bool \<Rightarrow> 'a relay \<Rightarrow> 'a relay \<times> relay_end" where
  "relay_datagram ser from data ok r =
     (case udp_write_slice ser from (take UDP_BUFFER_SIZE data) of
        None \<Rightarrow> (r, RelayPanicked)
      | Some bs \<Rightarrow> if ok then (r\<lparr>rl_out := rl_out r @ bs\<rparr>, RelayWaiting) else (r, RelayFailed))"

definition port_udp_turn ::
  "('a udp_header \<Rightarrow> bytes option) \<Rightarrow> (bytes \<Rightarrow> 'a udp_header option) \<Rightarrow> 'a relay_event \<Rightarrow> 'a relay \<Rightarrow> 'a relay \<times> relay_end" where
  "port_udp_turn ser de ev r =
     (case ev of
        Datagram from data ok \<Rightarrow> relay_datagram ser from data ok r
      | SocketFails \<Rightarrow> (r, RelayFailed)
      | ChannelReadable ok \<Rightarrow>
          (case udp_read_one de (rl_in r) of
             Inl e \<Rightarrow> (r, RelayFailed)
           | Inr (t, rest) \<Rightarrow>
               (r\<lparr>rl_in := rest, rl_sent := (if ok then rl_sent r @ [t] else rl_sent r)\<rparr>, RelayWaiting))
      | RelayStop \<Rightarrow> (r, RelayStopped))"

definition udp_pool_turn ::
  "('a udp_header \<Rightarrow> bytes option) \<Rightarrow> (bytes \<Rightarrow> 'a udp_header option) \<Rightarrow> 'a relay_event \<Rightarrow> 'a relay \<Rightarrow> 'a relay \<times> relay_end" where
  "udp_pool_turn ser de ev r =
     (case ev of
        Datagram from data ok \<Rightarrow> relay_datagram ser from data ok r
      | SocketFails \<Rightarrow> (r, RelayFailed)
      | ChannelReadable ok \<Rightarrow>
          (case udp_read_one de (rl_in r) of
             Inl e \<Rightarrow> (r, RelayFailed)
           | Inr (t, rest) \<Rightarrow>
               if ok then (r\<lparr>rl_in := rest, rl_sent := rl_sent r @ [t]\<rparr>, RelayWaiting)
               else (r\<lparr>rl_in := rest\<rparr>, RelayFailed))
      | RelayStop \<Rightarrow> (r, RelayStopped))"

fun relay_loop :: "('e \<Rightarrow> 'r \<Rightarrow> 'r \<times> relay_end) \<Rightarrow> 'e list \<Rightarrow> 'r \<Rightarrow> 'r \<times> relay_end" where
  "relay_loop turn [] r = (r, RelayWaiting)"
| "relay_loop turn (ev # evs) r =
     (case turn ev r of (r, RelayWaiting) \<Rightarrow> relay_loop turn evs r | (r, e) \<Rightarrow> (r, e))"

text \<open>
  Before it relays, the loop of a forwarded UDP port binds its socket, asks for a data channel and queues for it, under the server's port; the data channel
  is started by \<^const>\<open>StartForwardUdp\<close>, which names no port.
\<close>

definition port_udp_begin :: "bool \<Rightarrow> nat \<Rightarrow> nat \<Rightarrow> u16 \<Rightarrow> tunnel \<Rightarrow> tunnel option" where
  "port_udp_begin bound i waiter server_port s =
     (if \<not> bound then None
      else map_option (queue_visitor i waiter server_port) (request_channel i s))"

definition run_port_udp ::
  "('a udp_header \<Rightarrow> bytes option) \<Rightarrow> (bytes \<Rightarrow> 'a udp_header option) \<Rightarrow> bool \<Rightarrow> 'a relay_event list \<Rightarrow> bytes
     \<Rightarrow> (data_cmd list \<times> 'a relay) \<times> relay_end" where
  "run_port_udp ser de start_ok evs inp =
     (let r = \<lparr>rl_out = [], rl_in = inp, rl_sent = []\<rparr> in
      if start_ok then (case relay_loop (port_udp_turn ser de) evs r of (r, e) \<Rightarrow> (([StartForwardUdp], r), e))
      else (([], r), RelayFailed))"

definition run_udp_connection_pool ::
  "('a udp_header \<Rightarrow> bytes option) \<Rightarrow> (bytes \<Rightarrow> 'a udp_header option) \<Rightarrow> (net_error + unit) option \<Rightarrow> bool \<Rightarrow> bool
     \<Rightarrow> 'a relay_event list \<Rightarrow> bytes \<Rightarrow> (data_cmd list \<times> 'a relay) \<times> relay_end" where
  "run_udp_connection_pool ser de bound got_channel start_ok evs inp =
     (let r = \<lparr>rl_out = [], rl_in = inp, rl_sent = []\<rparr> in
      case retry_notify_with_deadline bound of
        Inl e \<Rightarrow> (([], r), RelayFailed)
      | Inr _ \<Rightarrow>
          if got_channel \<and> start_ok
          then (case relay_loop (udp_pool_turn ser de) evs r of (r, e) \<Rightarrow> (([StartForwardUdp], r), e))
          else (([], r), RelayFailed))"

section \<open>The client's end\<close>

text \<open>
  \<^verbatim>\<open>run_data_channel_for_udp\<close>: datagrams are read off the channel and put into the queue of their source until reading fails. \<open>can\<close> is
  whether a socket can be made for a source.
\<close>

lemma udp_read_one_shorter: "udp_read_one de inp = Inr (p, rest) \<Longrightarrow> length rest < length inp"
  by (cases inp) (auto simp: udp_read_one_def udp_read_def read_exact_def split: option.splits if_splits)

function udp_channel_loop ::
  "(bytes \<Rightarrow> 'a udp_header option) \<Rightarrow> ('a \<Rightarrow> bool) \<Rightarrow> bytes \<Rightarrow> 'a udp_map \<Rightarrow> 'a udp_map \<times> proto_error" where
  "udp_channel_loop de can inp m =
     (case udp_read_one de inp of
        Inl e \<Rightarrow> (m, e)
      | Inr (p, rest) \<Rightarrow> udp_channel_loop de can rest (udp_packet (can (ut_from p)) p m))"
  by pat_completeness auto
termination
  by (relation "measure (\<lambda>(de, can, inp, m). length inp)") (auto dest: udp_read_one_shorter)

declare udp_channel_loop.simps [simp del]

text \<open>The task that writes what the forwarders receive back to the channel; it ends at the first write that fails.\<close>

fun outbound_loop :: "('a udp_header \<Rightarrow> bytes option) \<Rightarrow> ('a udp_traffic \<times> bool) list \<Rightarrow> bytes option" where
  "outbound_loop ser [] = Some []"
| "outbound_loop ser ((t, ok) # ts) =
     (case udp_write ser t of
        None \<Rightarrow> None
      | Some bs \<Rightarrow> if ok then map_option (\<lambda>r. bs @ r) (outbound_loop ser ts) else Some [])"

lemmas [kdct_simps] = server_run_def tcp_listen_and_send_def run_tcp_connection_pool_def relay_datagram_def port_udp_turn_def
  udp_pool_turn_def port_udp_begin_def run_port_udp_def run_udp_connection_pool_def

section \<open>Accept loops\<close>

lemma patient_next: "patient bo \<Longrightarrow> \<exists>b' d. bo_next bo b = (b', Some d)"
  unfolding patient_def by (metis not_None_eq surjective_pairing)

fun accepted :: "'c accept_event \<Rightarrow> 'c option" where
  "accepted (Accepted c) = Some c"
| "accepted _ = None"

definition before_stop :: "'c accept_event list \<Rightarrow> 'c accept_event list" where
  "before_stop evs = takeWhile (\<lambda>e. e \<noteq> StopSignal) evs"

text \<open>
  The server accepts until it is told to stop: every connection that comes in before the signal is handed on, in order, however many times accepting
  fails in between, and nothing after it. Without the signal the loop goes on for ever; with it, it ends.
\<close>

theorem server_accepts_until_stopped:
  assumes "patient bo"
  shows "server_run True bo b evs =
    Inr (List.map_filter accepted (before_stop evs), if StopSignal \<in> set evs then ShutDown else StillRunning)"
proof -
  have "accept_loop bo tcp_handshake b evs =
      (List.map_filter accepted (before_stop evs), if StopSignal \<in> set evs then ShutDown else StillRunning)"
  proof (induction evs arbitrary: b)
    case (Cons ev evs)
    obtain b' d where n: "bo_next bo b = (b', Some d)" using patient_next [OF assms] by blast
    show ?case
      using Cons.IH n by (cases ev) (simp_all add: before_stop_def tcp_handshake_def map_filter_simps)
  qed (simp add: before_stop_def map_filter_simps)
  then show ?thesis by (simp add: server_run_def)
qed

section \<open>The pool of the service port\<close>

text \<open>Every control channel starts with the requests of a TCP pool, whatever services are configured; no UDP pool is ever started.\<close>

lemma channel_pool:
  "start_pool (channel_service hex config dig) = (cc_requests (new_channel dig cid key), TcpPool ''127.0.0.1:0'')"
  by (simp add: start_pool_def channel_service_def new_channel_def)

text \<open>A configured service is found under the digest of its name, as long as no two names share one.\<close>

lemma generate_service_hashmap_get:
  assumes "distinct (map (\<lambda>x. dig (map of_char (fst x))) (sc_services config))" "(name, service) \<in> set (sc_services config)"
  shows "hm_get (generate_service_hashmap dig config) (dig (map of_char name)) = Some service"
proof -
  have "distinct (map (\<lambda>x. dig (map of_char (fst x))) kvs) \<Longrightarrow> (name, service) \<in> set kvs \<Longrightarrow>
      hm_get (fold (\<lambda>(n, c). hm_insert (dig (map of_char n)) c) kvs m) (dig (map of_char name)) = Some service" for kvs m
  proof (induction kvs arbitrary: m)
    case (Cons x kvs)
    have other: "dig (map of_char name) \<notin> (\<lambda>x. dig (map of_char (fst x))) ` set kvs \<Longrightarrow>
        hm_get (fold (\<lambda>(n, c). hm_insert (dig (map of_char n)) c) kvs m) (dig (map of_char name)) = hm_get m (dig (map of_char name))" for m
      by (induction kvs arbitrary: m) (auto simp: hm_get_insert case_prod_unfold)
    from Cons show ?case by (cases x) (auto simp: hm_get_insert other)
  qed simp
  then show ?thesis using assms by (simp add: generate_service_hashmap_def)
qed

lemma pool_serve_spec:
  "(case pool_serve rq ok chs asked of
      PoolServed ch rest asked' \<Rightarrow> \<exists>dead. chs = dead @ ch # rest \<and> ok ch \<and> filter ok dead = [] \<and> asked' = asked + length dead
    | PoolDry asked' \<Rightarrow> filter ok chs = [] \<and> asked' = asked + length chs
    | PoolClosed asked' \<Rightarrow> \<exists>ch \<in> set chs. \<not> rq ch)"
proof (induction chs arbitrary: asked)
  case (Cons ch chs)
  from Cons.IH [of "Suc asked"] show ?case
    by (cases "ok ch") (auto simp: Cons_eq_append_conv split: pool_outcome.splits)
qed simp

lemma pool_loop_spec:
  "pool_loop rq ok vs chs asked = (js, vs', chs', asked', e) \<Longrightarrow>
   map fst js = take (length js) vs \<and> map snd js = take (length js) (filter ok chs)
   \<and> (if e = StillRunning
      then vs' = drop (length js) vs \<and> length js = min (length vs) (length (filter ok chs))
        \<and> asked' + length chs' + length js = asked + length chs
      else e = RequestsClosed \<and> \<not> (\<forall>ch \<in> set chs. rq ch))"
proof (induction vs arbitrary: chs asked js)
  case (Cons v vs)
  note sp = pool_serve_spec [where rq = rq and ok = ok and chs = chs and asked = asked]
  show ?case
  proof (cases "pool_serve rq ok chs asked")
    case (PoolServed ch rest n)
    obtain js1 where js: "js = (v, ch) # js1" "pool_loop rq ok vs rest n = (js1, vs', chs', asked', e)"
      using Cons.prems PoolServed by (auto split: prod.splits)
    from sp PoolServed obtain dead where "chs = dead @ ch # rest" "ok ch" "filter ok dead = []" "n = asked + length dead" by auto
    with Cons.IH [OF js(2)] js(1) show ?thesis by (auto split: if_splits)
  qed (use Cons.prems sp in auto)
qed auto

lemma listen_requests: "listen_loop bo b evs = (vs, n, e) \<Longrightarrow> n = length vs"
  by (induction bo b evs arbitrary: vs n e rule: listen_loop.induct) (auto split: prod.splits option.splits if_splits)

text \<open>
  C29. The pool serves visitors first come first served, each over the next data channel that works, and ends only when the queue of requests is closed. It keeps its stock: if the
  client has answered every request (the first eight, one for each visitor and one for each channel found dead), then after all
  visitors are served exactly eight channels are in stock again.
\<close>

theorem pool_keeps_stock:
  assumes run: "run_tcp_connection_pool (Some (Inr ())) bo b evs rq ok chs = (js, waiting, stock, requested, e)"
    and vs: "listen_loop bo b evs = (vs, n, e')"
  shows "map fst js = take (length js) vs \<and> map snd js = take (length js) (filter ok chs)
    \<and> (if \<forall>ch \<in> set chs. rq ch
       then e = StillRunning \<and> waiting = drop (length js) vs \<and> length js = min (length vs) (length (filter ok chs))
         \<and> (length chs = TCP_POOL_SIZE + requested \<and> waiting = [] \<longrightarrow> length stock = TCP_POOL_SIZE)
       else e = StillRunning \<or> e = RequestsClosed)"
proof -
  have "pool_loop rq ok vs chs (length vs) = (js, waiting, stock, requested, e)"
    using run vs listen_requests [OF vs]
    by (simp add: run_tcp_connection_pool_def tcp_listen_and_send_def retry_notify_with_deadline_def)
  from pool_loop_spec [OF this] show ?thesis by (auto split: if_splits)
qed

section \<open>Datagrams end to end\<close>

lemma udp_write_slice_write: "udp_write_slice ser a d = udp_write ser \<lparr>ut_from = a, ut_data = d\<rparr>"
  by (simp add: udp_write_slice_def udp_write_def)

text \<open>Every finite stream is read to its end.\<close>

lemma udp_channel_loop_reads:
  "\<exists>ps rest e. read_many (udp_read_one de) (length ps) inp = Inr (ps, rest) \<and> udp_read_one de rest = Inl e
     \<and> udp_channel_loop de can inp m = (fold (\<lambda>p. udp_packet (can (ut_from p)) p) ps m, e) \<and> length ps \<le> length inp"
proof (induction "length inp" arbitrary: inp m rule: less_induct)
  case less
  show ?case
  proof (cases "udp_read_one de inp")
    case (Inl e)
    then show ?thesis by (intro exI [of _ "[]"] exI [of _ inp] exI [of _ e]) (simp add: udp_channel_loop.simps)
  next
    case (Inr r)
    obtain p rest where r: "r = (p, rest)" by (cases r)
    have lt: "length rest < length inp" using Inr r udp_read_one_shorter by blast
    from less [OF lt, of "udp_packet (can (ut_from p)) p m"] obtain ps r' e where
      "read_many (udp_read_one de) (length ps) rest = Inr (ps, r')" "udp_read_one de r' = Inl e"
      "udp_channel_loop de can rest (udp_packet (can (ut_from p)) p m) =
        (fold (\<lambda>p. udp_packet (can (ut_from p)) p) ps (udp_packet (can (ut_from p)) p m), e)" "length ps \<le> length rest"
      by blast
    then show ?thesis
      using Inr r lt by (intro exI [of _ "p # ps"]) (simp add: udp_channel_loop.simps [of de can inp])
  qed
qed

lemma read_many_unique:
  "read_many rd (length ps) s = Inr (ps, r) \<Longrightarrow> rd r = Inl e \<Longrightarrow>
   read_many rd (length qs) s = Inr (qs, r') \<Longrightarrow> rd r' = Inl e' \<Longrightarrow> ps = qs \<and> r = r'"
proof (induction ps arbitrary: qs s)
  case Nil
  then show ?case by (cases qs) (auto split: sum.splits prod.splits)
next
  case (Cons p ps)
  show ?case
  proof (cases qs)
    case Nil
    with Cons.prems show ?thesis by (auto split: sum.splits prod.splits)
  next
    case q: (Cons q qs1)
    with Cons.prems show ?thesis using Cons.IH by (auto split: sum.splits prod.splits)
  qed
qed

definition cut :: "'a \<times> bytes \<Rightarrow> 'a udp_traffic" where
  "cut d = \<lparr>ut_from = fst d, ut_data = take UDP_BUFFER_SIZE (snd d)\<rparr>"

lemma relay_writes:
  assumes "map (udp_write ser) (map cut ds) = map Some ws"
  shows "relay_loop (port_udp_turn ser de) (map (\<lambda>(a, d). Datagram a d True) ds) r = (r\<lparr>rl_out := rl_out r @ concat ws\<rparr>, RelayWaiting)"
  using assms
proof (induction ds arbitrary: ws r)
  case (Cons d ds)
  obtain w ws1 where ws: "ws = w # ws1" "udp_write ser (cut d) = Some w" "map (udp_write ser) (map cut ds) = map Some ws1"
    using Cons.prems by (cases ws) auto
  obtain a x where d: "d = (a, x)" by (cases d)
  have "port_udp_turn ser de (Datagram a x True) r = (r\<lparr>rl_out := rl_out r @ w\<rparr>, RelayWaiting)"
    using ws(2) by (simp add: port_udp_turn_def relay_datagram_def udp_write_slice_write d cut_def)
  then show ?case using Cons.IH [OF ws(3)] by (simp add: d ws(1))
qed simp

lemma relay_reads:
  "read_many (udp_read_one de) (length ts) (rl_in r) = Inr (ts, rest) \<Longrightarrow>
   relay_loop (port_udp_turn ser de) (replicate (length ts) (ChannelReadable True)) r
     = (r\<lparr>rl_in := rest, rl_sent := rl_sent r @ ts\<rparr>, RelayWaiting)"
proof (induction ts arbitrary: r)
  case (Cons t ts)
  then show ?case by (auto simp: port_udp_turn_def split: sum.splits prod.splits)
qed simp

lemma outbound_writes: "map (udp_write ser) ts = map Some ws \<Longrightarrow> outbound_loop ser (map (\<lambda>t. (t, True)) ts) = Some (concat ws)"
proof (induction ts arbitrary: ws)
  case (Cons t ts)
  then show ?case by (cases ws) auto
qed simp

text \<open>
  C25. Datagrams cross the tunnel whole and in order. What visitors send to a forwarded UDP port arrives at the client in the queues of its
  forwarders, source by source, in the order sent and nothing else, each datagram cut to the 2048 bytes of the relay's buffer; what the
  forwarders send back reaches the visitors in order and unchanged.
\<close>

theorem udp_crosses_tunnel:
  fixes ser :: "'a udp_header \<Rightarrow> bytes option"
  assumes codec: "\<forall>h v. ser h = Some v \<longrightarrow> de v = Some h \<and> length v < 256"
    and out: "\<forall>(a, d) \<in> set ds. ser \<lparr>uh_from = a, uh_len = word_of_nat (length (take UDP_BUFFER_SIZE d))\<rparr> \<noteq> None"
    and replies: "\<forall>t \<in> set ts. length (ut_data t) < 65536 \<and> ser \<lparr>uh_from = ut_from t, uh_len = word_of_nat (length (ut_data t))\<rparr> \<noteq> None"
  shows "(\<exists>r. relay_loop (port_udp_turn ser de) (map (\<lambda>(a, d). Datagram a d True) ds) \<lparr>rl_out = [], rl_in = [], rl_sent = []\<rparr> = (r, RelayWaiting)
      \<and> udp_waiting (fst (udp_channel_loop de (\<lambda>_. True) (rl_out r) udp_map_new)) a =
          (let q = map (take UDP_BUFFER_SIZE \<circ> snd) (filter (\<lambda>d. fst d = a) ds) in if q = [] then None else Some q))
    \<and> (\<exists>w. outbound_loop ser (map (\<lambda>t. (t, True)) ts) = Some w
      \<and> relay_loop (port_udp_turn ser de) (replicate (length ts) (ChannelReadable True)) \<lparr>rl_out = [], rl_in = w, rl_sent = []\<rparr>
          = (\<lparr>rl_out = [], rl_in = [], rl_sent = ts\<rparr>, RelayWaiting))"
proof
  have codec': "\<forall>h v. ser h = Some v \<longrightarrow> de v = Some h" using codec by blast
  have "\<forall>t \<in> set (map cut ds). length (ut_data t) < 65536 \<and>
      (\<exists>v. ser \<lparr>uh_from = ut_from t, uh_len = word_of_nat (length (ut_data t))\<rparr> = Some v \<and> length v < 256)"
    using out codec by (fastforce simp: cut_def UDP_BUFFER_SIZE_def)
  from udp_roundtrip [OF codec' this, of "[]"] obtain ws where
    ws: "map (udp_write ser) (map cut ds) = map Some ws" "read_many (udp_read_one de) (length (map cut ds)) (concat ws) = Inr (map cut ds, [])"
    by auto
  have "udp_read_one de [] = Inl LengthPrefixEof" by (simp add: udp_read_one_def)
  with udp_channel_loop_reads [of de "concat ws" "\<lambda>_. True" udp_map_new] read_many_unique [OF ws(2)]
  have loop: "fst (udp_channel_loop de (\<lambda>_. True) (concat ws) udp_map_new) = fold (udp_packet True) (map cut ds) udp_map_new"
    by fastforce
  have q: "map ut_data (filter (\<lambda>p. ut_from p = a) (map cut ds)) = map (take UDP_BUFFER_SIZE \<circ> snd) (filter (\<lambda>d. fst d = a) ds)"
    by (induction ds) (simp_all add: cut_def)
  show "\<exists>r. relay_loop (port_udp_turn ser de) (map (\<lambda>(a, d). Datagram a d True) ds) \<lparr>rl_out = [], rl_in = [], rl_sent = []\<rparr> = (r, RelayWaiting)
      \<and> udp_waiting (fst (udp_channel_loop de (\<lambda>_. True) (rl_out r) udp_map_new)) a =
          (let q = map (take UDP_BUFFER_SIZE \<circ> snd) (filter (\<lambda>d. fst d = a) ds) in if q = [] then None else Some q)"
    using relay_writes [OF ws(1), of de "\<lparr>rl_out = [], rl_in = [], rl_sent = []\<rparr>"] udp_sources_kept_apart [of "map cut ds" a]
    by (simp add: loop q)
next
  have codec': "\<forall>h v. ser h = Some v \<longrightarrow> de v = Some h" using codec by blast
  have "\<forall>t \<in> set ts. length (ut_data t) < 65536 \<and>
      (\<exists>v. ser \<lparr>uh_from = ut_from t, uh_len = word_of_nat (length (ut_data t))\<rparr> = Some v \<and> length v < 256)"
    using replies codec by fastforce
  from udp_roundtrip [OF codec' this, of "[]"] obtain ws where
    ws: "map (udp_write ser) ts = map Some ws" "read_many (udp_read_one de) (length ts) (concat ws) = Inr (ts, [])" by auto
  show "\<exists>w. outbound_loop ser (map (\<lambda>t. (t, True)) ts) = Some w
      \<and> relay_loop (port_udp_turn ser de) (replicate (length ts) (ChannelReadable True)) \<lparr>rl_out = [], rl_in = w, rl_sent = []\<rparr>
          = (\<lparr>rl_out = [], rl_in = [], rl_sent = ts\<rparr>, RelayWaiting)"
    using outbound_writes [OF ws(1)] relay_reads [of de ts "\<lparr>rl_out = [], rl_in = concat ws, rl_sent = []\<rparr>" "[]" ser] ws(2) by simp
qed

text \<open>
  The client's loop over a UDP data channel ends: whatever bytes arrive before the channel closes, it reads them off datagram by datagram, at most as many as
  there are bytes, hands each to the forwarder of its source, and stops with the first that does not read.
\<close>

theorem udp_channel_loop_ends:
  "\<exists>ps rest e. read_many (udp_read_one de) (length ps) inp = Inr (ps, rest) \<and> udp_read_one de rest = Inl e
     \<and> udp_channel_loop de can inp m = (fold (\<lambda>p. udp_packet (can (ut_from p)) p) ps m, e) \<and> length ps \<le> length inp"
  by (rule udp_channel_loop_reads)

text \<open>
  The two relays differ only in what a failed send to a visitor means: the loop of a forwarded port carries on, the pool ends.
\<close>

theorem udp_relays_agree:
  "list_all (\<lambda>ev. ev \<noteq> ChannelReadable False) evs \<Longrightarrow> relay_loop (port_udp_turn ser de) evs r = relay_loop (udp_pool_turn ser de) evs r"
proof (induction evs arbitrary: r)
  case (Cons ev evs)
  have "port_udp_turn ser de ev r = udp_pool_turn ser de ev r"
    using Cons.prems by (cases ev) (auto simp: port_udp_turn_def udp_pool_turn_def split: sum.splits)
  then show ?case using Cons by (auto split: prod.splits relay_end.splits)
qed simp

text \<open>
  A forwarded UDP port leads nowhere on a node whose service has no local address, which is how nodes are set up: the command that starts the channel
  names no port, the client refuses it, and every UDP port of every deployment shares that one target. A TCP port is named in its command
  and reached.
\<close>

theorem forwarded_udp_has_no_target:
  assumes "cs_local_addr service = None" "de_cmd p = Some StartForwardUdp" "length p < 65536"
    and "de_cmd q = Some (StartForwardTcp (Some port))" "length q < 65536"
  shows "fst (fst (run_port_udp ser de True evs inp)) = [StartForwardUdp]
    \<and> run_data_channel de_cmd service (write_len_prefixed p) = Inl NoLocalAddr
    \<and> run_data_channel de_cmd service (write_len_prefixed q) = Inr (ForwardTcp (''127.0.0.1:'' @ show_nat (unat port)))"
proof -
  have "run_data_channel de_cmd service (write_len_prefixed p) = Inl NoLocalAddr"
    using read_wire_end [of p de_cmd, OF assms(3,2)] assms(1) by (simp add: run_data_channel_def data_channel_target_def)
  moreover have "run_data_channel de_cmd service (write_len_prefixed q) = Inr (ForwardTcp (''127.0.0.1:'' @ show_nat (unat port)))"
    using read_wire_end [of q de_cmd, OF assms(5,4)] by (simp add: run_data_channel_def data_channel_target_def)
  ultimately show ?thesis by (simp add: run_port_udp_def split: prod.splits)
qed

section \<open>Sample runs\<close>

definition sample_backoff :: "nat backoff" where
  "sample_backoff = \<lparr>bo_next = (\<lambda>b. (Suc b, Some (100 * b))), bo_reset = (\<lambda>_. 0)\<rparr>"

theorem server_accepts_until_stopped_witness:
  "server_run True sample_backoff 0 [Accepted ''a'', AcceptFails True, Accepted ''b'', StopSignal, Accepted ''c''] = Inr ([''a'', ''b''], ShutDown)"
proof -
  have "patient sample_backoff" by (simp add: patient_def sample_backoff_def)
  from server_accepts_until_stopped [OF this, of 0 "[Accepted ''a'', AcceptFails True, Accepted ''b'', StopSignal, Accepted ''c'']"]
  show ?thesis by (simp add: before_stop_def map_filter_simps)
qed

theorem pool_keeps_stock_witness:
  "case run_tcp_connection_pool (Some (Inr ())) sample_backoff 0 [Accepted (''x'', True), Accepted (''y'', True)] (\<lambda>_. True) (\<lambda>ch. ch \<noteq> 1) (upt 0 11) of
     (js, waiting, stock, requested, e) \<Rightarrow>
       js = [(''x'', 0), (''y'', 2)] \<and> waiting = [] \<and> requested = 3 \<and> length stock = TCP_POOL_SIZE \<and> e = StillRunning"
proof -
  let ?evs = "[Accepted (''x'', True), Accepted (''y'', True)]"
  have l: "listen_loop sample_backoff 0 ?evs = ([''x'', ''y''], 2, StillRunning)" by simp
  have r: "run_tcp_connection_pool (Some (Inr ())) sample_backoff 0 ?evs (\<lambda>_. True) (\<lambda>ch. ch \<noteq> 1) (upt 0 11)
      = ([(''x'', 0), (''y'', 2)], [], upt 3 11, 3, StillRunning)"
    by (simp add: run_tcp_connection_pool_def tcp_listen_and_send_def retry_notify_with_deadline_def upt_rec)
  from pool_keeps_stock [OF r l] show ?thesis unfolding r by (simp add: TCP_POOL_SIZE_def)
qed

definition sample_ser_header :: "u8 udp_header \<Rightarrow> bytes option" where
  "sample_ser_header h = Some (uh_from h # write_u16 (uh_len h))"

definition sample_de_header :: "bytes \<Rightarrow> u8 udp_header option" where
  "sample_de_header b = (case b of [] \<Rightarrow> None | a # r \<Rightarrow> map_option (\<lambda>(n, _). \<lparr>uh_from = a, uh_len = n\<rparr>) (read_u16 r))"

theorem udp_crosses_tunnel_witness:
  "\<exists>r. relay_loop (port_udp_turn sample_ser_header sample_de_header) [Datagram 3 [1, 2] True, Datagram 4 [9] True, Datagram 3 [] True]
        \<lparr>rl_out = [], rl_in = [], rl_sent = []\<rparr> = (r, RelayWaiting)
    \<and> udp_waiting (fst (udp_channel_loop sample_de_header (\<lambda>_. True) (rl_out r) udp_map_new)) 3 = Some [[1, 2], []]"
proof -
  have codec: "\<forall>h v. sample_ser_header h = Some v \<longrightarrow> sample_de_header v = Some h \<and> length v < 256"
    using read_write_u16 [of _ "[]"] by (auto simp: sample_ser_header_def sample_de_header_def write_u16_def)
  have ser: "sample_ser_header h \<noteq> None" for h by (simp add: sample_ser_header_def)
  from udp_crosses_tunnel [OF codec, of "[(3, [1, 2]), (4, [9]), (3, [])]" "[]" 3]
  show ?thesis by (simp add: ser UDP_BUFFER_SIZE_def del: relay_loop.simps)
qed

theorem forwarded_udp_has_no_target_witness:
  "run_data_channel (\<lambda>b. Some (if b = [] then StartForwardUdp else StartForwardTcp (Some 80))) client_service_default (write_len_prefixed []) = Inl NoLocalAddr"
  using forwarded_udp_has_no_target [where service = client_service_default and p = "[]" and q = "[0]" and port = 80
      and de_cmd = "\<lambda>b. Some (if b = [] then StartForwardUdp else StartForwardTcp (Some 80))" and ser = sample_ser_header
      and de = sample_de_header and evs = "[]" and inp = "[]"]
  by (simp add: client_service_default_def)

end
