(* ===== verification/Client_Link.thy ===== *)
theory Client_Link
  imports Relay_Loops
begin

text \<open>
  How the client reaches the server and its local services, \<^verbatim>\<open>crates/tunnel/src/client.rs\<close>: resolving and connecting, then the handshake of the control
  channel; a data channel from its connection to the forwarding it is told to do. Parameters: whether the system accepts socket options (\<open>ka_ok\<close>, \<open>nd_ok\<close>), and the back-off crate's \<open>retry\<close>, which
  is given the settings and the numbered attempts.
\<close>

section \<open>The control channel\<close>

datatype link_error = LinkNet net_error | LinkClient client_error

text \<open>The address as resolved, the stream with its options, the session key and the input that follows. The token is the one that loading the configuration put in place.\<close>

definition control_link ::
  "net \<Rightarrow> bool \<Rightarrow> bool \<Rightarrow> client_codecs \<Rightarrow> (bytes \<Rightarrow> digest) \<Rightarrow> tcp_transport \<Rightarrow> string \<Rightarrow> digest \<Rightarrow> bytes \<Rightarrow> stream \<Rightarrow> bytes
     \<Rightarrow> bytes \<times> (link_error + addr_maybe_cached \<times> stream \<times> digest \<times> bytes)" where
  "control_link n ka_ok nd_ok cl dig t remote service_digest token fresh inp =
     (case addr_resolve n (addr_new remote) of
        (a, Inl e) \<Rightarrow> ([], Inl (LinkNet e))
      | (a, Inr _) \<Rightarrow>
          (case tcp_connect n ka_ok nd_ok t a fresh of
             Inl e \<Rightarrow> ([], Inl (LinkNet e))
           | Inr (peer, conn) \<Rightarrow>
               (let conn = tcp_hint ka_ok nd_ok conn for_control_channel in
                case client_handshake cl dig service_digest token inp of
                  (out, Inl e) \<Rightarrow> (out, Inl (LinkClient e))
                | (out, Inr (key, inp)) \<Rightarrow> (out, Inr (a, conn, key, inp)))))"

section \<open>Data channels\<close>

text \<open>\<^verbatim>\<open>RunDataChannelArgs\<close>, with the state of the network at each attempt and the stream a connection starts as.\<close>

record data_args =
  da_session_key :: digest
  da_remote_addr :: addr_maybe_cached
  da_connector :: tcp_transport
  da_socket_opts :: socket_opts
  da_service :: client_service_config

definition data_channel_backoff :: backoff_settings where
  "data_channel_backoff = \<lparr>bs_max_interval = 100, bs_max_elapsed = Some 10000, bs_multiplier = None, bs_randomization = None\<rparr>"

type_synonym retry = "backoff_settings \<Rightarrow> (nat \<Rightarrow> net_error + tcp_peer \<times> stream) \<Rightarrow> net_error + tcp_peer \<times> stream"

definition open_data_channel ::
  "retry \<Rightarrow> (nat \<Rightarrow> net) \<Rightarrow> bool \<Rightarrow> bool \<Rightarrow> client_codecs \<Rightarrow> data_args \<Rightarrow> stream \<Rightarrow> link_error + stream \<times> bytes" where
  "open_data_channel retry ns ka_ok nd_ok cl args fresh =
     (case retry data_channel_backoff (\<lambda>k. tcp_connect (ns k) ka_ok nd_ok (da_connector args) (da_remote_addr args) fresh) of
        Inl e \<Rightarrow> Inl (LinkNet e)
      | Inr (peer, conn) \<Rightarrow>
          (let conn = tcp_hint ka_ok nd_ok conn (da_socket_opts args) in
           case data_hello cl (da_session_key args) of
             Inl e \<Rightarrow> Inl (LinkClient e)
           | Inr out \<Rightarrow> Inr (conn, out)))"

datatype 'a served = TcpServed sock_addr | UdpServed "'a udp_map" proto_error

text \<open>TCP: connect to the local service and copy. UDP: relay datagrams until the channel ends.\<close>

definition forward_channel ::
  "net \<Rightarrow> (bytes \<Rightarrow> 'a udp_header option) \<Rightarrow> channel_target \<Rightarrow> bytes \<Rightarrow> link_error + 'a served" where
  "forward_channel n de target inp =
     (case target of
        ForwardTcp addr \<Rightarrow> (case connect_name n addr of Inl e \<Rightarrow> Inl (LinkNet e) | Inr a \<Rightarrow> Inr (TcpServed a))
      | ForwardUdp addr prefer_ipv6 \<Rightarrow>
          (case udp_channel_loop de (\<lambda>_. case udp_connect n addr prefer_ipv6 of Inr _ \<Rightarrow> True | Inl _ \<Rightarrow> False) inp udp_map_new of
             (m, e) \<Rightarrow> Inr (UdpServed m e)))"

definition serve_data_channel ::
  "retry \<Rightarrow> (nat \<Rightarrow> net) \<Rightarrow> bool \<Rightarrow> bool \<Rightarrow> client_codecs \<Rightarrow> (bytes \<Rightarrow> data_cmd option) \<Rightarrow> (bytes \<Rightarrow> 'a udp_header option)
     \<Rightarrow> data_args \<Rightarrow> stream \<Rightarrow> net \<Rightarrow> bytes \<Rightarrow> link_error + 'a served" where
  "serve_data_channel retry ns ka_ok nd_ok cl de_cmd de args fresh n inp =
     (case open_data_channel retry ns ka_ok nd_ok cl args fresh of
        Inl e \<Rightarrow> Inl e
      | Inr (conn, out) \<Rightarrow>
          (case read_message de_cmd inp of
             Inl e \<Rightarrow> Inl (LinkClient (ClientProto e))
           | Inr (cmd, inp) \<Rightarrow>
               (case data_channel_target (da_service args) cmd of
                  Inl e \<Rightarrow> Inl (LinkClient e)
                | Inr target \<Rightarrow> forward_channel n de target inp)))"

lemmas [kdct_simps] = control_link_def open_data_channel_def forward_channel_def serve_data_channel_def

section \<open>Properties\<close>

text \<open>
  The client gives up on a server it could reach: it ties itself to the first address the server's name resolves to, so that when that one does not answer the
  control channel fails, although connecting to the name would succeed with one of the others.
\<close>

theorem control_channel_has_no_fallback:
  assumes "nt_lookup n remote = Some (x # xs)" "\<not> nt_connect n x" "\<exists>y \<in> set xs. nt_connect n y"
  shows "control_link n ka_ok nd_ok cl dig (client_transport cfg) remote service_digest token fresh inp = ([], Inl (LinkNet ConnectFailed))
    \<and> (\<exists>y \<in> set xs. connect_name n remote = Inr y)"
proof -
  note f = resolved_address_has_no_fallback [OF assms]
  obtain a where a: "addr_resolve n (addr_new remote) = (a, Inr ())"
    using assms(1) by (simp add: addr_resolve_def addr_new_def to_socket_addr_def)
  have "tc_proxy (tt_cfg (client_transport cfg)) = None"
    by (simp add: client_transport_def tcp_new_def default_transport_def tcp_config_default_def)
  then have "control_link n ka_ok nd_ok cl dig (client_transport cfg) remote service_digest token fresh inp = ([], Inl (LinkNet ConnectFailed))"
    using f a by (simp add: control_link_def tcp_connect_def)
  moreover have "\<exists>y \<in> set xs. connect_name n remote = Inr y"
    using f by (auto simp: tcp_connect_with_proxy_def addr_new_def split: sum.splits)
  ultimately show ?thesis by blast
qed

text \<open>
  A data channel for a TCP port ends at an address of that port on the loopback interface that answers, or fails because none does; the configuration
  of the service has no say in it.
\<close>

theorem tcp_channel_reaches_port:
  assumes "open_data_channel retry ns ka_ok nd_ok cl args fresh = Inr (conn, out)"
    and "de_cmd p = Some (StartForwardTcp (Some port))" "length p < 65536"
  shows "serve_data_channel retry ns ka_ok nd_ok cl de_cmd de args fresh n (write_len_prefixed p @ rest) =
    (case connect_name n (''127.0.0.1:'' @ show_nat (unat port)) of Inl e \<Rightarrow> Inl (LinkNet e) | Inr a \<Rightarrow> Inr (TcpServed a))"
  using assms read_wire [of p de_cmd "StartForwardTcp (Some port)" rest]
  by (simp add: serve_data_channel_def data_channel_target_def forward_channel_def)

section \<open>Sample run\<close>

definition sample_net :: net where
  "sample_net = \<lparr>nt_lookup = (\<lambda>_. Some [V6 [1] 2333, V4 [127, 0, 0, 1] 2333]), nt_connect = (\<lambda>a. \<not> is_ipv6 a),
     nt_connect_host = (\<lambda>_ _. False), nt_bind_udp = (\<lambda>_. True), nt_socks5 = (\<lambda>_ _ _. False), nt_http = (\<lambda>_ _ _. False),
     nt_parse_url = (\<lambda>_. \<lparr>url_scheme = [], url_host = None, url_port = None, url_username = [], url_password = None\<rparr>)\<rparr>"

definition sample_link_config :: client_config where
  "sample_link_config =
     \<lparr>cc_remote_addr = ''vps:2333'', cc_default_token = MaskedString ''t'', cc_prefer_ipv6 = None,
      cc_services = [(''web'', client_service_default)], cc_heartbeat_timeout = 40, cc_retry_interval = 1\<rparr>"

theorem control_channel_has_no_fallback_witness:
  "control_link sample_net True True sample_client (\<lambda>b. b) (client_transport sample_link_config) ''vps:2333'' [1] [7] \<lparr>st_nodelay = False, st_keepalive = None\<rparr> []
     = ([], Inl (LinkNet ConnectFailed)) \<and> connect_name sample_net ''vps:2333'' = Inr (V4 [127, 0, 0, 1] 2333)"
  using control_channel_has_no_fallback [of sample_net "''vps:2333''" "V6 [1] 2333" "[V4 [127, 0, 0, 1] 2333]"]
  by (simp add: sample_net_def)

end
