(* ===== verification/Database.thy ===== *)
theory Database
  imports Kdct_Prelude
begin

text \<open>
  The panel's SQLite database, \<^verbatim>\<open>crates/kdcts/src/db.rs\<close>. Every table is the list of its
  rows in insertion order together with its AUTOINCREMENT sequence; each operation is the
  meaning of the SQL statements it executes under \<^verbatim>\<open>PRAGMA foreign_keys=ON\<close>: UNIQUE and
  FOREIGN KEY constraints reject a statement as a whole, \<^verbatim>\<open>ON DELETE CASCADE\<close> and
  \<^verbatim>\<open>ON DELETE SET NULL\<close> act on the referring rows. An operation returns the new database
  with its result or error, because a failing operation may have executed earlier statements.
  \<^verbatim>\<open>strftime('%s','now')\<close> is the argument \<open>now\<close>. Failures of the storage itself are
  not represented. Every operation holds the connection's mutex for its whole body, so it is
  one atomic function of the database.
\<close>

section \<open>Schema\<close>

record image_node =
  img_id :: int
  img_name :: string
  img_source :: string
  img_source_type :: string
  img_status :: string
  img_created_at :: int

record bridge_row =
  br_id :: int
  br_name :: string
  br_status :: string
  br_created_at :: int

record bridge_port =
  bp_id :: int
  bp_bridge_id :: int
  bp_container_port :: int
  bp_mode :: string
  bp_route_path :: "string option"
  bp_protocols :: "string option"
  bp_pool_port :: "int option"

record bridge_env =
  be_id :: int
  be_bridge_id :: int
  be_key :: string
  be_value :: string

record connection_row =
  cn_id :: int
  cn_name :: string
  cn_bridge_id :: "int option"
  cn_image_id :: "int option"
  cn_node_id :: "int option"
  cn_status :: string
  cn_container_name :: "string option"
  cn_created_at :: int

record client_node =
  nd_id :: int
  nd_hostname :: string
  nd_os :: string
  nd_arch :: string
  nd_docker_version :: string
  nd_port_range_start :: int
  nd_port_range_end :: int
  nd_cpu_cores :: int
  nd_memory_mb :: int
  nd_status :: string
  nd_auth_digest :: "string option"
  nd_node_uuid :: "string option"
  nd_last_seen :: int

text \<open>
  How \<^verbatim>\<open>client_nodes.node_uuid\<close> is declared in the file: not at all (a database from before the
  column existed), as a UNIQUE column, or as a plain column with a partial unique index.
\<close>

datatype uuid_column = UuidMissing | UuidUnique | UuidPartialIndex

record database =
  images :: "image_node list"
  image_seq :: int
  bridges :: "bridge_row list"
  bridge_seq :: int
  bridge_ports :: "bridge_port list"
  bridge_port_seq :: int
  bridge_envs :: "bridge_env list"
  bridge_env_seq :: int
  connections :: "connection_row list"
  connection_seq :: int
  client_nodes :: "client_node list"
  client_node_seq :: int
  server_config :: "(string, string) hmap"
  client_nodes_schema :: "uuid_column option"

datatype db_error =
    UniqueViolation
  | ForeignKeyViolation
  | NoConflictTarget

type_synonym 'a db_result = "database \<times> (db_error + 'a)"

definition empty_db :: database where
  "empty_db = \<lparr>images = [], image_seq = 0, bridges = [], bridge_seq = 0,
     bridge_ports = [], bridge_port_seq = 0, bridge_envs = [], bridge_env_seq = 0,
     connections = [], connection_seq = 0, client_nodes = [], client_node_seq = 0,
     server_config = [], client_nodes_schema = None\<rparr>"

text \<open>\<^verbatim>\<open>ON DELETE SET NULL\<close> on one reference: cleared when the row it names is deleted.\<close>

definition clear_ref :: "int set \<Rightarrow> int option \<Rightarrow> int option" where
  "clear_ref gone r = (case r of None \<Rightarrow> None | Some i \<Rightarrow> if i \<in> gone then None else Some i)"

section \<open>Opening and migrating\<close>

text \<open>
  The backfill loop: \<open>new_uuid k\<close> is the value of the \<open>k\<close>-th call of
  \<^verbatim>\<open>Uuid::new_v4()\<close>. An UPDATE that would repeat a uuid is rejected.
\<close>

fun backfill :: "(nat \<Rightarrow> string) \<Rightarrow> nat \<Rightarrow> int list \<Rightarrow> database \<Rightarrow> unit db_result" where
  "backfill new_uuid k [] db = (db, Inr ())"
| "backfill new_uuid k (i # ids) db =
     (if \<exists>n \<in> set (client_nodes db). nd_node_uuid n = Some (new_uuid k) \<and> nd_id n \<noteq> i
      then (db, Inl UniqueViolation)
      else backfill new_uuid (Suc k) ids
             (db\<lparr>client_nodes := map (\<lambda>n. if nd_id n = i then n\<lparr>nd_node_uuid := Some (new_uuid k)\<rparr> else n)
                                   (client_nodes db)\<rparr>))"

definition legacy_ids :: "database \<Rightarrow> int list" where
  "legacy_ids db =
     map nd_id (filter (\<lambda>n. nd_node_uuid n = None \<and> nd_auth_digest n \<noteq> None) (client_nodes db))"

definition drop_anonymous_nodes :: "database \<Rightarrow> database" where
  "drop_anonymous_nodes db =
     (let gone = nd_id ` set (filter (\<lambda>n. nd_node_uuid n = None) (client_nodes db)) in
      db\<lparr>connections :=
           map (\<lambda>c. if \<exists>i \<in> gone. cn_node_id c = Some i
                    then c\<lparr>cn_node_id := None, cn_status := ''pending''\<rparr> else c) (connections db),
         client_nodes := filter (\<lambda>n. nd_node_uuid n \<noteq> None) (client_nodes db)\<rparr>)"

definition migrate :: "(nat \<Rightarrow> string) \<Rightarrow> database \<Rightarrow> unit db_result" where
  "migrate new_uuid db =
     (let db = (case client_nodes_schema db of
                  None \<Rightarrow> db\<lparr>client_nodes_schema := Some UuidUnique\<rparr>
                | Some UuidMissing \<Rightarrow> db\<lparr>client_nodes_schema := Some UuidPartialIndex\<rparr>
                | Some _ \<Rightarrow> db)
      in case backfill new_uuid 0 (legacy_ids db) db of
           (db, Inl e) \<Rightarrow> (db, Inl e)
         | (db, Inr _) \<Rightarrow> (drop_anonymous_nodes db, Inr ()))"

section \<open>Settings\<close>

definition get_setting :: "string \<Rightarrow> database \<Rightarrow> string option" where
  "get_setting key db = hm_get (server_config db) key"

definition set_setting :: "string \<Rightarrow> string \<Rightarrow> database \<Rightarrow> database" where
  "set_setting key v db = db\<lparr>server_config := hm_insert key v (server_config db)\<rparr>"

section \<open>Images\<close>

text \<open>
  \<^verbatim>\<open>INSERT OR REPLACE\<close> deletes the row with the same name, with the deletion's foreign-key
  actions, and inserts a new row under a new id.
\<close>

definition insert_image :: "int \<Rightarrow> string \<Rightarrow> string \<Rightarrow> string \<Rightarrow> database \<Rightarrow> int db_result" where
  "insert_image now name source source_type db =
     (let gone = img_id ` set (filter (\<lambda>r. img_name r = name) (images db));
          i = image_seq db + 1 in
      (db\<lparr>images := filter (\<lambda>r. img_name r \<noteq> name) (images db) @
             [\<lparr>img_id = i, img_name = name, img_source = source, img_source_type = source_type,
               img_status = ''loaded'', img_created_at = now\<rparr>],
          image_seq := i,
          connections := map (\<lambda>c. c\<lparr>cn_image_id := clear_ref gone (cn_image_id c)\<rparr>) (connections db)\<rparr>,
       Inr i))"

definition get_image_by_name :: "string \<Rightarrow> database \<Rightarrow> image_node option" where
  "get_image_by_name name db = find (\<lambda>r. img_name r = name) (images db)"

definition list_images :: "database \<Rightarrow> image_node list" where
  "list_images db = sort_key (\<lambda>r. - img_created_at r) (images db)"

section \<open>Bridges\<close>

definition insert_bridge :: "int \<Rightarrow> string \<Rightarrow> database \<Rightarrow> int db_result" where
  "insert_bridge now name db =
     (if \<exists>b \<in> set (bridges db). br_name b = name then (db, Inl UniqueViolation)
      else let i = bridge_seq db + 1 in
        (db\<lparr>bridges := bridges db @
               [\<lparr>br_id = i, br_name = name, br_status = ''draft'', br_created_at = now\<rparr>],
            bridge_seq := i\<rparr>, Inr i))"

definition list_bridges :: "database \<Rightarrow> bridge_row list" where
  "list_bridges db = sort_key (\<lambda>b. - br_id b) (bridges db)"

definition get_bridge_by_id :: "int \<Rightarrow> database \<Rightarrow> bridge_row option" where
  "get_bridge_by_id bid db = find (\<lambda>b. br_id b = bid) (bridges db)"

definition delete_bridge :: "int \<Rightarrow> database \<Rightarrow> unit db_result" where
  "delete_bridge bid db =
     (let gone = br_id ` set (filter (\<lambda>b. br_id b = bid) (bridges db)) in
      (db\<lparr>bridges := filter (\<lambda>b. br_id b \<noteq> bid) (bridges db),
          bridge_ports := filter (\<lambda>p. bp_bridge_id p \<notin> gone) (bridge_ports db),
          bridge_envs := filter (\<lambda>e. be_bridge_id e \<notin> gone) (bridge_envs db),
          connections := map (\<lambda>c. c\<lparr>cn_bridge_id := clear_ref gone (cn_bridge_id c)\<rparr>) (connections db)\<rparr>,
       Inr ()))"

section \<open>Bridge ports and environments\<close>

definition insert_bridge_port ::
  "int \<Rightarrow> int \<Rightarrow> string \<Rightarrow> string option \<Rightarrow> string option \<Rightarrow> int option \<Rightarrow> database \<Rightarrow> int db_result" where
  "insert_bridge_port bid cport mode route_path protocols pool_port db =
     (if \<exists>p \<in> set (bridge_ports db). bp_bridge_id p = bid \<and> bp_container_port p = cport
      then (db, Inl UniqueViolation)
      else if \<forall>b \<in> set (bridges db). br_id b \<noteq> bid then (db, Inl ForeignKeyViolation)
      else let i = bridge_port_seq db + 1 in
        (db\<lparr>bridge_ports := bridge_ports db @
               [\<lparr>bp_id = i, bp_bridge_id = bid, bp_container_port = cport, bp_mode = mode,
                 bp_route_path = route_path, bp_protocols = protocols, bp_pool_port = pool_port\<rparr>],
            bridge_port_seq := i\<rparr>, Inr i))"

definition get_bridge_ports :: "int \<Rightarrow> database \<Rightarrow> bridge_port list" where
  "get_bridge_ports bid db =
     sort_key bp_container_port (filter (\<lambda>p. bp_bridge_id p = bid) (bridge_ports db))"

definition delete_bridge_port :: "int \<Rightarrow> int \<Rightarrow> database \<Rightarrow> unit db_result" where
  "delete_bridge_port bid cport db =
     (db\<lparr>bridge_ports :=
          filter (\<lambda>p. \<not> (bp_bridge_id p = bid \<and> bp_container_port p = cport)) (bridge_ports db)\<rparr>, Inr ())"

definition get_bridge_port_pool_port :: "int \<Rightarrow> int \<Rightarrow> database \<Rightarrow> int option" where
  "get_bridge_port_pool_port bid cport db =
     (case find (\<lambda>p. bp_bridge_id p = bid \<and> bp_container_port p = cport) (bridge_ports db) of
        None \<Rightarrow> None | Some p \<Rightarrow> bp_pool_port p)"

definition get_bridge_pool_ports :: "int \<Rightarrow> database \<Rightarrow> int list" where
  "get_bridge_pool_ports bid db =
     List.map_filter bp_pool_port (filter (\<lambda>p. bp_bridge_id p = bid) (bridge_ports db))"

definition insert_env :: "int \<Rightarrow> string \<times> string \<Rightarrow> database \<Rightarrow> unit db_result" where
  "insert_env bid kv db =
     (if \<exists>e \<in> set (bridge_envs db). be_bridge_id e = bid \<and> be_key e = fst kv
      then (db, Inl UniqueViolation)
      else if \<forall>b \<in> set (bridges db). br_id b \<noteq> bid then (db, Inl ForeignKeyViolation)
      else (db\<lparr>bridge_envs := bridge_envs db @
                  [\<lparr>be_id = bridge_env_seq db + 1, be_bridge_id = bid, be_key = fst kv, be_value = snd kv\<rparr>],
               bridge_env_seq := bridge_env_seq db + 1\<rparr>, Inr ()))"

fun insert_envs :: "int \<Rightarrow> (string \<times> string) list \<Rightarrow> database \<Rightarrow> unit db_result" where
  "insert_envs bid [] db = (db, Inr ())"
| "insert_envs bid (kv # kvs) db =
     (case insert_env bid kv db of
        (db, Inl e) \<Rightarrow> (db, Inl e)
      | (db, Inr _) \<Rightarrow> insert_envs bid kvs db)"

definition set_bridge_envs :: "int \<Rightarrow> (string \<times> string) list \<Rightarrow> database \<Rightarrow> unit db_result" where
  "set_bridge_envs bid envs db =
     insert_envs bid envs
       (db\<lparr>bridge_envs := filter (\<lambda>e. be_bridge_id e \<noteq> bid) (bridge_envs db)\<rparr>)"

definition get_bridge_envs :: "int \<Rightarrow> database \<Rightarrow> (string \<times> string) list" where
  "get_bridge_envs bid db =
     map (\<lambda>e. (be_key e, be_value e))
       (sort_key be_key (filter (\<lambda>e. be_bridge_id e = bid) (bridge_envs db)))"

section \<open>Connections\<close>

definition insert_connection :: "int \<Rightarrow> string \<Rightarrow> database \<Rightarrow> int db_result" where
  "insert_connection now name db =
     (let i = connection_seq db + 1 in
      (db\<lparr>connections := connections db @
             [\<lparr>cn_id = i, cn_name = name, cn_bridge_id = None, cn_image_id = None, cn_node_id = None,
               cn_status = ''pending'', cn_container_name = None, cn_created_at = now\<rparr>],
          connection_seq := i\<rparr>, Inr i))"

text \<open>The three references of a connection name existing rows.\<close>

definition refs_ok :: "int option \<Rightarrow> int option \<Rightarrow> int option \<Rightarrow> database \<Rightarrow> bool" where
  "refs_ok b i n db \<longleftrightarrow>
     set_option b \<subseteq> br_id ` set (bridges db) \<and>
     set_option i \<subseteq> img_id ` set (images db) \<and>
     set_option n \<subseteq> nd_id ` set (client_nodes db)"

definition update_connection ::
  "int \<Rightarrow> int option option \<Rightarrow> int option option \<Rightarrow> int option option \<Rightarrow> database \<Rightarrow> unit db_result" where
  "update_connection cid bridge img node db =
     (let (b, i, n) = (case find (\<lambda>c. cn_id c = cid) (connections db) of
                         Some c \<Rightarrow> (cn_bridge_id c, cn_image_id c, cn_node_id c)
                       | None \<Rightarrow> (None, None, None));
          b = (case bridge of None \<Rightarrow> b | Some x \<Rightarrow> x);
          i = (case img of None \<Rightarrow> i | Some x \<Rightarrow> x);
          n = (case node of None \<Rightarrow> n | Some x \<Rightarrow> x) in
      if cid \<in> cn_id ` set (connections db) \<and> \<not> refs_ok b i n db then (db, Inl ForeignKeyViolation)
      else (db\<lparr>connections :=
              map (\<lambda>c. if cn_id c = cid then c\<lparr>cn_bridge_id := b, cn_image_id := i, cn_node_id := n\<rparr> else c)
                (connections db)\<rparr>, Inr ()))"

definition update_connection_node ::
  "int \<Rightarrow> int option \<Rightarrow> string \<Rightarrow> string option \<Rightarrow> database \<Rightarrow> unit db_result" where
  "update_connection_node cid node status container db =
     (if cid \<in> cn_id ` set (connections db) \<and> \<not> refs_ok None None node db then (db, Inl ForeignKeyViolation)
      else (db\<lparr>connections :=
              map (\<lambda>c. if cn_id c = cid
                       then c\<lparr>cn_node_id := node, cn_status := status, cn_container_name := container\<rparr> else c)
                (connections db)\<rparr>, Inr ()))"

text \<open>A connection joined with the rows it refers to.\<close>

record connection_view =
  cv_row :: connection_row
  cv_bridge_name :: "string option"
  cv_image_name :: "string option"
  cv_node_hostname :: "string option"
  cv_node_status :: "string option"

definition join_connection :: "database \<Rightarrow> connection_row \<Rightarrow> connection_view" where
  "join_connection db c =
     (let n = find (\<lambda>n. cn_node_id c = Some (nd_id n)) (client_nodes db) in
      \<lparr>cv_row = c,
       cv_bridge_name = map_option br_name (find (\<lambda>b. cn_bridge_id c = Some (br_id b)) (bridges db)),
       cv_image_name = map_option img_name (find (\<lambda>i. cn_image_id c = Some (img_id i)) (images db)),
       cv_node_hostname = map_option nd_hostname n,
       cv_node_status = map_option nd_status n\<rparr>)"

definition list_connections :: "database \<Rightarrow> connection_view list" where
  "list_connections db =
     map (join_connection db) (sort_key (\<lambda>c. - cn_created_at c) (connections db))"

definition get_connection :: "int \<Rightarrow> database \<Rightarrow> connection_view option" where
  "get_connection cid db = map_option (join_connection db) (find (\<lambda>c. cn_id c = cid) (connections db))"

definition delete_connection :: "int \<Rightarrow> database \<Rightarrow> unit db_result" where
  "delete_connection cid db = (db\<lparr>connections := filter (\<lambda>c. cn_id c \<noteq> cid) (connections db)\<rparr>, Inr ())"

definition get_connectable_connections :: "database \<Rightarrow> int list" where
  "get_connectable_connections db =
     map cn_id (filter (\<lambda>c. cn_bridge_id c \<noteq> None \<and> cn_image_id c \<noteq> None \<and>
        (\<exists>n \<in> set (client_nodes db). cn_node_id c = Some (nd_id n) \<and> nd_status n = ''online'') \<and>
        cn_status c = ''pending'') (connections db))"

definition get_connection_ids_for_node :: "int \<Rightarrow> database \<Rightarrow> int list" where
  "get_connection_ids_for_node nid db =
     map cn_id (filter (\<lambda>c. cn_node_id c = Some nid \<and> cn_status c = ''deployed'') (connections db))"

section \<open>Nodes\<close>

text \<open>The columns of \<^verbatim>\<open>client_nodes\<close> a connecting client reports.\<close>

record node_info =
  ni_hostname :: string
  ni_os :: string
  ni_arch :: string
  ni_docker_version :: string
  ni_port_range_start :: int
  ni_port_range_end :: int
  ni_cpu_cores :: int
  ni_memory_mb :: int

definition refresh_node :: "int \<Rightarrow> string \<Rightarrow> node_info \<Rightarrow> client_node \<Rightarrow> client_node" where
  "refresh_node now dig info n =
     n\<lparr>nd_hostname := ni_hostname info, nd_os := ni_os info, nd_arch := ni_arch info,
       nd_docker_version := ni_docker_version info,
       nd_port_range_start := ni_port_range_start info, nd_port_range_end := ni_port_range_end info,
       nd_cpu_cores := ni_cpu_cores info, nd_memory_mb := ni_memory_mb info,
       nd_auth_digest := Some dig, nd_status := ''online'', nd_last_seen := now\<rparr>"

definition node_row :: "int \<Rightarrow> int \<Rightarrow> string \<Rightarrow> string \<Rightarrow> node_info \<Rightarrow> client_node" where
  "node_row now i uuid dig info =
     \<lparr>nd_id = i, nd_hostname = ni_hostname info, nd_os = ni_os info, nd_arch = ni_arch info,
      nd_docker_version = ni_docker_version info,
      nd_port_range_start = ni_port_range_start info, nd_port_range_end = ni_port_range_end info,
      nd_cpu_cores = ni_cpu_cores info, nd_memory_mb = ni_memory_mb info, nd_status = ''online'',
      nd_auth_digest = Some dig, nd_node_uuid = Some uuid, nd_last_seen = now\<rparr>"

text \<open>
  \<^verbatim>\<open>ON CONFLICT(node_uuid)\<close> needs a UNIQUE constraint or a full unique index on the column; a
  partial index does not match it, and the statement is then rejected before it runs.
\<close>

definition upsert_node :: "int \<Rightarrow> string \<Rightarrow> string \<Rightarrow> node_info \<Rightarrow> database \<Rightarrow> unit db_result" where
  "upsert_node now uuid dig info db =
     (if client_nodes_schema db \<noteq> Some UuidUnique then (db, Inl NoConflictTarget)
      else if \<exists>n \<in> set (client_nodes db). nd_node_uuid n = Some uuid
      then (db\<lparr>client_nodes :=
              map (\<lambda>n. if nd_node_uuid n = Some uuid then refresh_node now dig info n else n)
                (client_nodes db)\<rparr>, Inr ())
      else let i = client_node_seq db + 1 in
        (db\<lparr>client_nodes := client_nodes db @ [node_row now i uuid dig info], client_node_seq := i\<rparr>, Inr ()))"

definition binding_of :: "client_node \<Rightarrow> (string \<times> string) option" where
  "binding_of n =
     (case (nd_node_uuid n, nd_auth_digest n) of (Some u, Some d) \<Rightarrow> Some (u, d) | _ \<Rightarrow> None)"

definition load_bindings :: "database \<Rightarrow> (string, string) hmap" where
  "load_bindings db =
     fold (\<lambda>(u, d). hm_insert u d) (List.map_filter binding_of (client_nodes db)) []"

definition list_nodes :: "database \<Rightarrow> client_node list" where
  "list_nodes db =
     sort_key (\<lambda>n. - nd_last_seen n) (filter (\<lambda>n. nd_node_uuid n \<noteq> None) (client_nodes db))"

definition set_node_offline :: "string \<Rightarrow> database \<Rightarrow> database" where
  "set_node_offline uuid db =
     db\<lparr>client_nodes :=
        map (\<lambda>n. if nd_node_uuid n = Some uuid then n\<lparr>nd_status := ''offline''\<rparr> else n) (client_nodes db)\<rparr>"

definition mark_all_offline :: "database \<Rightarrow> database" where
  "mark_all_offline db = db\<lparr>client_nodes := map (\<lambda>n. n\<lparr>nd_status := ''offline''\<rparr>) (client_nodes db)\<rparr>"

definition get_node_by_id :: "int \<Rightarrow> database \<Rightarrow> client_node option" where
  "get_node_by_id i db = find (\<lambda>n. nd_id n = i) (client_nodes db)"

definition get_node_by_uuid :: "string \<Rightarrow> database \<Rightarrow> client_node option" where
  "get_node_by_uuid uuid db = find (\<lambda>n. nd_node_uuid n = Some uuid) (client_nodes db)"

lemmas [kdct_simps] = empty_db_def clear_ref_def legacy_ids_def drop_anonymous_nodes_def migrate_def
  get_setting_def set_setting_def insert_image_def get_image_by_name_def list_images_def
  insert_bridge_def list_bridges_def get_bridge_by_id_def delete_bridge_def insert_bridge_port_def
  get_bridge_ports_def delete_bridge_port_def get_bridge_port_pool_port_def get_bridge_pool_ports_def
  insert_env_def set_bridge_envs_def get_bridge_envs_def insert_connection_def refs_ok_def
  update_connection_def update_connection_node_def join_connection_def list_connections_def
  get_connection_def delete_connection_def get_connectable_connections_def
  get_connection_ids_for_node_def refresh_node_def node_row_def upsert_node_def binding_of_def load_bindings_def list_nodes_def
  set_node_offline_def mark_all_offline_def get_node_by_id_def get_node_by_uuid_def

section \<open>Integrity\<close>

text \<open>
  What the schema promises: primary keys are unique and never above the table's sequence,
  the UNIQUE constraints hold, every reference names an existing row.
\<close>

definition rows_wf :: "('r \<Rightarrow> int) \<Rightarrow> int \<Rightarrow> 'r list \<Rightarrow> bool" where
  "rows_wf key seq rows \<longleftrightarrow> distinct (map key rows) \<and> (\<forall>r \<in> set rows. key r \<le> seq)"

definition db_keys :: "database \<Rightarrow> bool" where
  "db_keys db \<longleftrightarrow>
     rows_wf img_id (image_seq db) (images db) \<and>
     rows_wf br_id (bridge_seq db) (bridges db) \<and>
     rows_wf bp_id (bridge_port_seq db) (bridge_ports db) \<and>
     rows_wf be_id (bridge_env_seq db) (bridge_envs db) \<and>
     rows_wf cn_id (connection_seq db) (connections db) \<and>
     rows_wf nd_id (client_node_seq db) (client_nodes db)"

definition db_unique :: "database \<Rightarrow> bool" where
  "db_unique db \<longleftrightarrow>
     distinct (map img_name (images db)) \<and>
     distinct (map br_name (bridges db)) \<and>
     distinct (map (\<lambda>p. (bp_bridge_id p, bp_container_port p)) (bridge_ports db)) \<and>
     distinct (map (\<lambda>e. (be_bridge_id e, be_key e)) (bridge_envs db)) \<and>
     distinct (List.map_filter nd_node_uuid (client_nodes db)) \<and>
     hm_wf (server_config db)"

definition db_refs :: "database \<Rightarrow> bool" where
  "db_refs db \<longleftrightarrow>
     (\<forall>p \<in> set (bridge_ports db). bp_bridge_id p \<in> br_id ` set (bridges db)) \<and>
     (\<forall>e \<in> set (bridge_envs db). be_bridge_id e \<in> br_id ` set (bridges db)) \<and>
     (\<forall>c \<in> set (connections db). refs_ok (cn_bridge_id c) (cn_image_id c) (cn_node_id c) db)"

definition db_wf :: "database \<Rightarrow> bool" where
  "db_wf db \<longleftrightarrow> db_keys db \<and> db_unique db \<and> db_refs db"

lemma rows_wf_Nil [simp]: "rows_wf key seq []"
  by (simp add: rows_wf_def)

lemma rows_wf_append [simp]:
  "rows_wf key seq rows \<Longrightarrow> key r = seq + 1 \<Longrightarrow> rows_wf key (seq + 1) (rows @ [r])"
  by (fastforce simp: rows_wf_def)

lemma rows_wf_filter [simp]: "rows_wf key seq rows \<Longrightarrow> rows_wf key seq (filter P rows)"
  by (simp add: rows_wf_def distinct_map_filter)

lemma rows_wf_map: "(\<And>r. key (f r) = key r) \<Longrightarrow> rows_wf key seq (map f rows) = rows_wf key seq rows"
  by (simp add: rows_wf_def comp_def)

lemma rows_wf_fresh: "rows_wf key seq rows \<Longrightarrow> seq + 1 \<notin> key ` set rows"
  by (force simp: rows_wf_def)

lemma refs_ok_mono:
  "refs_ok b i n db \<Longrightarrow>
   br_id ` set (bridges db) \<subseteq> br_id ` set (bridges db') \<Longrightarrow>
   img_id ` set (images db) \<subseteq> img_id ` set (images db') \<Longrightarrow>
   nd_id ` set (client_nodes db) \<subseteq> nd_id ` set (client_nodes db') \<Longrightarrow> refs_ok b i n db'"
  by (auto simp: refs_ok_def split: option.splits)

lemma image_map_key: "(\<And>r. key (f r) = key r) \<Longrightarrow> key ` set (map f rows) = key ` set rows"
  by (force simp: image_iff)

lemma map_filter_same: "(\<And>r. g (f r) = g r) \<Longrightarrow> List.map_filter g (map f rows) = List.map_filter g rows"
  by (induction rows) (auto simp: List.map_filter_simps split: option.splits)

lemma map_filter_append: "List.map_filter g (xs @ ys) = List.map_filter g xs @ List.map_filter g ys"
  by (simp add: List.map_filter_def)

lemma set_map_filter: "y \<in> set (List.map_filter g xs) \<longleftrightarrow> (\<exists>x \<in> set xs. g x = Some y)"
  by (force simp: List.map_filter_def)

lemma distinct_map_filter_filter:
  "distinct (List.map_filter g xs) \<Longrightarrow> distinct (List.map_filter g (filter P xs))"
  by (induction xs) (auto simp: List.map_filter_simps set_map_filter split: option.splits)

lemma find_key:
  "distinct (map key rows) \<Longrightarrow> r \<in> set rows \<Longrightarrow> find (\<lambda>x. key x = key r) rows = Some r"
  by (induction rows) auto

lemma ids_filter:
  "key ` set rows - key ` set (filter P rows) \<subseteq> key ` set (filter (\<lambda>r. \<not> P r) rows)"
  by auto

lemma refs_ok_clear_image:
  "refs_ok b i n db \<Longrightarrow> img_id ` set (images db) - gone \<subseteq> img_id ` set (images db') \<Longrightarrow>
   bridges db' = bridges db \<Longrightarrow> client_nodes db' = client_nodes db \<Longrightarrow> refs_ok b (clear_ref gone i) n db'"
  by (auto simp: refs_ok_def clear_ref_def split: option.splits)

lemma refs_ok_clear_bridge:
  "refs_ok b i n db \<Longrightarrow> br_id ` set (bridges db) - gone \<subseteq> br_id ` set (bridges db') \<Longrightarrow>
   images db' = images db \<Longrightarrow> client_nodes db' = client_nodes db \<Longrightarrow> refs_ok (clear_ref gone b) i n db'"
  by (auto simp: refs_ok_def clear_ref_def split: option.splits)

lemma refs_ok_clear_node:
  "refs_ok b i n db \<Longrightarrow> nd_id ` set (client_nodes db) - gone \<subseteq> nd_id ` set (client_nodes db') \<Longrightarrow>
   images db' = images db \<Longrightarrow> bridges db' = bridges db \<Longrightarrow> refs_ok b i (clear_ref gone n) db'"
  by (auto simp: refs_ok_def clear_ref_def split: option.splits)

lemmas db_wf_defs = db_wf_def db_keys_def db_unique_def db_refs_def

lemma db_wf_refs: "db_wf db \<Longrightarrow> c \<in> set (connections db) \<Longrightarrow>
    refs_ok (cn_bridge_id c) (cn_image_id c) (cn_node_id c) db"
  by (simp add: db_wf_def db_refs_def)

lemma db_wf_empty [inv_intros]: "db_wf empty_db"
  by (simp add: db_wf_defs empty_db_def List.map_filter_simps)

lemma db_wf_set_setting [inv_intros]: "db_wf db \<Longrightarrow> db_wf (set_setting key v db)"
  by (simp add: db_wf_defs set_setting_def distinct_update refs_ok_def)

lemma db_wf_insert_image [inv_intros]:
  assumes "db_wf db"
  shows "db_wf (fst (insert_image now name source stype db))"
proof -
  let ?gone = "img_id ` set (filter (\<lambda>r. img_name r = name) (images db))"
  let ?db = "fst (insert_image now name source stype db)"
  have "distinct (map img_id (images db))" using assms by (simp add: db_wf_defs rows_wf_def)
  then have ids: "img_id ` set (images db) - ?gone \<subseteq> img_id ` set (images ?db)"
    by (auto simp: insert_image_def Let_def)
  have "db_keys ?db" "db_unique ?db"
    using assms by (auto simp: db_wf_defs insert_image_def Let_def rows_wf_map distinct_map_filter)
  moreover have "db_refs ?db"
    using assms refs_ok_clear_image [OF _ ids]
    by (auto simp: db_wf_defs insert_image_def Let_def)
  ultimately show ?thesis by (simp add: db_wf_def)
qed

lemma db_wf_insert_bridge [inv_intros]: "db_wf db \<Longrightarrow> db_wf (fst (insert_bridge now name db))"
  by (auto simp: db_wf_defs insert_bridge_def Let_def refs_ok_def split: option.splits)

lemma db_wf_delete_bridge [inv_intros]:
  assumes "db_wf db"
  shows "db_wf (fst (delete_bridge bid db))"
proof -
  let ?gone = "br_id ` set (filter (\<lambda>b. br_id b = bid) (bridges db))"
  let ?db = "fst (delete_bridge bid db)"
  have ids: "br_id ` set (bridges db) - ?gone \<subseteq> br_id ` set (bridges ?db)"
    by (auto simp: delete_bridge_def Let_def)
  have "db_keys ?db" "db_unique ?db"
    using assms by (auto simp: db_wf_defs delete_bridge_def Let_def rows_wf_map distinct_map_filter)
  moreover have "db_refs ?db" unfolding db_refs_def
  proof (intro conjI ballI)
    fix p assume "p \<in> set (bridge_ports ?db)"
    then have "bp_bridge_id p \<in> br_id ` set (bridges db) - ?gone"
      using assms by (simp add: db_wf_defs delete_bridge_def Let_def)
    with ids show "bp_bridge_id p \<in> br_id ` set (bridges ?db)" by blast
  next
    fix e assume "e \<in> set (bridge_envs ?db)"
    then have "be_bridge_id e \<in> br_id ` set (bridges db) - ?gone"
      using assms by (simp add: db_wf_defs delete_bridge_def Let_def)
    with ids show "be_bridge_id e \<in> br_id ` set (bridges ?db)" by blast
  next
    fix c assume "c \<in> set (connections ?db)"
    then obtain c' where "c' \<in> set (connections db)" "c = c'\<lparr>cn_bridge_id := clear_ref ?gone (cn_bridge_id c')\<rparr>"
      by (auto simp: delete_bridge_def Let_def)
    then show "refs_ok (cn_bridge_id c) (cn_image_id c) (cn_node_id c) ?db"
      using refs_ok_clear_bridge [OF db_wf_refs [OF assms] ids] by (simp add: delete_bridge_def Let_def)
  qed
  ultimately show ?thesis by (simp add: db_wf_def)
qed

lemma db_wf_insert_bridge_port [inv_intros]:
  "db_wf db \<Longrightarrow> db_wf (fst (insert_bridge_port bid cport mode route protocols pool db))"
  by (auto simp: db_wf_defs insert_bridge_port_def Let_def refs_ok_def split: option.splits)

lemma db_wf_delete_bridge_port [inv_intros]: "db_wf db \<Longrightarrow> db_wf (fst (delete_bridge_port bid cport db))"
  by (auto simp: db_wf_defs delete_bridge_port_def refs_ok_def distinct_map_filter split: option.splits)

lemma db_wf_insert_env: "db_wf db \<Longrightarrow> db_wf (fst (insert_env bid kv db))"
  by (auto simp: db_wf_defs insert_env_def refs_ok_def split: option.splits)

lemma db_wf_insert_envs: "db_wf db \<Longrightarrow> db_wf (fst (insert_envs bid kvs db))"
proof (induction kvs arbitrary: db)
  case (Cons kv kvs)
  from db_wf_insert_env [OF Cons.prems, of bid kv] show ?case
    by (auto intro: Cons.IH split: prod.splits sum.splits)
qed simp

lemma db_wf_set_bridge_envs [inv_intros]: "db_wf db \<Longrightarrow> db_wf (fst (set_bridge_envs bid envs db))"
  unfolding set_bridge_envs_def
  by (rule db_wf_insert_envs) (auto simp: db_wf_defs refs_ok_def distinct_map_filter)

lemma db_wf_insert_connection [inv_intros]: "db_wf db \<Longrightarrow> db_wf (fst (insert_connection now name db))"
  by (auto simp: db_wf_defs insert_connection_def Let_def refs_ok_def)

lemma refs_ok_connections [simp]: "refs_ok b i n (db\<lparr>connections := cs\<rparr>) = refs_ok b i n db"
  by (simp add: refs_ok_def)

lemma db_wf_update_connections:
  assumes "db_wf db" and "\<And>c. cn_id (f c) = cn_id c"
    and "\<And>c. c \<in> set (connections db) \<Longrightarrow> refs_ok (cn_bridge_id (f c)) (cn_image_id (f c)) (cn_node_id (f c)) db"
  shows "db_wf (db\<lparr>connections := map f (connections db)\<rparr>)"
  using assms by (auto simp: db_wf_defs rows_wf_map)

lemma db_wf_update_connection [inv_intros]:
  assumes wf: "db_wf db"
  shows "db_wf (fst (update_connection cid b i n db))"
proof -
  have "db_wf (db\<lparr>connections := map (\<lambda>c. if cn_id c = cid
      then c\<lparr>cn_bridge_id := x, cn_image_id := y, cn_node_id := z\<rparr> else c) (connections db)\<rparr>)"
    if "cid \<in> cn_id ` set (connections db) \<longrightarrow> refs_ok x y z db" for x y z
    using wf by (rule db_wf_update_connections) (use that db_wf_refs [OF wf] in auto)
  then show ?thesis using wf by (auto simp: update_connection_def Let_def split: prod.splits)
qed

lemma db_wf_update_connection_node [inv_intros]:
  assumes wf: "db_wf db"
  shows "db_wf (fst (update_connection_node cid n st ctr db))"
proof -
  have "refs_ok b i n db" if "refs_ok None None n db" "refs_ok b i m db" for b i m
    using that by (simp add: refs_ok_def)
  then have "db_wf (db\<lparr>connections := map (\<lambda>c. if cn_id c = cid
      then c\<lparr>cn_node_id := n, cn_status := st, cn_container_name := ctr\<rparr> else c) (connections db)\<rparr>)"
    if "cid \<in> cn_id ` set (connections db) \<longrightarrow> refs_ok None None n db"
    using wf by (intro db_wf_update_connections) (use that db_wf_refs [OF wf] in auto)
  then show ?thesis using wf by (auto simp: update_connection_node_def)
qed

lemma db_wf_delete_connection [inv_intros]: "db_wf db \<Longrightarrow> db_wf (fst (delete_connection cid db))"
  by (auto simp: db_wf_defs delete_connection_def)

lemma db_wf_update_nodes:
  assumes "db_wf db" and "\<And>n. nd_id (f n) = nd_id n" and "\<And>n. nd_node_uuid (f n) = nd_node_uuid n"
  shows "db_wf (db\<lparr>client_nodes := map f (client_nodes db)\<rparr>)"
proof -
  have "nd_id ` set (map f (client_nodes db)) = nd_id ` set (client_nodes db)"
    using assms(2) by (rule image_map_key)
  then show ?thesis
    using assms by (simp add: db_wf_defs rows_wf_map map_filter_same refs_ok_def)
qed

lemma db_wf_upsert_node [inv_intros]: "db_wf db \<Longrightarrow> db_wf (fst (upsert_node now uuid dig info db))"
proof -
  assume wf: "db_wf db"
  have "db_wf (db\<lparr>client_nodes :=
      map (\<lambda>n. if nd_node_uuid n = Some uuid then refresh_node now dig info n else n) (client_nodes db)\<rparr>)"
    using wf by (rule db_wf_update_nodes) (auto simp: refresh_node_def)
  then show ?thesis using wf
    by (auto simp: upsert_node_def node_row_def Let_def db_wf_defs refs_ok_def map_filter_append List.map_filter_simps
        set_map_filter split: option.splits)
qed

lemma db_wf_set_node_offline [inv_intros]: "db_wf db \<Longrightarrow> db_wf (set_node_offline uuid db)"
  unfolding set_node_offline_def by (rule db_wf_update_nodes) auto

lemma db_wf_mark_all_offline [inv_intros]: "db_wf db \<Longrightarrow> db_wf (mark_all_offline db)"
  unfolding mark_all_offline_def by (rule db_wf_update_nodes) auto

section \<open>Migration\<close>

lemma distinct_map_filter_upd:
  assumes "\<And>x. key (f x) = key x" and "\<And>x. g (f x) = Some u"
  shows "distinct (map key xs) \<Longrightarrow> distinct (List.map_filter g xs) \<Longrightarrow> u \<notin> set (List.map_filter g xs) \<Longrightarrow>
    distinct (List.map_filter g (map (\<lambda>x. if key x = i then f x else x) xs))"
proof (induction xs)
  case (Cons x xs)
  let ?h = "\<lambda>x. if key x = i then f x else x"
  have dist: "distinct (List.map_filter g (map ?h xs))"
    using Cons by (auto simp: List.map_filter_simps split: option.splits)
  show ?case
  proof (cases "key x = i")
    case True
    then have "map ?h xs = xs" using Cons.prems(1) by (intro map_idI) (force simp: image_iff)
    with True dist Cons.prems(3) show ?thesis
      by (auto simp: List.map_filter_simps assms split: option.splits)
  next
    case False
    then have "y \<notin> set (List.map_filter g (map ?h xs))" if "g x = Some y" for y
      using that Cons.prems(2,3) by (auto simp: set_map_filter List.map_filter_simps assms split: if_splits)
    with False dist show ?thesis by (auto simp: List.map_filter_simps split: option.splits)
  qed
qed simp

definition named :: "client_node \<Rightarrow> client_node \<Rightarrow> bool" where
  "named n n' \<longleftrightarrow> nd_node_uuid n' \<noteq> None \<and> n' = n\<lparr>nd_node_uuid := nd_node_uuid n'\<rparr>"

lemma backfill_ok:
  assumes "inj new_uuid"
  shows "\<forall>j \<ge> k. Some (new_uuid j) \<notin> nd_node_uuid ` set (client_nodes db) \<Longrightarrow>
    distinct (map nd_id (client_nodes db)) \<Longrightarrow> distinct (List.map_filter nd_node_uuid (client_nodes db)) \<Longrightarrow>
    \<exists>g. backfill new_uuid k ids db = (db\<lparr>client_nodes := map g (client_nodes db)\<rparr>, Inr ()) \<and>
      (\<forall>n. nd_id n \<in> set ids \<longrightarrow> named n (g n)) \<and> (\<forall>n. nd_id n \<notin> set ids \<longrightarrow> g n = n) \<and>
      distinct (List.map_filter nd_node_uuid (map g (client_nodes db)))"
proof (induction ids arbitrary: k db)
  case Nil
  then show ?case by (intro exI [of _ id]) simp
next
  case (Cons i ids)
  let ?h = "\<lambda>n. if nd_id n = i then n\<lparr>nd_node_uuid := Some (new_uuid k)\<rparr> else n"
  let ?db = "db\<lparr>client_nodes := map ?h (client_nodes db)\<rparr>"
  have fresh: "new_uuid k \<notin> set (List.map_filter nd_node_uuid (client_nodes db))"
    using Cons.prems(1) by (force simp: set_map_filter)
  have "\<forall>j \<ge> Suc k. Some (new_uuid j) \<notin> nd_node_uuid ` set (client_nodes ?db)"
  proof (intro allI impI notI)
    fix j assume j: "Suc k \<le> j" "Some (new_uuid j) \<in> nd_node_uuid ` set (client_nodes ?db)"
    then obtain n where n: "n \<in> set (client_nodes db)" "Some (new_uuid j) = nd_node_uuid (?h n)" by auto
    show False
    proof (cases "nd_id n = i")
      case True
      with n(2) assms have "j = k" by (simp add: inj_eq)
      with j(1) show False by simp
    next
      case False
      with n Cons.prems(1) j(1) show False by (auto simp: image_iff)
    qed
  qed
  moreover have "distinct (map nd_id (client_nodes ?db))"
    using Cons.prems(2) by (simp add: comp_def if_distrib [of nd_id] cong: if_cong)
  moreover have "distinct (List.map_filter nd_node_uuid (client_nodes ?db))"
    using distinct_map_filter_upd [of nd_id "\<lambda>n. n\<lparr>nd_node_uuid := Some (new_uuid k)\<rparr>" nd_node_uuid,
        OF _ _ Cons.prems(2,3) fresh] by simp
  ultimately obtain g where g: "backfill new_uuid (Suc k) ids ?db = (?db\<lparr>client_nodes := map g (client_nodes ?db)\<rparr>, Inr ())"
      "\<forall>n. nd_id n \<in> set ids \<longrightarrow> named n (g n)" "\<forall>n. nd_id n \<notin> set ids \<longrightarrow> g n = n"
      "distinct (List.map_filter nd_node_uuid (map g (client_nodes ?db)))"
    using Cons.IH [of "Suc k" ?db] by blast
  have "backfill new_uuid k (i # ids) db = backfill new_uuid (Suc k) ids ?db"
    using fresh by (auto simp: set_map_filter)
  moreover have "named n (g (?h n))" if "nd_id n \<in> set (i # ids)" for n
  proof (cases "nd_id n \<in> set ids")
    case True
    then have "named (?h n) (g (?h n))" using spec [OF g(2), of "?h n"] by (cases "nd_id n = i") auto
    then show ?thesis by (auto simp: named_def split: if_splits)
  next
    case False
    with that g(3) show ?thesis by (simp add: named_def)
  qed
  moreover have "g (?h n) = n" if "nd_id n \<notin> set (i # ids)" for n
    using that g(3) by simp
  ultimately show ?case using g(1,4) by (intro exI [of _ "g \<circ> ?h"]) (simp add: comp_def)
qed

lemma db_wf_drop_anonymous:
  assumes wf: "db_wf db"
  shows "db_wf (drop_anonymous_nodes db)"
proof -
  let ?gone = "nd_id ` set (filter (\<lambda>n. nd_node_uuid n = None) (client_nodes db))"
  let ?db = "drop_anonymous_nodes db"
  let ?h = "\<lambda>c. if \<exists>i \<in> ?gone. cn_node_id c = Some i then c\<lparr>cn_node_id := None, cn_status := ''pending''\<rparr> else c"
  have ids: "nd_id ` set (client_nodes db) - ?gone \<subseteq> nd_id ` set (client_nodes ?db)"
    using ids_filter [of nd_id "client_nodes db" "\<lambda>n. nd_node_uuid n = None"]
    by (simp add: drop_anonymous_nodes_def Let_def)
  have refs: "refs_ok (cn_bridge_id (?h c)) (cn_image_id (?h c)) (cn_node_id (?h c)) ?db"
    if "c \<in> set (connections db)" for c
  proof -
    have "cn_node_id (?h c) = clear_ref ?gone (cn_node_id c)"
      by (auto simp: clear_ref_def split: option.splits)
    then show ?thesis
      using refs_ok_clear_node [OF db_wf_refs [OF wf that] ids]
      by (simp add: drop_anonymous_nodes_def Let_def)
  qed
  have "db_keys ?db" "db_unique ?db"
    using wf by (auto simp: db_wf_defs drop_anonymous_nodes_def Let_def rows_wf_map
        distinct_map_filter_filter intro!: rows_wf_map [THEN iffD2])
  moreover have "db_refs ?db"
  proof -
    have "connections ?db = map ?h (connections db)" by (simp only: drop_anonymous_nodes_def Let_def) simp
    then have "\<forall>c \<in> set (connections ?db). refs_ok (cn_bridge_id c) (cn_image_id c) (cn_node_id c) ?db"
      using refs by (simp only: set_map) blast
    then show ?thesis using wf by (simp add: db_wf_defs drop_anonymous_nodes_def Let_def)
  qed
  ultimately show ?thesis by (simp add: db_wf_def)
qed

lemma legacy_ids_iff:
  assumes "distinct (map nd_id (client_nodes db))" and "n \<in> set (client_nodes db)"
  shows "nd_id n \<in> set (legacy_ids db) \<longleftrightarrow> nd_node_uuid n = None \<and> nd_auth_digest n \<noteq> None"
proof -
  have "m = n" if "m \<in> set (client_nodes db)" "nd_id m = nd_id n" for m
    using assms that by (auto simp: distinct_map dest: inj_onD)
  then show ?thesis using assms(2) by (force simp: legacy_ids_def)
qed

text \<open>A node of the old database as the migration leaves it.\<close>

definition kept_node :: "client_node \<Rightarrow> client_node \<Rightarrow> bool" where
  "kept_node n n' \<longleftrightarrow> named n n' \<and> (nd_node_uuid n \<noteq> None \<longrightarrow> n' = n)"

definition has_identity :: "client_node \<Rightarrow> bool" where
  "has_identity n \<longleftrightarrow> nd_node_uuid n \<noteq> None \<or> nd_auth_digest n \<noteq> None"

lemma db_wf_schema [simp]: "db_wf (db\<lparr>client_nodes_schema := x\<rparr>) = db_wf db"
  by (simp add: db_wf_defs refs_ok_def)

lemma migrate_spec:
  assumes wf: "db_wf db" and "inj new_uuid"
    and fresh: "\<forall>k. Some (new_uuid k) \<notin> nd_node_uuid ` set (client_nodes db)"
  obtains g x where
    "migrate new_uuid db =
       (drop_anonymous_nodes (db\<lparr>client_nodes_schema := x, client_nodes := map g (client_nodes db)\<rparr>), Inr ())"
    "x \<noteq> None" "db_wf (db\<lparr>client_nodes_schema := x, client_nodes := map g (client_nodes db)\<rparr>)"
    "\<And>n. n \<in> set (client_nodes db) \<Longrightarrow> has_identity n \<Longrightarrow> kept_node n (g n)"
    "\<And>n. n \<in> set (client_nodes db) \<Longrightarrow> \<not> has_identity n \<Longrightarrow> g n = n"
    "\<And>n. nd_id (g n) = nd_id n"
    "x = (case client_nodes_schema db of None \<Rightarrow> Some UuidUnique
          | Some UuidMissing \<Rightarrow> Some UuidPartialIndex | Some y \<Rightarrow> Some y)"
proof -
  define x where "x = (case client_nodes_schema db of None \<Rightarrow> Some UuidUnique
          | Some UuidMissing \<Rightarrow> Some UuidPartialIndex | Some y \<Rightarrow> Some y)"
  define db1 where "db1 = db\<lparr>client_nodes_schema := x\<rparr>"
  have keys: "distinct (map nd_id (client_nodes db))" "distinct (List.map_filter nd_node_uuid (client_nodes db))"
    using wf by (auto simp: db_wf_defs rows_wf_def)
  obtain g where g: "backfill new_uuid 0 (legacy_ids db) db1 = (db1\<lparr>client_nodes := map g (client_nodes db)\<rparr>, Inr ())"
    and named: "\<forall>n. nd_id n \<in> set (legacy_ids db) \<longrightarrow> named n (g n)"
    and same: "\<forall>n. nd_id n \<notin> set (legacy_ids db) \<longrightarrow> g n = n"
    and dist: "distinct (List.map_filter nd_node_uuid (map g (client_nodes db)))"
    using backfill_ok [OF assms(2), of 0 db1 "legacy_ids db"] fresh keys by (auto simp: db1_def)
  have gid: "nd_id (g n) = nd_id n" for n
  proof (cases "nd_id n \<in> set (legacy_ids db)")
    case True
    then have "named n (g n)" using named by simp
    then have "g n = n\<lparr>nd_node_uuid := nd_node_uuid (g n)\<rparr>" by (simp add: named_def)
    then have "nd_id (g n) = nd_id (n\<lparr>nd_node_uuid := nd_node_uuid (g n)\<rparr>)" by (rule arg_cong)
    then show ?thesis by simp
  qed (use same in simp)
  have schema: "(case client_nodes_schema db of None \<Rightarrow> db\<lparr>client_nodes_schema := Some UuidUnique\<rparr>
      | Some UuidMissing \<Rightarrow> db\<lparr>client_nodes_schema := Some UuidPartialIndex\<rparr> | Some _ \<Rightarrow> db) = db1"
    by (auto simp: db1_def x_def split: option.splits uuid_column.splits)
  show thesis
  proof
    show "migrate new_uuid db = (drop_anonymous_nodes
        (db\<lparr>client_nodes_schema := x, client_nodes := map g (client_nodes db)\<rparr>), Inr ())"
      unfolding migrate_def schema Let_def using g by (simp add: db1_def legacy_ids_def)
    have "nd_id ` set (map g (client_nodes db)) = nd_id ` set (client_nodes db)"
      using gid by (rule image_map_key)
    then show "db_wf (db\<lparr>client_nodes_schema := x, client_nodes := map g (client_nodes db)\<rparr>)"
      using wf dist gid by (simp add: db_wf_defs rows_wf_map refs_ok_def)
    show "kept_node n (g n)" if "n \<in> set (client_nodes db)" "has_identity n" for n
      using that named same legacy_ids_iff [OF keys(1) that(1)]
      by (auto simp: kept_node_def has_identity_def named_def)
    show "g n = n" if "n \<in> set (client_nodes db)" "\<not> has_identity n" for n
      using that same legacy_ids_iff [OF keys(1) that(1)] by (auto simp: has_identity_def)
    show "nd_id (g n) = nd_id n" for n by (rule gid)
    show "x \<noteq> None" by (auto simp: x_def split: option.splits uuid_column.splits)
  qed (rule x_def)
qed

text \<open>
  C9. Migration keeps identities: given fresh uuids, opening a database of any earlier schema
  succeeds, keeps the integrity of the tables, gives every node a uuid, leaves every node that
  has a uuid or an auth digest in place (with the uuid it had, if it had one), and leaves every
  connection that does not refer to a removed node as it was.
\<close>

theorem migrate_keeps_identities:
  assumes "db_wf db" and "inj new_uuid"
    and "\<forall>k. Some (new_uuid k) \<notin> nd_node_uuid ` set (client_nodes db)"
  shows "\<exists>db'. migrate new_uuid db = (db', Inr ()) \<and> db_wf db' \<and>
    (\<forall>n' \<in> set (client_nodes db'). nd_node_uuid n' \<noteq> None) \<and>
    (\<forall>n \<in> set (client_nodes db). has_identity n \<longrightarrow> (\<exists>n' \<in> set (client_nodes db'). kept_node n n')) \<and>
    (\<forall>c \<in> set (connections db).
       (\<forall>n \<in> set (client_nodes db). cn_node_id c = Some (nd_id n) \<longrightarrow> has_identity n) \<longrightarrow>
       c \<in> set (connections db'))"
proof -
  obtain g x where g: "migrate new_uuid db = (drop_anonymous_nodes
      (db\<lparr>client_nodes_schema := x, client_nodes := map g (client_nodes db)\<rparr>), Inr ())"
    and wf: "db_wf (db\<lparr>client_nodes_schema := x, client_nodes := map g (client_nodes db)\<rparr>)"
    and kept: "\<And>n. n \<in> set (client_nodes db) \<Longrightarrow> has_identity n \<Longrightarrow> kept_node n (g n)"
    and ids: "\<And>n. nd_id (g n) = nd_id n"
    using migrate_spec [OF assms] by metis
  have anon: "\<not> has_identity n" if "n \<in> set (client_nodes db)" "nd_node_uuid (g n) = None" for n
    using kept [OF that(1)] that(2) by (auto simp: kept_node_def named_def)
  show ?thesis
    using g db_wf_drop_anonymous [OF wf] kept ids anon
    by (intro exI conjI) (assumption | force simp: drop_anonymous_nodes_def Let_def kept_node_def named_def)+
qed

definition sample_node :: client_node where
  "sample_node = \<lparr>nd_id = 1, nd_hostname = ''h'', nd_os = ''linux'', nd_arch = ''x86_64'',
     nd_docker_version = ''24'', nd_port_range_start = 3000, nd_port_range_end = 3999, nd_cpu_cores = 4,
     nd_memory_mb = 1024, nd_status = ''offline'', nd_auth_digest = Some ''ab'', nd_node_uuid = None,
     nd_last_seen = 0\<rparr>"

definition sample_info :: node_info where
  "sample_info = \<lparr>ni_hostname = ''h'', ni_os = ''linux'', ni_arch = ''x86_64'', ni_docker_version = ''24'',
     ni_port_range_start = 3000, ni_port_range_end = 3999, ni_cpu_cores = 4, ni_memory_mb = 1024\<rparr>"

definition legacy_db :: database where
  "legacy_db = empty_db\<lparr>client_nodes := [sample_node], client_node_seq := 1,
     client_nodes_schema := Some UuidMissing\<rparr>"

lemma legacy_db_wf: "db_wf legacy_db"
  by (simp add: db_wf_defs legacy_db_def sample_node_def empty_db_def List.map_filter_simps rows_wf_def)

theorem migrate_keeps_identities_witness:
  "\<exists>n' \<in> set (client_nodes (fst (migrate (\<lambda>k. replicate k (CHR ''u'')) legacy_db))).
     nd_id n' = 1 \<and> nd_node_uuid n' \<noteq> None"
proof -
  have "inj (\<lambda>k. replicate k (CHR ''u''))" by (rule injI) (metis length_replicate)
  moreover have "\<forall>k. Some (replicate k (CHR ''u'')) \<notin> nd_node_uuid ` set (client_nodes legacy_db)"
    by (simp add: legacy_db_def sample_node_def)
  moreover have "has_identity sample_node" "sample_node \<in> set (client_nodes legacy_db)" "nd_id sample_node = 1"
    by (simp_all add: has_identity_def sample_node_def legacy_db_def)
  ultimately obtain n' where "n' \<in> set (client_nodes (fst (migrate (\<lambda>k. replicate k (CHR ''u'')) legacy_db)))"
      "kept_node sample_node n'"
    using migrate_keeps_identities [OF legacy_db_wf] by (metis fst_conv)
  moreover from this have "nd_id n' = nd_id sample_node" by (metis kept_node_def named_def client_node.select_convs(1) client_node.surjective client_node.update_convs(12))
  ultimately show ?thesis using \<open>nd_id sample_node = 1\<close> by (auto simp: kept_node_def named_def)
qed

section \<open>Every run keeps the tables consistent\<close>

inductive db_step :: "database \<Rightarrow> database \<Rightarrow> bool" where
  "db_step db (set_setting key v db)"
| "db_step db (fst (insert_image now name source stype db))"
| "db_step db (fst (insert_bridge now name db))"
| "db_step db (fst (delete_bridge bid db))"
| "db_step db (fst (insert_bridge_port bid cport mode route protocols pool db))"
| "db_step db (fst (delete_bridge_port bid cport db))"
| "db_step db (fst (set_bridge_envs bid envs db))"
| "db_step db (fst (insert_connection now name db))"
| "db_step db (fst (update_connection cid b i n db))"
| "db_step db (fst (update_connection_node cid m st ctr db))"
| "db_step db (fst (delete_connection cid db))"
| "db_step db (fst (upsert_node now uuid dig info db))"
| "db_step db (set_node_offline uuid db)"
| "db_step db (mark_all_offline db)"

inductive_cases db_stepE: "db_step db db'"

definition opened :: "database \<Rightarrow> bool" where
  "opened db \<longleftrightarrow> (\<exists>old new_uuid. db_wf old \<and> inj new_uuid \<and>
     (\<forall>k. Some (new_uuid k) \<notin> nd_node_uuid ` set (client_nodes old)) \<and>
     migrate new_uuid old = (db, Inr ()))"

definition all_named :: "database \<Rightarrow> bool" where
  "all_named db \<longleftrightarrow> (\<forall>n \<in> set (client_nodes db). nd_node_uuid n \<noteq> None)"

lemma insert_envs_nodes: "client_nodes (fst (insert_envs bid kvs db)) = client_nodes db"
  by (induction kvs arbitrary: db) (auto simp: insert_env_def split: prod.splits sum.splits if_splits)

lemma db_step_named:
  assumes "db_step db db'" and "all_named db"
  shows "all_named db'"
  using assms
  by (cases rule: db_step.cases)
    (auto simp: all_named_def set_setting_def insert_image_def insert_bridge_def delete_bridge_def
      insert_bridge_port_def delete_bridge_port_def set_bridge_envs_def insert_envs_nodes
      insert_connection_def update_connection_def update_connection_node_def delete_connection_def
      upsert_node_def refresh_node_def node_row_def set_node_offline_def mark_all_offline_def Let_def
      split: prod.splits)

lemma db_step_wf: "db_step db db' \<Longrightarrow> db_wf db \<Longrightarrow> db_wf db'"
  by (elim db_stepE) (simp_all only: inv_intros)

lemma opened_migrated:
  assumes "opened db"
  shows "db_wf db \<and> all_named db"
proof -
  from assms obtain old new_uuid where a: "db_wf old" "inj new_uuid"
      "\<forall>k. Some (new_uuid k) \<notin> nd_node_uuid ` set (client_nodes old)" "migrate new_uuid old = (db, Inr ())"
    by (auto simp: opened_def)
  obtain g x where g: "migrate new_uuid old = (drop_anonymous_nodes
      (old\<lparr>client_nodes_schema := x, client_nodes := map g (client_nodes old)\<rparr>), Inr ())"
    and wf: "db_wf (old\<lparr>client_nodes_schema := x, client_nodes := map g (client_nodes old)\<rparr>)"
    using migrate_spec [OF a(1-3)] by metis
  show ?thesis
    using db_wf_drop_anonymous [OF wf] a(4) g
    by (auto simp: all_named_def drop_anonymous_nodes_def Let_def)
qed

interpretation db_run: inductive_invariant opened db_step "\<lambda>db. db_wf db \<and> all_named db"
  by unfold_locales (auto dest: opened_migrated db_step_wf db_step_named)

text \<open>
  C7. Integrity: after opening, whatever sequence of operations runs (those that fail included),
  primary keys stay unique and below the table's sequence, the UNIQUE constraints hold (at most
  one port row per bridge and container port, one variable per bridge and key, one node
  per uuid), every reference of a connection, port or variable names an existing row, and
  every node has a uuid.
\<close>

theorem db_integrity:
  assumes "reach opened db_step db"
  shows "db_keys db \<and> db_unique db \<and> db_refs db \<and> all_named db"
  using db_run.reach_inv [OF assms] by (simp add: db_wf_def)

theorem db_integrity_witness:
  "db_refs (fst (insert_connection 7 ''c'' (empty_db\<lparr>client_nodes_schema := Some UuidUnique\<rparr>)))"
proof -
  have "migrate (\<lambda>k. replicate k (CHR ''u'')) empty_db = (empty_db\<lparr>client_nodes_schema := Some UuidUnique\<rparr>, Inr ())"
    by (simp add: migrate_def empty_db_def legacy_ids_def drop_anonymous_nodes_def)
  moreover have "inj (\<lambda>k. replicate k (CHR ''u''))" by (rule injI) (metis length_replicate)
  moreover have "\<forall>k. Some (replicate k (CHR ''u'')) \<notin> nd_node_uuid ` set (client_nodes empty_db)"
    by (simp add: empty_db_def)
  ultimately have "opened (empty_db\<lparr>client_nodes_schema := Some UuidUnique\<rparr>)"
    unfolding opened_def using db_wf_empty by blast
  then have "reach opened db_step (fst (insert_connection 7 ''c'' (empty_db\<lparr>client_nodes_schema := Some UuidUnique\<rparr>)))"
    by (meson reach.intros db_step.intros)
  from db_integrity [OF this] show ?thesis by simp
qed

text \<open>
  A database created before nodes had uuids never accepts a node again: the migration
  gives its \<^verbatim>\<open>node_uuid\<close> column a partial index only, and every later \<^verbatim>\<open>upsert_node\<close> is
  rejected because its conflict clause matches no constraint.
\<close>

theorem legacy_database_rejects_nodes:
  assumes "client_nodes_schema db = Some UuidMissing" and "migrate new_uuid db = (db', r)"
  shows "upsert_node now uuid dig info db' = (db', Inl NoConflictTarget)"
proof -
  have "client_nodes_schema (fst (backfill new_uuid k ids d)) = client_nodes_schema d" for k ids d
    by (induction ids arbitrary: k d) auto
  from this [of 0] have "client_nodes_schema (fst (migrate new_uuid db)) = Some UuidPartialIndex"
    using assms(1)
    by (auto simp: migrate_def drop_anonymous_nodes_def Let_def split: prod.splits sum.splits)
      (metis (no_types, lifting) database.select_convs(14) database.surjective database.update_convs(14) fst_conv)+
  then show ?thesis using assms(2) by (simp add: upsert_node_def)
qed

theorem legacy_database_rejects_nodes_witness:
  "snd (upsert_node 5 ''uuid'' ''ab'' sample_info (fst (migrate (\<lambda>k. replicate k (CHR ''u'')) legacy_db))) = Inl NoConflictTarget"
  using legacy_database_rejects_nodes [of legacy_db "\<lambda>k. replicate k (CHR ''u'')"
      "fst (migrate (\<lambda>k. replicate k (CHR ''u'')) legacy_db)"
      "snd (migrate (\<lambda>k. replicate k (CHR ''u'')) legacy_db)"]
  by (simp add: legacy_db_def)

section \<open>Nodes as a store keyed by uuid\<close>

text \<open>
  What the rest of the server relies on: each node is found under its uuid, a connecting
  node is online under the row it had, a disconnecting one offline, and no event touches
  another node.
\<close>

datatype ('i, 'o) node_happening = Up string 'i | Down string | Other 'o

locale node_store =
  fixes inv :: "'d \<Rightarrow> bool"
    and node :: "string \<Rightarrow> 'd \<Rightarrow> 'n option"
    and online :: "'n \<Rightarrow> bool"
    and connect :: "string \<Rightarrow> 'i \<Rightarrow> 'd \<Rightarrow> 'd"
    and disconnect :: "string \<Rightarrow> 'd \<Rightarrow> 'd"
    and other :: "'o \<Rightarrow> 'd \<Rightarrow> 'd"
  assumes connect_inv: "inv d \<Longrightarrow> inv (connect u i d)"
    and disconnect_inv: "inv d \<Longrightarrow> inv (disconnect u d)"
    and other_inv: "inv d \<Longrightarrow> inv (other o' d)"
    and connect_same: "inv d \<Longrightarrow> \<exists>n. node u (connect u i d) = Some n \<and> online n"
    and connect_other: "inv d \<Longrightarrow> v \<noteq> u \<Longrightarrow> node v (connect u i d) = node v d"
    and disconnect_same: "inv d \<Longrightarrow> node u (disconnect u d) = Some n \<Longrightarrow> \<not> online n"
    and disconnect_found: "inv d \<Longrightarrow> (node u (disconnect u d) = None) = (node u d = None)"
    and disconnect_other: "inv d \<Longrightarrow> v \<noteq> u \<Longrightarrow> node v (disconnect u d) = node v d"
    and other_node: "inv d \<Longrightarrow> node v (other o' d) = node v d"
begin

fun happen :: "('i, 'o) node_happening \<Rightarrow> 'd \<Rightarrow> 'd" where
  "happen (Up u i) d = connect u i d"
| "happen (Down u) d = disconnect u d"
| "happen (Other x) d = other x d"

lemma happen_inv: "inv d \<Longrightarrow> inv (happen e d)"
  by (cases e) (simp_all add: connect_inv disconnect_inv other_inv)

lemma happens_inv: "inv d \<Longrightarrow> inv (fold happen es d)"
  by (induction es arbitrary: d) (simp_all add: happen_inv)

lemma happen_apart: "inv d \<Longrightarrow> (\<forall>i. Up v i \<noteq> e) \<Longrightarrow> Down v \<noteq> e \<Longrightarrow> node v (happen e d) = node v d"
  by (cases e) (auto simp: connect_other disconnect_other other_node)

lemma happens_apart:
  "inv d \<Longrightarrow> (\<forall>i. Up v i \<notin> set es) \<Longrightarrow> Down v \<notin> set es \<Longrightarrow> node v (fold happen es d) = node v d"
  by (induction es arbitrary: d) (auto simp: happen_inv happen_apart)

lemma last_happening_decides:
  assumes "inv d" and "\<forall>i. Up u i \<notin> set after" and "Down u \<notin> set after"
  shows "\<exists>n. node u (fold happen (before @ Up u i # after) d) = Some n \<and> online n"
    and "node u (fold happen (before @ Down u # after) d) = Some n \<Longrightarrow> \<not> online n"
proof -
  have mid: "inv (fold happen before d)" using assms(1) by (rule happens_inv)
  have last: "node u (fold happen (before @ e # after) d) = node u (happen e (fold happen before d))" for e
    using happens_apart [OF happen_inv [OF mid] assms(2,3)] by simp
  show "\<exists>n. node u (fold happen (before @ Up u i # after) d) = Some n \<and> online n"
    unfolding last happen.simps by (rule connect_same [OF mid])
  show "node u (fold happen (before @ Down u # after) d) = Some n \<Longrightarrow> \<not> online n"
    unfolding last happen.simps by (rule disconnect_same [OF mid])
qed

end

definition node_online :: "client_node \<Rightarrow> bool" where
  "node_online n \<longleftrightarrow> nd_status n = ''online''"

definition node_connected :: "string \<Rightarrow> int \<times> string \<times> node_info \<Rightarrow> database \<Rightarrow> database" where
  "node_connected u i db = fst (upsert_node (fst i) u (fst (snd i)) (snd (snd i)) db)"

definition store_inv :: "database \<Rightarrow> bool" where
  "store_inv db \<longleftrightarrow> db_wf db \<and> client_nodes_schema db = Some UuidUnique"

lemma find_map_if:
  assumes "\<And>x. P (f x) = P x"
  shows "find P (map f xs) = map_option f (find P xs)"
  using assms by (induction xs) auto

lemma find_cong_pred: "(\<And>x. x \<in> set xs \<Longrightarrow> P x = Q x) \<Longrightarrow> find P xs = find Q xs"
  by (induction xs) auto

lemma find_append: "find P (xs @ ys) = (case find P xs of Some x \<Rightarrow> Some x | None \<Rightarrow> find P ys)"
  by (induction xs) auto

lemma find_None_iff_ball: "find P xs = None \<longleftrightarrow> (\<forall>x \<in> set xs. \<not> P x)"
  by (auto simp: find_None_iff)

lemma get_node_by_uuid_upsert_same:
  assumes "client_nodes_schema db = Some UuidUnique"
  shows "get_node_by_uuid uuid (fst (upsert_node now uuid dig info db)) =
    Some (case get_node_by_uuid uuid db of
            Some n \<Rightarrow> refresh_node now dig info n
          | None \<Rightarrow> node_row now (client_node_seq db + 1) uuid dig info)"
proof (cases "get_node_by_uuid uuid db")
  case None
  then have "\<not> (\<exists>n \<in> set (client_nodes db). nd_node_uuid n = Some uuid)"
    by (simp add: get_node_by_uuid_def find_None_iff_ball)
  then show ?thesis using assms None
    by (simp add: get_node_by_uuid_def upsert_node_def Let_def find_append node_row_def)
next
  case (Some n)
  then have "\<exists>n \<in> set (client_nodes db). nd_node_uuid n = Some uuid"
    by (auto simp: get_node_by_uuid_def dest: find_Some_set)
  moreover have "nd_node_uuid n = Some uuid" using Some by (auto simp: get_node_by_uuid_def dest: find_Some_set)
  ultimately show ?thesis using assms Some
    by (simp add: get_node_by_uuid_def upsert_node_def find_map_if refresh_node_def)
qed

lemma get_node_by_uuid_upsert_other:
  assumes "v \<noteq> uuid"
  shows "get_node_by_uuid v (fst (upsert_node now uuid dig info db)) = get_node_by_uuid v db"
proof -
  have "find (\<lambda>n. nd_node_uuid n = Some v)
      (map (\<lambda>n. if nd_node_uuid n = Some uuid then refresh_node now dig info n else n) ns) =
    find (\<lambda>n. nd_node_uuid n = Some v) ns" for ns
    using assms by (induction ns) (auto simp: refresh_node_def)
  then show ?thesis using assms
    by (auto simp: get_node_by_uuid_def upsert_node_def Let_def find_append node_row_def split: option.splits)
qed

lemma get_node_by_uuid_offline:
  "get_node_by_uuid v (set_node_offline uuid db) =
    (if v = uuid then map_option (\<lambda>n. n\<lparr>nd_status := ''offline''\<rparr>) (get_node_by_uuid v db)
     else get_node_by_uuid v db)"
proof -
  have "find (\<lambda>n. nd_node_uuid n = Some v)
      (map (\<lambda>n. if nd_node_uuid n = Some uuid then n\<lparr>nd_status := ''offline''\<rparr> else n) ns) =
    (if v = uuid then map_option (\<lambda>n. n\<lparr>nd_status := ''offline''\<rparr>) (find (\<lambda>n. nd_node_uuid n = Some v) ns)
     else find (\<lambda>n. nd_node_uuid n = Some v) ns)" for ns
    by (induction ns) auto
  from this [of "client_nodes db"] show ?thesis by (simp add: get_node_by_uuid_def set_node_offline_def)
qed

lemma upsert_schema [simp]:
  "client_nodes_schema (fst (upsert_node now uuid dig info db)) = client_nodes_schema db"
  by (simp add: upsert_node_def Let_def)

interpretation nodes: node_store store_inv get_node_by_uuid node_online
  node_connected set_node_offline
  "\<lambda>x db. fst (update_connection_node (fst x) None (snd x) None db)"
proof unfold_locales
  fix db :: database and x :: "int \<times> string" and u v :: string and i :: "int \<times> string \<times> node_info" and n :: client_node
  assume inv: "store_inv db"
  then show "store_inv (node_connected u i db)"
    by (auto simp: node_connected_def store_inv_def intro: inv_intros)
  show "store_inv (set_node_offline u db)"
    using inv db_wf_set_node_offline [of db u] by (auto simp: store_inv_def set_node_offline_def)
  show "\<exists>n. get_node_by_uuid u (node_connected u i db) = Some n \<and>
      node_online n"
    using inv by (auto simp: node_connected_def store_inv_def get_node_by_uuid_upsert_same node_online_def refresh_node_def node_row_def
        split: option.splits)
  show "store_inv (fst (update_connection_node (fst x) None (snd x) None db))"
    using inv db_wf_update_connection_node [of db] by (auto simp: store_inv_def update_connection_node_def)
  show "get_node_by_uuid v (fst (update_connection_node (fst x) None (snd x) None db)) = get_node_by_uuid v db"
    by (simp add: get_node_by_uuid_def update_connection_node_def)
  show "\<not> node_online n" if "get_node_by_uuid u (set_node_offline u db) = Some n"
    using that by (auto simp: get_node_by_uuid_offline node_online_def)
  show "(get_node_by_uuid u (set_node_offline u db) = None) = (get_node_by_uuid u db = None)"
    by (simp add: get_node_by_uuid_offline)
  show "get_node_by_uuid v (node_connected u i db) =
      get_node_by_uuid v db" if "v \<noteq> u"
    using that by (simp add: node_connected_def get_node_by_uuid_upsert_other)
  show "get_node_by_uuid v (set_node_offline u db) = get_node_by_uuid v db" if "v \<noteq> u"
    using that by (simp add: get_node_by_uuid_offline)
qed

text \<open>
  A returning machine keeps its row: \<^verbatim>\<open>upsert_node\<close> with a known uuid keeps the row's id, so
  connections that refer to the node stay attached, and refreshes every reported column; with
  a new uuid it adds a row under an id no row ever had; every other node is unchanged.
\<close>

theorem upsert_node_identity:
  assumes "db_wf db" and "client_nodes_schema db = Some UuidUnique"
  shows "snd (upsert_node now uuid dig info db) = Inr () \<and>
    (\<exists>n. get_node_by_uuid uuid (fst (upsert_node now uuid dig info db)) = Some n \<and>
       refresh_node now dig info n = n \<and> nd_status n = ''online'' \<and>
       (case get_node_by_uuid uuid db of
          Some old \<Rightarrow> nd_id n = nd_id old
        | None \<Rightarrow> nd_id n \<notin> nd_id ` set (client_nodes db))) \<and>
    (\<forall>v. v \<noteq> uuid \<longrightarrow> get_node_by_uuid v (fst (upsert_node now uuid dig info db)) = get_node_by_uuid v db)"
proof -
  have "client_node_seq db + 1 \<notin> nd_id ` set (client_nodes db)"
    using assms(1) by (intro rows_wf_fresh) (simp add: db_wf_defs)
  then show ?thesis
    using assms(2)
    by (simp add: get_node_by_uuid_upsert_same get_node_by_uuid_upsert_other refresh_node_def node_row_def
        split: option.splits) (simp add: upsert_node_def Let_def)
qed

theorem upsert_node_identity_witness:
  "\<exists>n. get_node_by_uuid ''u1'' (fst (upsert_node 5 ''u1'' ''ab'' sample_info
      (empty_db\<lparr>client_nodes_schema := Some UuidUnique\<rparr>))) = Some n \<and> nd_status n = ''online''"
  using upsert_node_identity [of "empty_db\<lparr>client_nodes_schema := Some UuidUnique\<rparr>" 5 "''u1''" "''ab''" sample_info]
    db_wf_empty by auto

section \<open>Bridges, variables and connections\<close>

lemma find_after_delete:
  fixes key :: "'x \<Rightarrow> int"
  shows "find (\<lambda>x. key x = b) (filter (\<lambda>x. key x \<noteq> bid) xs) = (if b = bid then None else find (\<lambda>x. key x = b) xs)"
  by (induction xs) auto

lemma filter_after_delete:
  fixes key :: "'x \<Rightarrow> int"
  shows "filter (\<lambda>x. key x = b) (filter (\<lambda>x. key x \<noteq> bid) xs) = (if b = bid then [] else filter (\<lambda>x. key x = b) xs)"
  by (induction xs) auto

lemma insort_key_map: "map f (insort_key (\<lambda>x. k (f x)) x xs) = insort_key k (f x) (map f xs)"
  by (induction xs) auto

lemma sort_key_map: "map f (sort_key (\<lambda>x. k (f x)) xs) = sort_key k (map f xs)"
  by (induction xs) (simp_all add: insort_key_map)

lemma bridge_gone:
  "br_id ` set (filter (\<lambda>b. br_id b = bid) (bridges db)) = {bid} \<inter> br_id ` set (bridges db)"
  by auto

lemma delete_bridge_ports:
  assumes "db_wf db"
  shows "bridge_ports (fst (delete_bridge bid db)) = filter (\<lambda>p. bp_bridge_id p \<noteq> bid) (bridge_ports db)"
proof -
  have "bp_bridge_id p \<in> {bid} \<inter> br_id ` set (bridges db) \<longleftrightarrow> bp_bridge_id p = bid"
    if "p \<in> set (bridge_ports db)" for p
    using that assms by (auto simp: db_wf_defs)
  then show ?thesis
    unfolding delete_bridge_def bridge_gone Let_def by (auto intro!: filter_cong)
qed

lemma delete_bridge_envs:
  assumes "db_wf db"
  shows "bridge_envs (fst (delete_bridge bid db)) = filter (\<lambda>e. be_bridge_id e \<noteq> bid) (bridge_envs db)"
proof -
  have "be_bridge_id e \<in> {bid} \<inter> br_id ` set (bridges db) \<longleftrightarrow> be_bridge_id e = bid"
    if "e \<in> set (bridge_envs db)" for e
    using that assms by (auto simp: db_wf_defs)
  then show ?thesis
    unfolding delete_bridge_def bridge_gone Let_def by (auto intro!: filter_cong)
qed

lemma delete_bridge_connections:
  assumes "db_wf db"
  shows "connections (fst (delete_bridge bid db)) =
    map (\<lambda>c. if cn_bridge_id c = Some bid then c\<lparr>cn_bridge_id := None\<rparr> else c) (connections db)"
proof -
  let ?gone = "{bid} \<inter> br_id ` set (bridges db)"
  have "clear_ref ?gone (cn_bridge_id c) = (if cn_bridge_id c = Some bid then None else cn_bridge_id c)"
    if "c \<in> set (connections db)" for c
    using db_wf_refs [OF assms that] by (auto simp: clear_ref_def refs_ok_def split: option.splits)
  then have "c\<lparr>cn_bridge_id := clear_ref ?gone (cn_bridge_id c)\<rparr> =
      (if cn_bridge_id c = Some bid then c\<lparr>cn_bridge_id := None\<rparr> else c)" if "c \<in> set (connections db)" for c
    using that by simp
  then show ?thesis
    unfolding delete_bridge_def bridge_gone Let_def by (simp only: fst_conv) simp
qed

text \<open>
  Deleting a bridge removes exactly what belongs to it: its row, its ports and its
  variables are gone, the ports and variables of every other bridge are untouched, and the
  connections that used it are kept with an empty bridge slot.
\<close>

theorem delete_bridge_cascade:
  assumes "db_wf db"
  shows "snd (delete_bridge bid db) = Inr () \<and>
    get_bridge_by_id b (fst (delete_bridge bid db)) = (if b = bid then None else get_bridge_by_id b db) \<and>
    get_bridge_ports b (fst (delete_bridge bid db)) = (if b = bid then [] else get_bridge_ports b db) \<and>
    get_bridge_envs b (fst (delete_bridge bid db)) = (if b = bid then [] else get_bridge_envs b db) \<and>
    connections (fst (delete_bridge bid db)) =
      map (\<lambda>c. if cn_bridge_id c = Some bid then c\<lparr>cn_bridge_id := None\<rparr> else c) (connections db)"
proof (intro conjI)
  show "snd (delete_bridge bid db) = Inr ()" by (simp add: delete_bridge_def Let_def)
  show "get_bridge_by_id b (fst (delete_bridge bid db)) = (if b = bid then None else get_bridge_by_id b db)"
    by (simp add: get_bridge_by_id_def delete_bridge_def Let_def find_after_delete)
  show "get_bridge_ports b (fst (delete_bridge bid db)) = (if b = bid then [] else get_bridge_ports b db)"
    unfolding get_bridge_ports_def delete_bridge_ports [OF assms] filter_after_delete by simp
  show "get_bridge_envs b (fst (delete_bridge bid db)) = (if b = bid then [] else get_bridge_envs b db)"
    unfolding get_bridge_envs_def delete_bridge_envs [OF assms] filter_after_delete by simp
qed (rule delete_bridge_connections [OF assms])

text \<open>A database with one bridge, one port, one variable and a connection using the bridge.\<close>

definition sample_db :: database where
  "sample_db = empty_db\<lparr>client_nodes_schema := Some UuidUnique,
     bridges := [\<lparr>br_id = 1, br_name = ''web'', br_status = ''draft'', br_created_at = 0\<rparr>], bridge_seq := 1,
     bridge_ports := [\<lparr>bp_id = 1, bp_bridge_id = 1, bp_container_port = 80, bp_mode = ''route'',
        bp_route_path = Some ''/'', bp_protocols = None, bp_pool_port = Some 9000\<rparr>], bridge_port_seq := 1,
     bridge_envs := [\<lparr>be_id = 1, be_bridge_id = 1, be_key = ''A'', be_value = ''1''\<rparr>], bridge_env_seq := 1,
     connections := [\<lparr>cn_id = 1, cn_name = ''c'', cn_bridge_id = Some 1, cn_image_id = None, cn_node_id = None,
        cn_status = ''pending'', cn_container_name = None, cn_created_at = 0\<rparr>], connection_seq := 1\<rparr>"

lemma sample_db_wf: "db_wf sample_db"
  by (simp add: db_wf_defs sample_db_def empty_db_def List.map_filter_simps rows_wf_def refs_ok_def)

theorem delete_bridge_cascade_witness:
  "get_bridge_ports 1 (fst (delete_bridge 1 sample_db)) = [] \<and>
   map cn_bridge_id (connections (fst (delete_bridge 1 sample_db))) = [None]"
  using delete_bridge_cascade [OF sample_db_wf, of 1 1] by (simp add: sample_db_def)

lemma insert_envs_ok:
  assumes "\<exists>b \<in> set (bridges db). br_id b = bid"
  shows "distinct (map fst kvs) \<Longrightarrow>
    (\<forall>e \<in> set (bridge_envs db). be_bridge_id e = bid \<longrightarrow> be_key e \<notin> fst ` set kvs) \<Longrightarrow>
    \<exists>rows db'. insert_envs bid kvs db = (db', Inr ()) \<and> bridge_envs db' = bridge_envs db @ rows \<and>
      map (\<lambda>e. (be_key e, be_value e)) rows = kvs \<and> (\<forall>e \<in> set rows. be_bridge_id e = bid)"
  using assms
proof (induction kvs arbitrary: db)
  case (Cons kv kvs)
  let ?e = "\<lparr>be_id = bridge_env_seq db + 1, be_bridge_id = bid, be_key = fst kv, be_value = snd kv\<rparr>"
  let ?db = "db\<lparr>bridge_envs := bridge_envs db @ [?e], bridge_env_seq := bridge_env_seq db + 1\<rparr>"
  have "insert_env bid kv db = (?db, Inr ())" using Cons.prems by (auto simp: insert_env_def)
  moreover obtain rows db' where "insert_envs bid kvs ?db = (db', Inr ())"
      "bridge_envs db' = bridge_envs ?db @ rows" "map (\<lambda>e. (be_key e, be_value e)) rows = kvs"
      "\<forall>e \<in> set rows. be_bridge_id e = bid"
    using Cons.IH [of ?db] Cons.prems by auto
  ultimately show ?case by (intro exI [of _ "?e # rows"] exI [of _ db']) simp
qed simp

lemma insert_envs_repeated:
  assumes "\<exists>b \<in> set (bridges db). br_id b = bid"
  shows "\<not> distinct (map fst kvs) \<or>
    (\<exists>e \<in> set (bridge_envs db). be_bridge_id e = bid \<and> be_key e \<in> fst ` set kvs) \<Longrightarrow>
    snd (insert_envs bid kvs db) = Inl UniqueViolation"
  using assms
proof (induction kvs arbitrary: db)
  case (Cons kv kvs)
  let ?e = "\<lparr>be_id = bridge_env_seq db + 1, be_bridge_id = bid, be_key = fst kv, be_value = snd kv\<rparr>"
  let ?db = "db\<lparr>bridge_envs := bridge_envs db @ [?e], bridge_env_seq := bridge_env_seq db + 1\<rparr>"
  show ?case
  proof (cases "\<exists>e \<in> set (bridge_envs db). be_bridge_id e = bid \<and> be_key e = fst kv")
    case False
    then have "insert_env bid kv db = (?db, Inr ())" using Cons.prems by (auto simp: insert_env_def)
    moreover have "snd (insert_envs bid kvs ?db) = Inl UniqueViolation"
      using Cons.IH [of ?db] Cons.prems False by auto
    ultimately show ?thesis by simp
  qed (auto simp: insert_env_def)
qed simp

text \<open>
  Setting a bridge's variables: with distinct keys the operation succeeds and reading them back
  gives exactly the pairs that were set, in key order, while the variables of every other bridge
  stay as they were; with a repeated key it fails after the bridge's previous variables
  have already been deleted.
\<close>

theorem set_bridge_envs_roundtrip:
  assumes "get_bridge_by_id bid db \<noteq> None"
  shows "(distinct (map fst envs) \<longrightarrow>
      snd (set_bridge_envs bid envs db) = Inr () \<and>
      get_bridge_envs bid (fst (set_bridge_envs bid envs db)) = sort_key fst envs \<and>
      (\<forall>b. b \<noteq> bid \<longrightarrow> get_bridge_envs b (fst (set_bridge_envs bid envs db)) = get_bridge_envs b db)) \<and>
    (\<not> distinct (map fst envs) \<longrightarrow> snd (set_bridge_envs bid envs db) = Inl UniqueViolation)"
proof -
  let ?db = "db\<lparr>bridge_envs := filter (\<lambda>e. be_bridge_id e \<noteq> bid) (bridge_envs db)\<rparr>"
  let ?kv = "\<lambda>e. (be_key e, be_value e)"
  have ex: "\<exists>b \<in> set (bridges ?db). br_id b = bid"
    using assms by (auto simp: get_bridge_by_id_def find_None_iff_ball)
  have sort: "map ?kv (sort_key be_key rows) = sort_key fst (map ?kv rows)" for rows
    using sort_key_map [of ?kv fst rows] by simp
  show ?thesis
  proof (intro conjI impI)
    assume dist: "distinct (map fst envs)"
    obtain rows db' where r: "insert_envs bid envs ?db = (db', Inr ())" "bridge_envs db' = bridge_envs ?db @ rows"
        "map ?kv rows = envs" "\<forall>e \<in> set rows. be_bridge_id e = bid"
      using insert_envs_ok [OF ex dist] by auto
    then show "snd (set_bridge_envs bid envs db) = Inr ()" by (simp add: set_bridge_envs_def)
    have "filter (\<lambda>e. be_bridge_id e = bid) (bridge_envs db') = rows"
      using r(2,4) by (simp add: filter_id_conv)
    then show "get_bridge_envs bid (fst (set_bridge_envs bid envs db)) = sort_key fst envs"
      using r(1,3) sort [of rows] by (simp add: get_bridge_envs_def set_bridge_envs_def)
    have "filter (\<lambda>e. be_bridge_id e = b) (bridge_envs db') = filter (\<lambda>e. be_bridge_id e = b) (bridge_envs db)"
      if "b \<noteq> bid" for b
      using that r(2,4) by (auto simp: filter_empty_conv intro!: filter_cong)
    then show "\<forall>b. b \<noteq> bid \<longrightarrow> get_bridge_envs b (fst (set_bridge_envs bid envs db)) = get_bridge_envs b db"
      using r(1) by (simp add: get_bridge_envs_def set_bridge_envs_def)
  next
    assume "\<not> distinct (map fst envs)"
    then show "snd (set_bridge_envs bid envs db) = Inl UniqueViolation"
      using insert_envs_repeated [OF ex] by (simp add: set_bridge_envs_def)
  qed
qed

theorem set_bridge_envs_roundtrip_witness:
  "get_bridge_envs 1 (fst (set_bridge_envs 1 [(''Z'', ''2''), (''B'', ''3'')] sample_db)) =
     [(''B'', ''3''), (''Z'', ''2'')]"
  using set_bridge_envs_roundtrip [of 1 sample_db "[(''Z'', ''2''), (''B'', ''3'')]"]
  by (simp add: sample_db_def get_bridge_by_id_def less_eq_char_def)

text \<open>A slot argument of \<^verbatim>\<open>update_connection\<close> applied to the column's value.\<close>

definition slot :: "int option option \<Rightarrow> int option \<Rightarrow> int option" where
  "slot arg old = (case arg of None \<Rightarrow> old | Some v \<Rightarrow> v)"

lemma find_map_key:
  assumes "\<And>x. key (f x) = key x"
  shows "find (\<lambda>x. key x = k) (map (\<lambda>x. if key x = j then f x else x) xs) =
    map_option (\<lambda>x. if k = j then f x else x) (find (\<lambda>x. key x = k) xs)"
  using assms by (induction xs) auto

lemma update_connection_row:
  assumes "find (\<lambda>c. cn_id c = cid) (connections db) = Some c"
  shows "update_connection cid b i n db =
    (if refs_ok (slot b (cn_bridge_id c)) (slot i (cn_image_id c)) (slot n (cn_node_id c)) db
     then (db\<lparr>connections := map (\<lambda>c'. if cn_id c' = cid
             then c'\<lparr>cn_bridge_id := slot b (cn_bridge_id c), cn_image_id := slot i (cn_image_id c),
                     cn_node_id := slot n (cn_node_id c)\<rparr> else c') (connections db)\<rparr>, Inr ())
     else (db, Inl ForeignKeyViolation))"
proof -
  have "cid \<in> cn_id ` set (connections db)" using find_Some_set [OF assms] by auto
  with assms show ?thesis by (simp add: update_connection_def Let_def slot_def)
qed

text \<open>
  Updating a connection is tri-state in each slot: an absent argument keeps the column,
  an explicit null clears it, a value sets it; the update is rejected as a whole, leaving the
  database as it was, exactly when some resulting slot names a row that does not exist.
\<close>

theorem update_connection_tristate:
  assumes "db_wf db" and "get_connection cid db = Some v"
  shows "let c = cv_row v; b' = slot b (cn_bridge_id c); i' = slot i (cn_image_id c); n' = slot n (cn_node_id c)
    in if refs_ok b' i' n' db
       then snd (update_connection cid b i n db) = Inr () \<and>
            (\<forall>k. map_option cv_row (get_connection k (fst (update_connection cid b i n db))) =
              (if k = cid then Some (c\<lparr>cn_bridge_id := b', cn_image_id := i', cn_node_id := n'\<rparr>)
               else map_option cv_row (get_connection k db)))
       else update_connection cid b i n db = (db, Inl ForeignKeyViolation)"
proof -
  from assms(2) obtain c where c: "find (\<lambda>c. cn_id c = cid) (connections db) = Some c" "cv_row v = c"
    by (auto simp: get_connection_def join_connection_def Let_def)
  have row: "map_option cv_row (get_connection k d) = find (\<lambda>c. cn_id c = k) (connections d)" for k d
    by (cases "find (\<lambda>c. cn_id c = k) (connections d)") (simp_all add: get_connection_def join_connection_def Let_def)
  show ?thesis unfolding Let_def c(2) row update_connection_row [OF c(1)]
    using c(1) by (auto simp: find_map_key option.map_ident)
qed

theorem update_connection_tristate_witness:
  "snd (update_connection 1 (Some None) None None sample_db) = Inr () \<and>
   map_option cv_row (get_connection 1 (fst (update_connection 1 (Some None) None None sample_db))) =
     map_option (\<lambda>v. (cv_row v)\<lparr>cn_bridge_id := None\<rparr>) (get_connection 1 sample_db) \<and>
   update_connection 1 (Some (Some 9)) None None sample_db = (sample_db, Inl ForeignKeyViolation)"
proof -
  obtain v where v: "get_connection 1 sample_db = Some v" "cn_image_id (cv_row v) = None" "cn_node_id (cv_row v) = None"
    by (simp add: get_connection_def sample_db_def empty_db_def join_connection_def Let_def)
  have "refs_ok None None None sample_db" "\<not> refs_ok (Some 9) None None sample_db"
    by (simp_all add: refs_ok_def sample_db_def empty_db_def)
  then show ?thesis
    using update_connection_tristate [OF sample_db_wf v(1), of "Some None" None None]
      update_connection_tristate [OF sample_db_wf v(1), of "Some (Some 9)" None None] v
    by (simp add: slot_def Let_def)
qed

lemma hm_get_fold_insert:
  "distinct (map fst kvs) \<Longrightarrow>
   hm_get (fold (\<lambda>(u, d). hm_insert u d) kvs m) u =
     (case map_of kvs u of Some d \<Rightarrow> Some d | None \<Rightarrow> hm_get m u)"
proof (induction kvs arbitrary: m)
  case (Cons kv kvs)
  then have "map_of kvs (fst kv) = None" by (simp add: map_of_eq_None_iff)
  with Cons show ?case by (cases kv) (auto simp: hm_get_insert split: option.splits)
qed simp

lemma binding_of_Some:
  "binding_of n = Some (u, d) \<longleftrightarrow> nd_node_uuid n = Some u \<and> nd_auth_digest n = Some d"
  by (auto simp: binding_of_def split: option.splits)

lemma map_filter_binding_fst:
  "set (map fst (List.map_filter binding_of ns)) \<subseteq> set (List.map_filter nd_node_uuid ns)"
  by (induction ns) (auto simp: List.map_filter_simps binding_of_def split: option.splits)

lemma distinct_bindings:
  "distinct (List.map_filter nd_node_uuid ns) \<Longrightarrow> distinct (map fst (List.map_filter binding_of ns))"
proof (induction ns)
  case (Cons n ns)
  then have "fst b \<notin> set (map fst (List.map_filter binding_of ns))" if "binding_of n = Some b" for b
    using map_filter_binding_fst [of ns] that by (cases b) (auto simp: List.map_filter_simps binding_of_Some)
  with Cons show ?case by (auto simp: List.map_filter_simps split: option.splits)
qed simp

lemma find_uuid:
  "n \<in> set ns \<Longrightarrow> nd_node_uuid n = Some u \<Longrightarrow> distinct (List.map_filter nd_node_uuid ns) \<Longrightarrow>
   find (\<lambda>n. nd_node_uuid n = Some u) ns = Some n"
  by (induction ns) (auto simp: List.map_filter_simps set_map_filter split: option.splits)

text \<open>
  The spoof check survives a restart: the bindings loaded at start-up are exactly the
  uuid and digest of each stored node, so after a node was stored with a digest the server
  finds that digest under its uuid, and no digest under a uuid it does not know.
\<close>

theorem load_bindings_exact:
  assumes "db_wf db"
  shows "hm_get (load_bindings db) u = Some d \<longleftrightarrow>
    (\<exists>n. get_node_by_uuid u db = Some n \<and> nd_auth_digest n = Some d)"
proof -
  have dist: "distinct (List.map_filter nd_node_uuid (client_nodes db))" using assms by (simp add: db_wf_defs)
  have one: "get_node_by_uuid u db = Some n" if "n \<in> set (client_nodes db)" "nd_node_uuid n = Some u" for n
    using find_uuid [OF that dist] by (simp add: get_node_by_uuid_def)
  have "hm_get (load_bindings db) u = Some d \<longleftrightarrow> (u, d) \<in> set (List.map_filter binding_of (client_nodes db))"
    using distinct_bindings [OF dist] map_of_eq_Some_iff [OF distinct_bindings [OF dist], of u d]
    by (simp add: load_bindings_def hm_get_fold_insert option.case_eq_if) (cases "hm_get (List.map_filter binding_of (client_nodes db)) u", auto)
  also have "\<dots> \<longleftrightarrow> (\<exists>n \<in> set (client_nodes db). nd_node_uuid n = Some u \<and> nd_auth_digest n = Some d)"
    by (simp add: set_map_filter binding_of_Some)
  also have "\<dots> \<longleftrightarrow> (\<exists>n. get_node_by_uuid u db = Some n \<and> nd_auth_digest n = Some d)"
    using one by (auto simp: get_node_by_uuid_def dest!: find_Some_set)
  finally show ?thesis .
qed

theorem load_bindings_exact_witness:
  "hm_get (load_bindings (fst (upsert_node 5 ''u1'' ''ab'' sample_info sample_db))) ''u1'' = Some ''ab''"
proof -
  have "client_nodes_schema sample_db = Some UuidUnique" by (simp add: sample_db_def)
  then show ?thesis
    using load_bindings_exact [OF db_wf_upsert_node [OF sample_db_wf]]
    by (simp add: get_node_by_uuid_upsert_same refresh_node_def node_row_def split: option.splits)
qed

text \<open>
  Loading an image under a name that exists detaches it: the new row has a new id, and every
  connection that used the old row loses its image.
\<close>

theorem insert_image_detaches:
  assumes "db_wf db" and "get_image_by_name name db = Some old"
    and "c \<in> set (connections db)" and "cn_image_id c = Some (img_id old)"
  shows "c\<lparr>cn_image_id := None\<rparr> \<in> set (connections (fst (insert_image now name source stype db))) \<and>
    (\<exists>i. snd (insert_image now name source stype db) = Inr i \<and> i \<noteq> img_id old \<and>
       map_option img_id (get_image_by_name name (fst (insert_image now name source stype db))) = Some i)"
proof -
  have old: "old \<in> set (images db)" "img_name old = name"
    using assms(2) by (auto simp: get_image_by_name_def dest: find_Some_set)
  have "image_seq db + 1 \<notin> img_id ` set (images db)"
    using assms(1) by (intro rows_wf_fresh) (simp add: db_wf_defs)
  with old have "image_seq db + 1 \<noteq> img_id old" by auto
  moreover have "find (\<lambda>r. img_name r = name) (filter (\<lambda>r. img_name r \<noteq> name) (images db)) = None"
    by (simp add: find_None_iff_ball)
  moreover have "clear_ref (img_id ` set (filter (\<lambda>r. img_name r = name) (images db))) (cn_image_id c) = None"
    using old assms(4) by (auto simp: clear_ref_def)
  ultimately show ?thesis
    using assms(3) by (auto simp: insert_image_def get_image_by_name_def Let_def find_append intro!: image_eqI [of _ _ c])
qed

theorem insert_image_detaches_witness:
  "\<exists>db i. snd (insert_image 2 ''nginx'' ''nginx'' ''docker_hub'' db) = Inr i \<and> i \<noteq> (1 :: int) \<and>
     get_image_by_name ''nginx'' db \<noteq> None"
proof -
  let ?img = "\<lparr>img_id = 1, img_name = ''nginx'', img_source = ''nginx'', img_source_type = ''docker_hub'',
      img_status = ''loaded'', img_created_at = 0\<rparr>"
  let ?c = "\<lparr>cn_id = 1, cn_name = ''c'', cn_bridge_id = None, cn_image_id = Some 1, cn_node_id = None,
      cn_status = ''pending'', cn_container_name = None, cn_created_at = 0\<rparr>"
  let ?db = "empty_db\<lparr>images := [?img], image_seq := 1, connections := [?c], connection_seq := 1\<rparr>"
  have wf: "db_wf ?db"
    by (simp add: db_wf_defs empty_db_def List.map_filter_simps rows_wf_def refs_ok_def)
  have img: "get_image_by_name ''nginx'' ?db = Some ?img" by (simp add: get_image_by_name_def)
  have c: "?c \<in> set (connections ?db)" "cn_image_id ?c = Some (img_id ?img)" by simp_all
  from insert_image_detaches [OF wf img c] img show ?thesis
    by (metis image_node.select_convs(1) option.distinct(1))
qed

end
