(* ===== verification/Route_Proxy.thy ===== *)
theory Route_Proxy
  imports Kdct_Prelude
begin

text \<open>
  The reverse proxy, \<^verbatim>\<open>crates/kdcts/src/proxy.rs\<close>: the reserved \<^verbatim>\<open>/admin\<close> prefix, the route
  table with its longest-prefix lookup, the choice of the upstream peer for a request, and
  the plain-HTTP companion that answers ACME challenges and redirects everything else to
  HTTPS. Pingora's session is represented by the three things \<^verbatim>\<open>upstream_peer\<close> reads from it.
\<close>

section \<open>Reserved paths and the route table\<close>

definition ADMIN_PREFIX :: string where
  "ADMIN_PREFIX = ''/admin''"

definition is_admin_path :: "string \<Rightarrow> bool" where
  "is_admin_path path \<longleftrightarrow> path = ADMIN_PREFIX \<or> prefix ''/admin/'' path"

record route_table =
  routes :: "(string, u16) hmap"

datatype route_error = PathReserved string | PathInUse string

definition rt_new :: route_table where
  "rt_new = \<lparr>routes = []\<rparr>"

definition rt_set :: "string \<Rightarrow> u16 \<Rightarrow> route_table \<Rightarrow> route_error + route_table" where
  "rt_set path port rt =
     (if is_admin_path path then Inl (PathReserved path)
      else if hm_get (routes rt) path \<noteq> None then Inl (PathInUse path)
      else Inr (rt\<lparr>routes := hm_insert path port (routes rt)\<rparr>))"

definition rt_remove_by_port :: "u16 \<Rightarrow> route_table \<Rightarrow> route_table" where
  "rt_remove_by_port port rt = rt\<lparr>routes := filter (\<lambda>(path, p). p \<noteq> port) (routes rt)\<rparr>"

text \<open>
  The loop of \<^verbatim>\<open>resolve\<close>: the best candidate so far is replaced by a strictly longer one.
\<close>

fun best_route ::
  "string \<Rightarrow> (string \<times> u16) list \<Rightarrow> (string \<times> u16) option \<Rightarrow> (string \<times> u16) option" where
  "best_route path [] best = best"
| "best_route path ((route_path, port) # rs) best =
     best_route path rs
       (if prefix route_path path then
          (case best of
             Some (existing, _) \<Rightarrow>
               if length route_path > length existing then Some (route_path, port) else best
           | None \<Rightarrow> Some (route_path, port))
        else best)"

definition rt_resolve :: "route_table \<Rightarrow> string \<Rightarrow> u16 option" where
  "rt_resolve rt path =
     (case hm_get (routes rt) path of
        Some port \<Rightarrow> Some port
      | None \<Rightarrow> map_option snd (best_route path (routes rt) None))"

section \<open>Choosing the upstream\<close>

record proxy_config =
  domain :: "string option"
  api_port :: u16

record http_request =
  uri_host :: "string option"
  host_header :: "string option"  \<comment> \<open>the Host header, if present and readable as text\<close>
  uri_path :: string

datatype proxy_error = HTTPStatus nat

record http_peer =
  peer_addr :: "string \<times> u16"
  peer_tls :: bool
  peer_sni :: string

definition request_host :: "http_request \<Rightarrow> string" where
  "request_host req =
     (case uri_host req of
        Some h \<Rightarrow> if h \<noteq> [] then h else hd (split_on (CHR '':'') (case host_header req of None \<Rightarrow> [] | Some v \<Rightarrow> v))
      | None \<Rightarrow> hd (split_on (CHR '':'') (case host_header req of None \<Rightarrow> [] | Some v \<Rightarrow> v)))"

definition upstream_peer ::
  "proxy_config \<Rightarrow> route_table \<Rightarrow> http_request \<Rightarrow> proxy_error + http_peer" where
  "upstream_peer cfg rt req =
     (let host = request_host req; path = uri_path req in
      if (case domain cfg of Some expected \<Rightarrow> host \<noteq> expected | None \<Rightarrow> False)
      then Inl (HTTPStatus 404)
      else
        let sni = (case domain cfg of Some d \<Rightarrow> d | None \<Rightarrow> host) in
        if is_admin_path path then
          Inr \<lparr>peer_addr = (''127.0.0.1'', api_port cfg), peer_tls = False, peer_sni = sni\<rparr>
        else
          (case rt_resolve rt path of
             None \<Rightarrow> Inl (HTTPStatus 404)
           | Some port \<Rightarrow> Inr \<lparr>peer_addr = (''127.0.0.1'', port), peer_tls = False, peer_sni = sni\<rparr>))"

section \<open>The HTTPS redirect listener\<close>

text \<open>
  Reading the request head: the chunks are what successive \<^verbatim>\<open>read\<close> calls return, at most the
  free part of the 4096-byte buffer each. A chunk of length zero is end of file,
  \<open>ReadTimeout\<close> the five-second timeout, \<open>ReadError\<close> an I/O error.
\<close>

datatype read_event = ReadChunk string | ReadTimeout | ReadError

definition crlf :: string where
  "crlf = [CHR 0x0D, CHR 0x0A]"

fun read_head :: "nat \<Rightarrow> string \<Rightarrow> read_event list \<Rightarrow> string option" where
  "read_head cap buf [] = Some buf"
| "read_head cap buf (ReadTimeout # es) = Some buf"
| "read_head cap buf (ReadError # es) = (if length buf = cap then Some buf else None)"
| "read_head cap buf (ReadChunk c # es) =
     (if length buf = cap then Some buf
      else let got = take (cap - length buf) c in
           if got = [] then Some buf
           else let buf' = buf @ got in
                if contains_str (crlf @ crlf) buf' then Some buf' else read_head cap buf' es)"

text \<open>\<^verbatim>\<open>str::split\<close> on the two-byte separator CR LF.\<close>

fun split_crlf :: "string \<Rightarrow> string list" where
  "split_crlf [] = [[]]"
| "split_crlf [a] = [[a]]"
| "split_crlf (a # b # s) =
     (if a = CHR 0x0D \<and> b = CHR 0x0A then [] # split_crlf s
      else case split_crlf (b # s) of [] \<Rightarrow> [[a]] | p # ps \<Rightarrow> (a # p) # ps)"

definition to_ascii_lower :: "char \<Rightarrow> char" where
  "to_ascii_lower c =
     (let n = of_char c :: nat in if 65 \<le> n \<and> n \<le> 90 then char_of (n + 32) else c)"

definition eq_ignore_ascii_case :: "string \<Rightarrow> string \<Rightarrow> bool" where
  "eq_ignore_ascii_case a b \<longleftrightarrow> map to_ascii_lower a = map to_ascii_lower b"

fun find_host :: "string list \<Rightarrow> string option" where
  "find_host [] = None"
| "find_host (line # lines) =
     (if line = [] then None
      else case split_once (CHR '':'') line of
             Some (name, v) \<Rightarrow>
               if eq_ignore_ascii_case name ''host'' then Some (trim v) else find_host lines
           | None \<Rightarrow> find_host lines)"

datatype redirect_response =
    Challenge200 string
  | NotFound404
  | BadRequest400
  | Moved301 string

definition ACME_PREFIX :: string where
  "ACME_PREFIX = ''/.well-known/acme-challenge/''"

definition request_target :: "string \<Rightarrow> string" where
  "request_target request_line =
     (case split_on (CHR '' '') request_line of _ # t # _ \<Rightarrow> t | _ \<Rightarrow> ''/'')"

text \<open>
  The part of \<^verbatim>\<open>handle_redirect\<close> after the head has been read. \<open>utf8 head\<close> is
  \<^verbatim>\<open>std::str::from_utf8\<close>, which yields \<^const>\<open>None\<close> on malformed input; \<open>challenges\<close> is
  the shared challenge map of a running ACME flow, if ACME is configured.
\<close>

definition redirect_answer ::
  "(string \<Rightarrow> string option) \<Rightarrow> u16 \<Rightarrow> (string \<rightharpoonup> string) option \<Rightarrow> string \<Rightarrow> redirect_response" where
  "redirect_answer utf8 https_port challenges raw =
     (let head = (case utf8 raw of Some s \<Rightarrow> s | None \<Rightarrow> []);
          lines = split_crlf head;
          target = request_target (hd lines) in
      case strip_prefix ACME_PREFIX target of
        Some token \<Rightarrow>
          (case challenges of
             Some m \<Rightarrow> (case m token of Some key_auth \<Rightarrow> Challenge200 key_auth | None \<Rightarrow> NotFound404)
           | None \<Rightarrow> NotFound404)
      | None \<Rightarrow>
          (let host = (case find_host (tl lines) of
                         None \<Rightarrow> [] | Some h \<Rightarrow> hd (split_on (CHR '':'') h));
               target' = (if target = [] then ''/'' else target) in
           if host = [] then BadRequest400
           else if https_port = 443 then Moved301 (''https://'' @ host @ target')
           else Moved301 (''https://'' @ host @ '':'' @ show_nat (unat https_port) @ target')))"

definition handle_redirect ::
  "(string \<Rightarrow> string option) \<Rightarrow> u16 \<Rightarrow> (string \<rightharpoonup> string) option \<Rightarrow> read_event list
     \<Rightarrow> redirect_response option" where
  "handle_redirect utf8 https_port challenges es =
     map_option (redirect_answer utf8 https_port challenges) (read_head 4096 [] es)"

text \<open>The bytes written to the socket.\<close>

fun response_bytes :: "redirect_response \<Rightarrow> string" where
  "response_bytes (Challenge200 k) =
     ''HTTP/1.1 200 OK'' @ crlf @ ''Content-Type: text/plain'' @ crlf @ ''Content-Length: ''
       @ show_nat (length k) @ crlf @ ''Connection: close'' @ crlf @ crlf @ k"
| "response_bytes NotFound404 =
     ''HTTP/1.1 404 Not Found'' @ crlf @ ''Content-Length: 0'' @ crlf @ ''Connection: close'' @ crlf @ crlf"
| "response_bytes BadRequest400 =
     ''HTTP/1.1 400 Bad Request'' @ crlf @ ''Content-Length: 0'' @ crlf @ ''Connection: close'' @ crlf @ crlf"
| "response_bytes (Moved301 l) =
     ''HTTP/1.1 301 Moved Permanently'' @ crlf @ ''Location: '' @ l @ crlf @ ''Content-Length: 0'' @ crlf
       @ ''Connection: close'' @ crlf @ crlf"

lemmas [kdct_simps] = ADMIN_PREFIX_def is_admin_path_def rt_new_def rt_set_def rt_remove_by_port_def
  rt_resolve_def request_host_def upstream_peer_def crlf_def to_ascii_lower_def
  eq_ignore_ascii_case_def ACME_PREFIX_def request_target_def redirect_answer_def handle_redirect_def


section \<open>Longest-prefix lookup\<close>

definition is_longest :: "string \<Rightarrow> (string \<times> u16) list \<Rightarrow> string \<times> u16 \<Rightarrow> bool" where
  "is_longest path rs r \<longleftrightarrow> r \<in> set rs \<and> prefix (fst r) path \<and>
     (\<forall>q \<in> set rs. prefix (fst q) path \<longrightarrow> length (fst q) \<le> length (fst r))"

text \<open>One round of the loop, for the proofs.\<close>

definition pick :: "string \<Rightarrow> string \<times> u16 \<Rightarrow> (string \<times> u16) option \<Rightarrow> (string \<times> u16) option" where
  "pick path r best =
     (if prefix (fst r) path then
        (case best of Some b \<Rightarrow> if length (fst r) > length (fst b) then Some r else best | None \<Rightarrow> Some r)
      else best)"

lemma best_route_fold: "best_route path rs best = fold (pick path) rs best"
proof (induction path rs best rule: best_route.induct)
  case (2 path route_path port rs best)
  have "(if prefix route_path path then
      (case best of Some (existing, _) \<Rightarrow>
         if length route_path > length existing then Some (route_path, port) else best
       | None \<Rightarrow> Some (route_path, port)) else best) = pick path (route_path, port) best"
    by (auto simp: pick_def split: option.splits)
  with 2 show ?case by simp
qed simp

lemma pick_cases:
  "pick path r best = best \<or> (pick path r best = Some r \<and> prefix (fst r) path)"
  by (auto simp: pick_def split: option.splits)

lemma pick_ge: "\<exists>b'. pick path r (Some b) = Some b' \<and> length (fst b) \<le> length (fst b')"
  by (cases r; cases b) (auto simp: pick_def)

lemma pick_covers:
  "prefix (fst r) path \<Longrightarrow> \<exists>b'. pick path r best = Some b' \<and> length (fst r) \<le> length (fst b')"
  by (cases r; cases best) (auto simp: pick_def not_less)

lemma best_route_candidate:
  "fold (pick path) rs best = Some r \<Longrightarrow> best = Some r \<or> (r \<in> set rs \<and> prefix (fst r) path)"
proof (induction rs arbitrary: best)
  case (Cons x rs)
  from Cons.IH [of "pick path x best"] Cons.prems pick_cases [of path x best] show ?case by auto
qed simp

lemma best_route_ge: "\<exists>r. fold (pick path) rs (Some b) = Some r \<and> length (fst b) \<le> length (fst r)"
proof (induction rs arbitrary: b)
  case (Cons x rs)
  obtain b' where "pick path x (Some b) = Some b'" "length (fst b) \<le> length (fst b')"
    using pick_ge by blast
  with Cons.IH [of b'] show ?case by fastforce
qed simp

lemma best_route_covers:
  "q \<in> set rs \<Longrightarrow> prefix (fst q) path \<Longrightarrow>
     \<exists>r. fold (pick path) rs best = Some r \<and> length (fst q) \<le> length (fst r)"
proof (induction rs arbitrary: best)
  case (Cons x rs)
  show ?case
  proof (cases "q = x")
    case True
    obtain b where "pick path x best = Some b" "length (fst q) \<le> length (fst b)"
      using pick_covers [OF Cons.prems(2), of best] True by blast
    with best_route_ge [of path rs b] show ?thesis by fastforce
  qed (use Cons in simp)
qed simp

lemma best_route_longest:
  assumes "best_route path rs None = Some r"
  shows "is_longest path rs r"
proof -
  from assms have f: "fold (pick path) rs None = Some r" by (simp add: best_route_fold)
  have "length (fst q) \<le> length (fst r)" if "q \<in> set rs" "prefix (fst q) path" for q
    using best_route_covers [OF that, of None] f by simp
  with best_route_candidate [OF f] show ?thesis by (simp add: is_longest_def)
qed

lemma best_route_None: "best_route path rs None = None \<longleftrightarrow> (\<forall>q \<in> set rs. \<not> prefix (fst q) path)"
proof
  assume "best_route path rs None = None"
  then show "\<forall>q \<in> set rs. \<not> prefix (fst q) path"
    using best_route_covers [of _ rs path None] by (auto simp: best_route_fold)
next
  assume n: "\<forall>q \<in> set rs. \<not> prefix (fst q) path"
  show "best_route path rs None = None"
    using best_route_candidate [of path rs None] n by (cases "best_route path rs None") (auto simp: best_route_fold)
qed

lemma is_longest_unique:
  assumes "hm_wf rs" "is_longest path rs r" "is_longest path rs q"
  shows "r = q"
proof -
  have "length (fst r) = length (fst q)" using assms(2,3) by (auto simp: is_longest_def intro: le_antisym)
  moreover have "prefix (fst r) path" "prefix (fst q) path" using assms(2,3) by (auto simp: is_longest_def)
  ultimately have "fst r = fst q" by (metis prefix_order.dual_order.antisym prefix_length_prefix le_refl)
  with assms show ?thesis
    by (metis (no_types, lifting) is_longest_def eq_key_imp_eq_value prod.collapse)
qed

lemma exact_is_longest: "hm_get rs path = Some port \<Longrightarrow> is_longest path rs (path, port)"
  by (auto simp: is_longest_def dest: map_of_SomeD prefix_length_le)

lemma rt_resolve_iff:
  assumes "hm_wf (routes rt)"
  shows "rt_resolve rt path = Some port \<longleftrightarrow> (\<exists>r. is_longest path (routes rt) (r, port))"
proof (cases "hm_get (routes rt) path")
  case None
  show ?thesis
  proof
    assume "rt_resolve rt path = Some port"
    with None show "\<exists>r. is_longest path (routes rt) (r, port)"
      by (auto simp: rt_resolve_def dest: best_route_longest)
  next
    assume "\<exists>r. is_longest path (routes rt) (r, port)"
    then obtain r where r: "is_longest path (routes rt) (r, port)" ..
    then obtain q where q: "best_route path (routes rt) None = Some q"
      using best_route_None [of path "routes rt"] by (auto simp: is_longest_def)
    from is_longest_unique [OF assms r best_route_longest [OF q]] q None
    show "rt_resolve rt path = Some port" by (auto simp: rt_resolve_def)
  qed
next
  case (Some p)
  then show ?thesis
    using exact_is_longest [OF Some] is_longest_unique [OF assms, of path "(path, p)"]
    by (auto simp: rt_resolve_def)
qed

lemma rt_resolve_cong:
  assumes "hm_wf (routes rt)" and "hm_wf (routes rt')" and "hm_get (routes rt) = hm_get (routes rt')"
  shows "rt_resolve rt path = rt_resolve rt' path"
proof -
  have "set (routes rt) = set (routes rt')"
    using assms map_of_eq_Some_iff [of "routes rt"] map_of_eq_Some_iff [of "routes rt'"] by auto
  then have "rt_resolve rt path = Some p \<longleftrightarrow> rt_resolve rt' path = Some p" for p
    using assms(1,2) by (simp add: rt_resolve_iff is_longest_def)
  then show ?thesis by (metis not_None_eq)
qed

lemma rt_resolve_None: "rt_resolve rt path = None \<longleftrightarrow> (\<forall>q \<in> set (routes rt). \<not> prefix (fst q) path)"
proof (cases "hm_get (routes rt) path")
  case None
  then show ?thesis by (simp add: rt_resolve_def best_route_None)
next
  case (Some p)
  then have "(path, p) \<in> set (routes rt)" by (rule map_of_SomeD)
  with Some show ?thesis by (force simp: rt_resolve_def)
qed

section \<open>The table as seen by the deployer\<close>

definition rt_inv :: "route_table \<Rightarrow> bool" where
  "rt_inv rt \<longleftrightarrow> hm_wf (routes rt) \<and> (\<forall>r \<in> hm_keys (routes rt). \<not> is_admin_path r)"

text \<open>
  The contract between the deployer and the table it publishes routes in: a path that was
  set resolves to its port, a port that was withdrawn is never resolved to again, and the
  routes of other ports survive a withdrawal.
\<close>

locale route_registry =
  fixes inv :: "'t \<Rightarrow> bool" and tab :: "'t \<Rightarrow> string \<rightharpoonup> u16"
    and publish :: "string \<Rightarrow> u16 \<Rightarrow> 't \<Rightarrow> 'e + 't" and withdraw :: "u16 \<Rightarrow> 't \<Rightarrow> 't"
    and resolve :: "'t \<Rightarrow> string \<Rightarrow> u16 option"
  assumes publish_ok: "inv t \<Longrightarrow> publish r p t = Inr t' \<Longrightarrow>
        inv t' \<and> tab t r = None \<and> tab t' = (tab t)(r \<mapsto> p)"
    and withdraw_ok: "inv t \<Longrightarrow>
        inv (withdraw p t) \<and> tab (withdraw p t) = (\<lambda>r. if tab t r = Some p then None else tab t r)"
    and resolve_exact: "inv t \<Longrightarrow> tab t r = Some p \<Longrightarrow> resolve t r = Some p"
    and resolve_sound: "inv t \<Longrightarrow> resolve t x = Some p \<Longrightarrow> \<exists>r. tab t r = Some p \<and> prefix r x"
    and resolve_complete: "inv t \<Longrightarrow> resolve t x = None \<Longrightarrow> tab t r = None \<or> \<not> prefix r x"
begin

lemma publish_resolve: "inv t \<Longrightarrow> publish r p t = Inr t' \<Longrightarrow> resolve t' r = Some p"
  using publish_ok resolve_exact by fastforce

lemma withdrawn_unreachable: "inv t \<Longrightarrow> resolve (withdraw p t) x \<noteq> Some p"
  using withdraw_ok [of t p] resolve_sound [of "withdraw p t" x p] by (auto split: if_splits)

lemma withdraw_other: "inv t \<Longrightarrow> tab t r = Some q \<Longrightarrow> q \<noteq> p \<Longrightarrow> resolve (withdraw p t) r = Some q"
  using withdraw_ok [of t p] resolve_exact [of "withdraw p t" r q] by simp

lemma fold_withdraw:
  "inv t \<Longrightarrow> inv (fold withdraw ps t) \<and>
     tab (fold withdraw ps t) = (\<lambda>r. case tab t r of None \<Rightarrow> None
        | Some p \<Rightarrow> if p \<in> set ps then None else Some p)"
proof (induction ps arbitrary: t)
  case Nil
  then show ?case by (auto simp: fun_eq_iff split: option.splits)
next
  case (Cons p ps)
  from withdraw_ok [OF Cons.prems, of p] Cons.IH [of "withdraw p t"] show ?case
    by (auto simp: fun_eq_iff split: option.splits)
qed

lemma fold_withdrawn_unreachable:
  "inv t \<Longrightarrow> p \<in> set ps \<Longrightarrow> resolve (fold withdraw ps t) x \<noteq> Some p"
  using fold_withdraw [of t ps] resolve_sound [of "fold withdraw ps t" x p]
  by (auto split: option.splits if_splits)

end

lemma rt_inv_new [inv_intros]: "rt_inv rt_new"
  by (simp add: rt_inv_def rt_new_def)

lemma rt_inv_set [inv_intros]: "rt_inv rt \<Longrightarrow> rt_set path port rt = Inr rt' \<Longrightarrow> rt_inv rt'"
proof -
  assume inv: "rt_inv rt" and set: "rt_set path port rt = Inr rt'"
  have rt': "routes rt' = hm_insert path port (routes rt)" "\<not> is_admin_path path"
    using set by (auto simp: rt_set_def split: if_splits)
  have "\<not> is_admin_path r" if "r \<in> hm_keys (routes rt')" for r
    using that inv rt'(2) unfolding rt'(1) hm_keys_insert rt_inv_def by blast
  then show "rt_inv rt'" using inv by (simp add: rt_inv_def rt'(1) distinct_update)
qed

lemma rt_inv_remove [inv_intros]: "rt_inv rt \<Longrightarrow> rt_inv (rt_remove_by_port port rt)"
  by (auto simp: rt_inv_def rt_remove_by_port_def hm_wf_filter)

lemma hm_get_remove_by_port:
  "rt_inv rt \<Longrightarrow> hm_get (routes (rt_remove_by_port p rt)) r =
     (if hm_get (routes rt) r = Some p then None else hm_get (routes rt) r)"
  using hm_get_filter_value [of "routes rt" "\<lambda>_ q. q \<noteq> p" r]
  by (auto simp: rt_inv_def rt_remove_by_port_def split: option.splits)

interpretation rt: route_registry rt_inv "\<lambda>rt. hm_get (routes rt)" rt_set rt_remove_by_port rt_resolve
proof
  fix t t' :: route_table and r x :: string and p
  assume inv: "rt_inv t"
  then have wf: "hm_wf (routes t)" by (simp add: rt_inv_def)
  show "rt_inv (rt_remove_by_port p t) \<and> hm_get (routes (rt_remove_by_port p t)) =
      (\<lambda>r. if hm_get (routes t) r = Some p then None else hm_get (routes t) r)"
    using inv by (simp add: rt_inv_remove hm_get_remove_by_port fun_eq_iff)
  show "rt_resolve t x = None \<Longrightarrow> hm_get (routes t) r = None \<or> \<not> prefix r x"
    using rt_resolve_None [of t x] by (cases "hm_get (routes t) r") (fastforce dest: map_of_SomeD)+
  show "hm_get (routes t) r = Some p \<Longrightarrow> rt_resolve t r = Some p"
    by (simp add: rt_resolve_def)
  show "rt_resolve t x = Some p \<Longrightarrow> \<exists>r. hm_get (routes t) r = Some p \<and> prefix r x"
    using wf by (auto simp: rt_resolve_iff is_longest_def map_of_eq_Some_iff)
  assume "rt_set r p t = Inr t'"
  with inv show "rt_inv t' \<and> hm_get (routes t) r = None \<and> hm_get (routes t') = (hm_get (routes t))(r \<mapsto> p)"
    using rt_inv_set by (fastforce simp: rt_set_def update_conv' split: if_splits)
qed


section \<open>Properties\<close>

text \<open>
  C3. \<^verbatim>\<open>RouteTable::resolve\<close> is longest-prefix matching: it returns the port of the longest
  registered path that is a prefix of the requested path, and nothing exactly when no
  registered path is one.
\<close>

theorem rt_resolve_longest_prefix:
  assumes "rt_inv rt"
  shows "(rt_resolve rt path = Some port \<longleftrightarrow>
            (\<exists>r. hm_get (routes rt) r = Some port \<and> prefix r path \<and>
               (\<forall>r' p'. hm_get (routes rt) r' = Some p' \<longrightarrow> prefix r' path \<longrightarrow> length r' \<le> length r)))
       \<and> (rt_resolve rt path = None \<longleftrightarrow> (\<forall>r p. hm_get (routes rt) r = Some p \<longrightarrow> \<not> prefix r path))"
proof -
  have wf: "hm_wf (routes rt)" using assms by (simp add: rt_inv_def)
  have "is_longest path (routes rt) (r, port) \<longleftrightarrow> hm_get (routes rt) r = Some port \<and> prefix r path \<and>
      (\<forall>r' p'. hm_get (routes rt) r' = Some p' \<longrightarrow> prefix r' path \<longrightarrow> length r' \<le> length r)" for r
    using wf by (auto simp: is_longest_def map_of_eq_Some_iff)
  moreover have "rt_resolve rt path = None \<longleftrightarrow> (\<forall>r p. hm_get (routes rt) r = Some p \<longrightarrow> \<not> prefix r path)"
    using wf by (auto simp: rt_resolve_None map_of_eq_Some_iff)
  ultimately show ?thesis using rt_resolve_iff [OF wf] by simp
qed

theorem rt_resolve_longest_prefix_witness:
  "rt_inv \<lparr>routes = [(''/'', 9000), (''/api'', 9001)]\<rparr> \<and>
   rt_resolve \<lparr>routes = [(''/'', 9000), (''/api'', 9001)]\<rparr> ''/api/users'' = Some 9001"
proof -
  let ?rt = "\<lparr>routes = [(''/'', 9000), (''/api'', 9001)]\<rparr>"
  have inv: "rt_inv ?rt" by (simp add: rt_inv_def kdct_simps)
  have "rt_resolve ?rt ''/api/users'' = Some 9001"
    using rt_resolve_longest_prefix [OF inv, of "''/api/users''" 9001]
    by (auto intro!: exI [of _ "''/api''"] split: if_splits)
  with inv show ?thesis ..
qed

text \<open>
  The result of \<^verbatim>\<open>resolve\<close> does not depend on the hash map's iteration order: two
  tables with the same entries in different orders resolve every path alike.
\<close>

theorem rt_resolve_order_independent:
  assumes "rt_inv rt" and "rt_inv rt'" and "set (routes rt) = set (routes rt')"
  shows "rt_resolve rt path = rt_resolve rt' path"
proof -
  have "rt_resolve rt path = Some p \<longleftrightarrow> rt_resolve rt' path = Some p" for p
    using assms by (simp add: rt_resolve_iff rt_inv_def is_longest_def)
  then show ?thesis by (metis not_None_eq)
qed

theorem rt_resolve_order_independent_witness:
  "rt_resolve \<lparr>routes = [(''/'', 9000), (''/api'', 9001)]\<rparr> ''/api/v1'' =
   rt_resolve \<lparr>routes = [(''/api'', 9001), (''/'', 9000)]\<rparr> ''/api/v1''"
  by (rule rt_resolve_order_independent) (auto simp: rt_inv_def kdct_simps)

inductive rt_step :: "route_table \<Rightarrow> route_table \<Rightarrow> bool" where
  "rt_set path port rt = Inr rt' \<Longrightarrow> rt_step rt rt'"
| "rt_step rt (rt_remove_by_port port rt)"

inductive_cases rt_stepE: "rt_step rt rt'"

interpretation rt_run: inductive_invariant "\<lambda>rt. rt = rt_new" rt_step rt_inv
  by unfold_locales (auto elim!: rt_stepE intro: inv_intros)

text \<open>
  C2. The panel's prefix is isolated from the tunnels: whatever sequence of successful
  \<^verbatim>\<open>set\<close> and \<^verbatim>\<open>remove_by_port\<close> calls built the table, it holds no route under \<^verbatim>\<open>/admin\<close>, and
  every accepted request under \<^verbatim>\<open>/admin\<close> goes to the panel's port on the loopback
  interface; every other accepted request goes to a port registered for a prefix of its path.
\<close>

theorem admin_prefix_isolated:
  assumes "reach (\<lambda>rt. rt = rt_new) rt_step rt" and "upstream_peer cfg rt req = Inr peer"
  shows "(\<forall>r p. hm_get (routes rt) r = Some p \<longrightarrow> \<not> is_admin_path r) \<and>
         (if is_admin_path (uri_path req) then peer_addr peer = (''127.0.0.1'', api_port cfg)
          else \<exists>r p. hm_get (routes rt) r = Some p \<and> prefix r (uri_path req) \<and>
                 peer_addr peer = (''127.0.0.1'', p)) \<and>
         \<not> peer_tls peer"
proof -
  have inv: "rt_inv rt" using assms(1) by (rule rt_run.reach_inv)
  have "\<forall>r p. hm_get (routes rt) r = Some p \<longrightarrow> \<not> is_admin_path r"
    using inv by (auto simp: rt_inv_def dest: map_of_SomeD)
  with assms(2) rt.resolve_sound [OF inv, of "uri_path req"] show ?thesis
    by (auto simp: upstream_peer_def Let_def split: if_splits option.splits)
qed

theorem admin_prefix_isolated_witness:
  "upstream_peer \<lparr>domain = None, api_port = 9933\<rparr> rt_new
      \<lparr>uri_host = None, host_header = Some ''x.org'', uri_path = ''/admin/api/ping''\<rparr> =
      Inr \<lparr>peer_addr = (''127.0.0.1'', 9933), peer_tls = False, peer_sni = ''x.org''\<rparr> \<and>
   is_admin_path ''/admin/api/ping''"
proof -
  let ?cfg = "\<lparr>domain = None, api_port = 9933\<rparr>"
  let ?req = "\<lparr>uri_host = None, host_header = Some ''x.org'', uri_path = ''/admin/api/ping''\<rparr>"
  let ?peer = "\<lparr>peer_addr = (''127.0.0.1'', 9933), peer_tls = False, peer_sni = ''x.org''\<rparr>"
  have r: "reach (\<lambda>rt. rt = rt_new) rt_step rt_new" by (rule reach.start) simp
  have u: "upstream_peer ?cfg rt_new ?req = Inr ?peer" by (simp add: kdct_simps)
  from admin_prefix_isolated [OF r u] u show ?thesis by (simp add: kdct_simps)
qed

text \<open>
  C4. Host enforcement: with a configured domain every request whose host differs is answered
  404, and with none configured the host never causes a rejection: a request is then rejected
  exactly when its path is outside \<^verbatim>\<open>/admin\<close> and no route is a prefix of it.
\<close>

theorem host_enforcement:
  "(domain cfg = Some d \<longrightarrow> request_host req \<noteq> d \<longrightarrow> upstream_peer cfg rt req = Inl (HTTPStatus 404)) \<and>
   (domain cfg = None \<or> domain cfg = Some (request_host req) \<longrightarrow>
      (upstream_peer cfg rt req = Inl (HTTPStatus 404) \<longleftrightarrow>
         \<not> is_admin_path (uri_path req) \<and> (\<forall>q \<in> set (routes rt). \<not> prefix (fst q) (uri_path req))))"
  using rt_resolve_None [of rt "uri_path req"]
  by (auto simp: upstream_peer_def Let_def split: option.splits)

theorem host_enforcement_witness:
  "upstream_peer \<lparr>domain = Some ''a.org'', api_port = 9933\<rparr> rt_new
     \<lparr>uri_host = None, host_header = Some ''b.org:80'', uri_path = ''/''\<rparr> = Inl (HTTPStatus 404)"
  using host_enforcement [of "\<lparr>domain = Some ''a.org'', api_port = 9933\<rparr>" "''a.org''"
      "\<lparr>uri_host = None, host_header = Some ''b.org:80'', uri_path = ''/''\<rparr>" rt_new]
  by (simp add: request_host_def)

section \<open>Reading the request head\<close>

text \<open>What the peer sent, up to the first timeout or error.\<close>

fun received :: "read_event list \<Rightarrow> string" where
  "received [] = []"
| "received (ReadChunk c # es) = c @ received es"
| "received (_ # es) = []"

lemma take_prefix_append: "prefix (buf @ take n c) (buf @ c @ r)"
  by (simp add: take_is_prefix prefix_prefix)

lemma read_head_chunk:
  assumes "read_head cap buf (ReadChunk c # es) = Some b" and "length buf \<le> cap"
  shows "b = buf \<or> b = buf @ take (cap - length buf) c \<or>
    length buf < cap \<and> read_head cap (buf @ take (cap - length buf) c) es = Some b"
  using assms by (simp only: read_head.simps Let_def le_less split: if_splits) simp_all

lemma read_head_bounded:
  "length buf \<le> cap \<Longrightarrow> read_head cap buf es = Some b \<Longrightarrow> length b \<le> cap \<and> prefix b (buf @ received es)"
proof (induction es arbitrary: buf)
  case (Cons e es)
  show ?case
  proof (cases e)
    case (ReadChunk c)
    let ?g = "take (cap - length buf) c"
    consider "b = buf" | "b = buf @ ?g" "length (buf @ ?g) \<le> cap" |
      "length (buf @ ?g) \<le> cap" "read_head cap (buf @ ?g) es = Some b" "length buf < cap"
      using Cons.prems ReadChunk read_head_chunk [of cap buf c es b] by auto
    then show ?thesis
    proof cases
      case 3
      with Cons.IH [of "buf @ ?g"] have len: "length b \<le> cap" and pre: "prefix b (buf @ ?g @ received es)" by auto
      have "prefix b (buf @ c @ received es)"
      proof (cases "length c \<le> cap - length buf")
        case False
        then have "length b \<le> length (buf @ ?g)" using len by simp
        then have "prefix b (buf @ ?g)" using pre prefix_length_prefix
          by (metis append_assoc prefixI)
        then show ?thesis using take_prefix_append prefix_order.trans by blast
      qed (use pre in simp)
      with len ReadChunk show ?thesis by simp
    qed (use Cons.prems ReadChunk in \<open>auto intro: take_is_prefix prefix_prefix\<close>)
  qed (use Cons.prems in \<open>auto split: if_splits\<close>)
qed simp

lemma read_head_complete:
  "\<forall>e \<in> set es. \<exists>c. c \<noteq> [] \<and> e = ReadChunk c \<Longrightarrow> \<not> contains_str (crlf @ crlf) buf \<Longrightarrow>
   length (buf @ received es) \<le> cap \<Longrightarrow> contains_str (crlf @ crlf) (buf @ received es) \<Longrightarrow>
   \<exists>b. read_head cap buf es = Some b \<and> contains_str (crlf @ crlf) b"
proof (induction es arbitrary: buf)
  case (Cons e es)
  then obtain c where c: "e = ReadChunk c" "c \<noteq> []" by auto
  have fit: "take (cap - length buf) c = c" "length buf \<noteq> cap"
    using Cons.prems(3) c by (auto simp: take_all)
  show ?case
  proof (cases "contains_str (crlf @ crlf) (buf @ c)")
    case False
    then show ?thesis using Cons.IH [of "buf @ c"] Cons.prems c fit by auto
  qed (use c fit in simp)
qed simp

section \<open>What the redirect listener answers\<close>

lemma split_crlf_not_Nil [simp]: "split_crlf s \<noteq> []"
  by (induction s rule: split_crlf.induct) (auto split: list.splits)

lemma split_crlf_line: "CHR 0x0D \<notin> set a \<Longrightarrow> split_crlf (a @ crlf @ s) = a # split_crlf s"
proof (induction a)
  case (Cons x a)
  have "split_crlf (x # (a @ crlf @ s)) = (x # a) # split_crlf s"
    using Cons by (cases a) (auto simp: crlf_def)
  then show ?case by simp
qed (simp add: crlf_def)

lemma request_target_line:
  "CHR '' '' \<notin> set m \<Longrightarrow> CHR '' '' \<notin> set t \<Longrightarrow> request_target (m @ '' '' @ t @ '' '' @ v) = t"
  by (simp add: request_target_def split_on_append_sep)

lemma hd_split_on_host:
  assumes "CHR '':'' \<notin> set h" "p = [] \<or> (\<exists>q. p = '':'' @ q)"
  shows "hd (split_on (CHR '':'') (h @ p)) = h"
  using assms by (auto simp: split_on_free split_on_append_sep)

text \<open>A byte that may stand in a request line or a header value without ending it.\<close>

definition line_safe :: "string \<Rightarrow> bool" where
  "line_safe s \<longleftrightarrow> CHR '' '' \<notin> set s \<and> CHR 0x0D \<notin> set s"

definition request_head :: "string \<Rightarrow> string \<Rightarrow> string \<Rightarrow> string \<Rightarrow> string" where
  "request_head m t hv rest =
     (m @ '' '' @ t @ '' '' @ ''HTTP/1.1'') @ crlf @ (''Host: '' @ hv) @ crlf @ rest"

lemma split_request_head:
  assumes "line_safe m" "line_safe t" "line_safe hv"
  shows "split_crlf (request_head m t hv rest) =
    (m @ '' '' @ t @ '' '' @ ''HTTP/1.1'') # (''Host: '' @ hv) # split_crlf rest"
  unfolding request_head_def using assms
  by (subst split_crlf_line, simp add: line_safe_def) (subst split_crlf_line, simp_all add: line_safe_def)

text \<open>
  Redirect: for a well-formed HTTP/1.1 request whose target is not an ACME challenge, the
  plain-HTTP listener answers 301 to the same host, without any port the Host header
  carried, and the same target on HTTPS, naming the HTTPS port exactly when it is not 443.
\<close>

theorem redirect_keeps_host_and_target:
  assumes "line_safe m" "line_safe t" "t \<noteq> []" "\<not> prefix ACME_PREFIX t"
    and "h \<noteq> []" "CHR '':'' \<notin> set h" "p = [] \<or> (\<exists>q. p = '':'' @ q)" "line_safe (h @ p)"
    and "plain_byte (hd h)" "plain_byte (last (h @ p))"
    and "utf8 (request_head m t (h @ p) rest) = Some (request_head m t (h @ p) rest)"
  shows "redirect_answer utf8 https_port ch (request_head m t (h @ p) rest) =
    Moved301 (''https://'' @ h @
      (if https_port = 443 then [] else '':'' @ show_nat (unat https_port)) @ t)"
proof -
  have host: "find_host ((''Host: '' @ h @ p) # ls) = Some (h @ p)" for ls
  proof -
    have "split_once (CHR '':'') (''Host: '' @ h @ p) = Some (''Host'', '' '' @ h @ p)" by simp
    moreover have "eq_ignore_ascii_case ''Host'' ''host''" by code_simp
    moreover have "trim ('' '' @ h @ p) = h @ p"
      using assms(5,9,10) by (intro trim_leading_space) auto
    ultimately show ?thesis by simp
  qed
  show ?thesis
    using assms split_request_head [OF assms(1,2,8), of rest] host
      hd_split_on_host [OF assms(6,7)] request_target_line [of m t "''HTTP/1.1''"]
    by (simp add: redirect_answer_def Let_def strip_prefix_None [THEN iffD2] line_safe_def)
qed

theorem redirect_keeps_host_and_target_witness:
  "redirect_answer Some 8443 None (request_head ''GET'' ''/x?y=1'' ''example.com:80'' crlf) =
     Moved301 ''https://example.com:8443/x?y=1''"
proof -
  have "redirect_answer Some 8443 None (request_head ''GET'' ''/x?y=1'' (''example.com'' @ '':80'') crlf) =
    Moved301 (''https://'' @ ''example.com'' @
      (if (8443 :: u16) = 443 then [] else '':'' @ show_nat (unat (8443 :: u16))) @ ''/x?y=1'')"
    by (rule redirect_keeps_host_and_target)
      (simp_all add: line_safe_def ACME_PREFIX_def plain_byte_def white_space_def)
  then show ?thesis by (simp add: kdct_simps)
qed

text \<open>
  ACME challenges are never redirected: a request for a challenge token is answered with the
  key authorization registered for that token, and with 404 when none is registered or no
  ACME flow is configured, whatever its Host header.
\<close>

theorem acme_challenge_not_redirected:
  assumes "line_safe m" "line_safe token"
    and "utf8 (request_head m (ACME_PREFIX @ token) hv rest) = Some (request_head m (ACME_PREFIX @ token) hv rest)"
  shows "redirect_answer utf8 https_port ch (request_head m (ACME_PREFIX @ token) hv rest) =
    (case ch of None \<Rightarrow> NotFound404
     | Some c \<Rightarrow> (case c token of None \<Rightarrow> NotFound404 | Some key_auth \<Rightarrow> Challenge200 key_auth))"
proof -
  have safe: "CHR '' '' \<notin> set (ACME_PREFIX @ token)" "CHR 0x0D \<notin> set (ACME_PREFIX @ token)"
    using assms(2) by (auto simp: line_safe_def ACME_PREFIX_def)
  have "hd (split_crlf (request_head m (ACME_PREFIX @ token) hv rest)) =
      m @ '' '' @ (ACME_PREFIX @ token) @ '' '' @ ''HTTP/1.1''"
    unfolding request_head_def using assms(1) safe
    by (subst split_crlf_line) (auto simp: line_safe_def)
  moreover have "request_target (m @ '' '' @ (ACME_PREFIX @ token) @ '' '' @ ''HTTP/1.1'') = ACME_PREFIX @ token"
    using assms(1) safe by (intro request_target_line) (auto simp: line_safe_def)
  moreover have "strip_prefix ACME_PREFIX (ACME_PREFIX @ token) = Some token"
    by (simp add: strip_prefix_Some)
  ultimately show ?thesis using assms(3)
    by (simp add: redirect_answer_def Let_def split: option.splits)
qed

theorem acme_challenge_not_redirected_witness:
  "redirect_answer Some 443 (Some [''tok'' \<mapsto> ''tok.key''])
     (request_head ''GET'' (ACME_PREFIX @ ''tok'') ''a.org'' crlf) = Challenge200 ''tok.key''"
  using acme_challenge_not_redirected [of "''GET''" "''tok''" Some "''a.org''" crlf 443
      "Some [''tok'' \<mapsto> ''tok.key'']"]
  by (simp add: line_safe_def)

end
