(* ===== verification/Deploy_Tracker.thy ===== *)
theory Deploy_Tracker
  imports Port_Pool Route_Proxy
begin

text \<open>
  The in-memory table of running deployments, \<^verbatim>\<open>crates/kdcts/src/deployment_tracker.rs\<close>, and
  what happens to a node's deployments when it disconnects: their routes are withdrawn and
  their pool ports released.
\<close>

record active_deployment =
  ad_image_name :: string
  ad_container_name :: string
  ad_node_uuid :: string
  ad_server_ports :: "u16 list"

type_synonym tracker = "(string \<times> string, active_deployment) hmap"

definition new_tracker :: tracker where
  "new_tracker = []"

definition record_deployment :: "string \<Rightarrow> string \<Rightarrow> string \<Rightarrow> u16 list \<Rightarrow> tracker \<Rightarrow> tracker" where
  "record_deployment image_name container_name node_uuid server_ports tr =
     hm_insert (image_name, node_uuid)
       \<lparr>ad_image_name = image_name, ad_container_name = container_name, ad_node_uuid = node_uuid,
        ad_server_ports = server_ports\<rparr> tr"

definition remove_deployment :: "string \<Rightarrow> string \<Rightarrow> tracker \<Rightarrow> active_deployment option \<times> tracker" where
  "remove_deployment image_name node_uuid tr =
     (hm_get tr (image_name, node_uuid), hm_remove (image_name, node_uuid) tr)"

definition get_deployment :: "string \<Rightarrow> string \<Rightarrow> tracker \<Rightarrow> active_deployment option" where
  "get_deployment image_name node_uuid tr = hm_get tr (image_name, node_uuid)"

definition list_deployments_for_image :: "string \<Rightarrow> tracker \<Rightarrow> active_deployment list" where
  "list_deployments_for_image image_name tr =
     map snd (filter (\<lambda>((name, _), _). name = image_name) tr)"

text \<open>The inner loop: withdraw the routes of each port and give the port back.\<close>

fun withdraw_ports :: "u16 list \<Rightarrow> route_table \<Rightarrow> 'l port_pool \<Rightarrow> route_table \<times> 'l port_pool" where
  "withdraw_ports [] rt pl = (rt, pl)"
| "withdraw_ports (p # ps) rt pl = withdraw_ports ps (rt_remove_by_port p rt) (release_by_port p pl)"

fun remove_keys ::
  "(string \<times> string) list \<Rightarrow> tracker \<Rightarrow> route_table \<Rightarrow> 'l port_pool
     \<Rightarrow> tracker \<times> route_table \<times> 'l port_pool" where
  "remove_keys [] tr rt pl = (tr, rt, pl)"
| "remove_keys (k # ks) tr rt pl =
     (case hm_get tr k of
        None \<Rightarrow> remove_keys ks tr rt pl
      | Some d \<Rightarrow>
          (case withdraw_ports (ad_server_ports d) rt pl of
             (rt, pl) \<Rightarrow> remove_keys ks (hm_remove k tr) rt pl))"

definition node_keys :: "string \<Rightarrow> tracker \<Rightarrow> (string \<times> string) list" where
  "node_keys node_uuid tr = map fst (filter (\<lambda>(_, d). ad_node_uuid d = node_uuid) tr)"

definition remove_by_node ::
  "string \<Rightarrow> tracker \<Rightarrow> route_table \<Rightarrow> 'l port_pool \<Rightarrow> tracker \<times> route_table \<times> 'l port_pool" where
  "remove_by_node node_uuid tr rt pl = remove_keys (node_keys node_uuid tr) tr rt pl"

lemmas [kdct_simps] = new_tracker_def record_deployment_def remove_deployment_def get_deployment_def
  list_deployments_for_image_def node_keys_def remove_by_node_def

section \<open>Withdrawing a set of ports\<close>

text \<open>
  A client of both interfaces, the route registry and the port allocator: a list of ports
  is withdrawn from the one and given back to the other.
\<close>

locale port_withdrawal =
  route_registry rinv tab publish withdraw resolve + port_allocator pinv ports avail reserve release
  for rinv :: "'t \<Rightarrow> bool" and tab :: "'t \<Rightarrow> string \<rightharpoonup> u16"
    and publish :: "string \<Rightarrow> u16 \<Rightarrow> 't \<Rightarrow> 'e + 't" and withdraw :: "u16 \<Rightarrow> 't \<Rightarrow> 't"
    and resolve :: "'t \<Rightarrow> string \<Rightarrow> u16 option"
    and pinv :: "'p \<Rightarrow> bool" and ports :: "'p \<Rightarrow> u16 set" and avail :: "'p \<Rightarrow> u16 set"
    and reserve :: "'p \<Rightarrow> (u16 \<times> 'p) option" and release :: "u16 \<Rightarrow> 'p \<Rightarrow> 'p"
begin

lemma withdrawn:
  assumes "rinv t" and "pinv p"
  shows "rinv (fold withdraw xs t)" and "pinv (fold release xs p)"
    and "ports (fold release xs p) = ports p"
    and "avail (fold release xs p) = avail p \<union> (set xs \<inter> ports p)"
    and "tab (fold withdraw xs t) r = (case tab t r of None \<Rightarrow> None
        | Some q \<Rightarrow> if q \<in> set xs then None else Some q)"
    and "resolve (fold withdraw xs t) x = Some q \<Longrightarrow> q \<notin> set xs"
  using fold_withdraw [OF assms(1), of xs] fold_release [OF assms(2), of xs]
    fold_withdrawn_unreachable [OF assms(1)] by auto

end

interpretation wd: port_withdrawal rt_inv "\<lambda>rt. hm_get (routes rt)" rt_set rt_remove_by_port rt_resolve
  pool_inv pool_ports "\<lambda>pl. set (free pl)" reserve_one release_by_port ..

lemma withdraw_ports_fold:
  "withdraw_ports ps rt pl = (fold rt_remove_by_port ps rt, fold release_by_port ps pl)"
  by (induction ps arbitrary: rt pl) simp_all

text \<open>The ports of all deployments under the given keys.\<close>

definition ports_of :: "(string \<times> string) list \<Rightarrow> tracker \<Rightarrow> u16 list" where
  "ports_of ks tr = concat (map (\<lambda>k. case hm_get tr k of None \<Rightarrow> [] | Some d \<Rightarrow> ad_server_ports d) ks)"

lemma ports_of_remove: "k \<notin> set ks \<Longrightarrow> ports_of ks (hm_remove k tr) = ports_of ks tr"
  unfolding ports_of_def by (rule arg_cong [of _ _ concat]) (auto simp: hm_get_remove)

lemma remove_keys_fold:
  "distinct ks \<Longrightarrow> remove_keys ks tr rt pl =
     (fold hm_remove ks tr, fold rt_remove_by_port (ports_of ks tr) rt, fold release_by_port (ports_of ks tr) pl)"
proof (induction ks arbitrary: tr rt pl)
  case (Cons k ks)
  show ?case
  proof (cases "hm_get tr k")
    case None
    then have "hm_remove k tr = tr" by (simp add: delete_conv' map_of_eq_None_iff AList.delete_idem)
    then show ?thesis using Cons None by (simp add: ports_of_def)
  next
    case (Some d)
    then show ?thesis using Cons ports_of_remove [of k ks tr]
      by (simp add: withdraw_ports_fold) (simp add: ports_of_def)
  qed
qed (simp add: ports_of_def)

lemma distinct_node_keys: "hm_wf tr \<Longrightarrow> distinct (node_keys uuid tr)"
  unfolding node_keys_def by (rule hm_wf_filter)

lemma set_node_keys:
  "hm_wf tr \<Longrightarrow> k \<in> set (node_keys uuid tr) \<longleftrightarrow> (\<exists>d. hm_get tr k = Some d \<and> ad_node_uuid d = uuid)"
  by (cases k) (auto simp: node_keys_def map_of_eq_Some_iff image_iff)

lemma hm_get_fold_remove: "hm_get (fold hm_remove ks tr) k = (if k \<in> set ks then None else hm_get tr k)"
  by (induction ks arbitrary: tr) (auto simp: hm_get_remove)

definition node_ports :: "string \<Rightarrow> tracker \<Rightarrow> u16 set" where
  "node_ports uuid tr = {p. \<exists>k d. hm_get tr k = Some d \<and> ad_node_uuid d = uuid \<and> p \<in> set (ad_server_ports d)}"

lemma set_ports_of: "hm_wf tr \<Longrightarrow> set (ports_of (node_keys uuid tr) tr) = node_ports uuid tr"
  by (fastforce simp: ports_of_def node_ports_def set_node_keys split: option.splits)

text \<open>
  A disconnecting node takes down exactly its own deployments: its entries leave the
  tracker and no other does, no path resolves to one of its ports any more while every route
  to another port survives, and its ports that belong to the pool are free again, so none is lost.
\<close>

theorem remove_by_node_exact:
  assumes "hm_wf tr" and "rt_inv rt" and "pool_inv pl"
    and "remove_by_node uuid tr rt pl = (tr', rt', pl')"
  shows "(hm_get tr' k = Some d \<longleftrightarrow> hm_get tr k = Some d \<and> ad_node_uuid d \<noteq> uuid) \<and>
    (rt_resolve rt' path = Some port \<longrightarrow> port \<notin> node_ports uuid tr) \<and>
    (hm_get (routes rt') r = Some q \<longleftrightarrow> hm_get (routes rt) r = Some q \<and> q \<notin> node_ports uuid tr) \<and>
    set (free pl') = set (free pl) \<union> (node_ports uuid tr \<inter> pool_ports pl) \<and>
    pool_ports pl' = pool_ports pl \<and> rt_inv rt' \<and> pool_inv pl'"
proof -
  let ?ks = "node_keys uuid tr" and ?ps = "ports_of (node_keys uuid tr) tr"
  have eq: "tr' = fold hm_remove ?ks tr" "rt' = fold rt_remove_by_port ?ps rt" "pl' = fold release_by_port ?ps pl"
    using assms(4) remove_keys_fold [OF distinct_node_keys [OF assms(1), of uuid], of tr rt pl]
    by (simp_all add: remove_by_node_def)
  note ports = set_ports_of [OF assms(1), of uuid]
  have "hm_get tr' k = Some d \<longleftrightarrow> hm_get tr k = Some d \<and> ad_node_uuid d \<noteq> uuid"
    using set_node_keys [OF assms(1), of k uuid] by (auto simp: eq hm_get_fold_remove)
  moreover have "hm_get (routes rt') r = Some q \<longleftrightarrow> hm_get (routes rt) r = Some q \<and> q \<notin> node_ports uuid tr"
    unfolding eq wd.withdrawn(5) [OF assms(2,3)] ports by (auto split: option.splits)
  ultimately show ?thesis
    using wd.withdrawn(1-4) [OF assms(2,3), of ?ps] wd.withdrawn(6) [OF assms(2,3), of ?ps path port]
    by (simp add: eq ports)
qed

theorem remove_by_node_exact_witness:
  "hm_get (routes (fst (snd (remove_by_node ''u'' (record_deployment ''c'' ''kdct-c-1'' ''u'' [9000] new_tracker)
      \<lparr>routes = [(''/'', 9000)]\<rparr>
      (\<lparr>free = [], assignments = [(9000, ([], 0))], listeners = [(9000, ())], total_ports = 1\<rparr> :: unit port_pool)))))
      ''/'' = None"
proof -
  let ?tr = "record_deployment ''c'' ''kdct-c-1'' ''u'' [9000] new_tracker"
  let ?rt = "\<lparr>routes = [(''/'', 9000)]\<rparr>"
  let ?pl = "\<lparr>free = [], assignments = [(9000, ([], 0))], listeners = [(9000, ())], total_ports = 1\<rparr> :: unit port_pool"
  obtain tr' rt' pl' where r: "remove_by_node ''u'' ?tr ?rt ?pl = (tr', rt', pl')" by (metis prod_cases3)
  have wf: "hm_wf ?tr" by (simp add: record_deployment_def new_tracker_def)
  have rti: "rt_inv ?rt" by (simp add: rt_inv_def kdct_simps)
  have pli: "pool_inv ?pl" by (simp add: pool_inv_def assigned_def pool_ports_def)
  have port: "(9000 :: u16) \<in> node_ports ''u'' ?tr"
    by (auto simp: node_ports_def record_deployment_def new_tracker_def intro!: exI [of _ "''c''"])
  have "hm_get (routes rt') ''/'' \<noteq> Some q" for q
    using remove_by_node_exact [OF wf rti pli r, of _ _ _ _ "''/''" q] port by auto
  then show ?thesis using r by (cases "hm_get (routes rt') ''/''") auto
qed

lemma node_withdrawn:
  assumes "hm_wf tr" and "rt_inv rt" and "pool_inv pl"
    and "remove_by_node uuid tr rt pl = (tr', rt', pl')"
  shows "\<forall>k d. hm_get tr' k = Some d \<longrightarrow> ad_node_uuid d \<noteq> uuid"
    and "\<forall>path port. rt_resolve rt' path = Some port \<longrightarrow> port \<notin> node_ports uuid tr"
proof -
  let ?ks = "node_keys uuid tr" and ?ps = "ports_of (node_keys uuid tr) tr"
  have eq: "tr' = fold hm_remove ?ks tr" "rt' = fold rt_remove_by_port ?ps rt"
    using assms(4) remove_keys_fold [OF distinct_node_keys [OF assms(1), of uuid], of tr rt pl]
    by (simp_all add: remove_by_node_def)
  show "\<forall>k d. hm_get tr' k = Some d \<longrightarrow> ad_node_uuid d \<noteq> uuid"
    using set_node_keys [OF assms(1), of _ uuid] by (auto simp: eq hm_get_fold_remove)
  show "\<forall>path port. rt_resolve rt' path = Some port \<longrightarrow> port \<notin> node_ports uuid tr"
    using wd.withdrawn(6) [OF assms(2,3), of ?ps] set_ports_of [OF assms(1), of uuid] by (simp add: eq)
qed

end
