(* ===== verification/Deploy.thy ===== *)
theory Deploy
  imports Database Registry Deploy_Tracker
begin

text \<open>
  Deploying and stopping a connection, \<^verbatim>\<open>crates/kdcts/src/deploy.rs\<close>. Each of the two operations
  waits once for the node's answer, so it is two functions: what runs before the wait,
  which ends with a ticket holding the local variables that live across it, and what runs
  after it, on whatever the shared state has become in the meantime. The answer itself is an
  argument of the second half. Forwarding tasks are recorded with the sender that stops
  them; a task runs exactly as long as its entry is in the list.
\<close>

section \<open>Shared state\<close>

text \<open>The accept loops spawned for one port, all stopped by one shutdown sender.\<close>

record forward =
  fw_client_port :: u16
  fw_channel :: nat
  fw_tcp :: bool
  fw_udp :: bool

record 'l panel =
  pn_db :: database
  pn_registry :: registry
  pn_channels :: channels
  pn_routes :: route_table
  pn_pool :: "'l port_pool"
  pn_tracker :: tracker
  pn_forwards :: "(u16 \<times> forward) list"
  pn_next_tx :: nat

datatype deploy_error =
    ConnectionNotFound
  | BridgeNotAssigned
  | ImageNotAssigned
  | NodeNotAssigned
  | NodeNotFound
  | NodeNotOnline string
  | ImageNotFound
  | NoPortsConfigured string
  | NotEnoughNodePorts string u16 u16
  | NoPoolPort int
  | RouteInUse string
  | ClientNotInRegistry string string
  | SendFailed
  | AnswerDropped
  | StartTimeout string
  | RouteFailed route_error
  | DbFailed db_error
  | NotDeployed

type_synonym ('l, 'a) panel_result = "'l panel \<times> (deploy_error + 'a)"

text \<open>What the wait for the node ends with: an answer, a dropped sender, or the timeout.\<close>

datatype answer = Answered "string + u16 list" | SenderDropped | Elapsed

section \<open>Deploying\<close>

text \<open>\<^verbatim>\<open>node.node_uuid\<close> is the column with NULL read as the empty string.\<close>

definition node_uuid_of :: "client_node \<Rightarrow> string" where
  "node_uuid_of n = (case nd_node_uuid n of None \<Rightarrow> [] | Some u \<Rightarrow> u)"

fun conflicting_route :: "route_table \<Rightarrow> bridge_port list \<Rightarrow> string option" where
  "conflicting_route rt [] = None"
| "conflicting_route rt (p # ps) =
     (case bp_route_path p of
        Some path \<Rightarrow> if rt_resolve rt path \<noteq> None then Some path else conflicting_route rt ps
      | None \<Rightarrow> conflicting_route rt ps)"

text \<open>\<^verbatim>\<open>p.pool_port.unwrap() as u16\<close>; \<^verbatim>\<open>client_port += 1\<close> wraps as in a release build.\<close>

fun assign_client_ports :: "u16 \<Rightarrow> bridge_port list \<Rightarrow> (u16 \<times> u16) list" where
  "assign_client_ports client_port [] = []"
| "assign_client_ports client_port (p # ps) =
     (client_port, as_u16 (the (bp_pool_port p))) # assign_client_ports (client_port + 1) ps"

definition container_name_of :: "string \<Rightarrow> int \<Rightarrow> string" where
  "container_name_of connection_name connection_id =
     ''kdct-'' @ replace_chars [CHR ''/'', CHR '':''] ''-'' connection_name @ ''-'' @ show_int connection_id"

definition image_tag_of :: "image_node \<Rightarrow> string" where
  "image_tag_of img =
     (if img_source_type img = ''git'' then ''kdct:'' @ replace_chars [CHR ''/''] ''-'' (img_name img)
      else img_source img)"

record deploy_ticket =
  dt_connection_id :: int
  dt_connection_name :: string
  dt_node_id :: int
  dt_node :: client_node
  dt_ports :: "bridge_port list"
  dt_port_map :: "(u16 \<times> u16) list"
  dt_container_name :: string
  dt_channel :: nat

text \<open>
  The checks at the start, which change nothing: the rows of the connection, the node's
  state and port range, the pool ports of the bridge, and route conflicts.
\<close>

definition deploy_check ::
  "int \<Rightarrow> 'l panel \<Rightarrow> deploy_error + (connection_row \<times> int \<times> int \<times> client_node \<times> image_node \<times> bridge_port list)" where
  "deploy_check connection_id s =
     (case get_connection connection_id (pn_db s) of
        None \<Rightarrow> Inl ConnectionNotFound
      | Some conn_info \<Rightarrow>
     (case cn_bridge_id (cv_row conn_info) of
        None \<Rightarrow> Inl BridgeNotAssigned
      | Some bridge_id \<Rightarrow>
     (case cn_image_id (cv_row conn_info) of
        None \<Rightarrow> Inl ImageNotAssigned
      | Some _ \<Rightarrow>
     (case cn_node_id (cv_row conn_info) of
        None \<Rightarrow> Inl NodeNotAssigned
      | Some node_id \<Rightarrow>
     (case get_node_by_id node_id (pn_db s) of
        None \<Rightarrow> Inl NodeNotFound
      | Some node \<Rightarrow>
      if nd_status node \<noteq> ''online'' then Inl (NodeNotOnline (nd_hostname node))
      else
     (case get_image_by_name (case cv_image_name conn_info of None \<Rightarrow> [] | Some n \<Rightarrow> n) (pn_db s) of
        None \<Rightarrow> Inl ImageNotFound
      | Some img \<Rightarrow>
      (let ports = get_bridge_ports bridge_id (pn_db s);
           required_ports = word_of_nat (length ports) :: u16;
           node_port_count = as_u16 (nd_port_range_end node - nd_port_range_start node + 1) in
      if ports = [] then Inl (NoPortsConfigured (case cv_bridge_name conn_info of None \<Rightarrow> [] | Some n \<Rightarrow> n))
      else if node_port_count < required_ports
      then Inl (NotEnoughNodePorts (nd_hostname node) node_port_count required_ports)
      else
     (case find (\<lambda>p. bp_pool_port p = None) ports of
        Some p \<Rightarrow> Inl (NoPoolPort (bp_container_port p))
      | None \<Rightarrow>
     (case conflicting_route (pn_routes s) ports of
        Some path \<Rightarrow> Inl (RouteInUse path)
      | None \<Rightarrow> Inr (cv_row conn_info, bridge_id, node_id, node, img, ports))))))))))"

text \<open>
  The part before the wait: after the checks, the client's entry is looked up, a one-shot
  channel is registered under the container's name and the command is sent.
\<close>

definition deploy_begin :: "int \<Rightarrow> 'l panel \<Rightarrow> ('l, deploy_ticket) panel_result" where
  "deploy_begin connection_id s =
     (case deploy_check connection_id s of
        Inl e \<Rightarrow> (s, Inl e)
      | Inr (conn, bridge_id, node_id, node, img, ports) \<Rightarrow>
     (case hm_get (pn_registry s) (node_uuid_of node) of
        None \<Rightarrow> (s, Inl (ClientNotInRegistry (node_uuid_of node) (nd_hostname node)))
      | Some entry \<Rightarrow>
      (let port_map = assign_client_ports (as_u16 (nd_port_range_start node)) ports;
           container_name = container_name_of (cn_name conn) connection_id;
           docker_port_map = map (\<lambda>(i, p). (fst (port_map ! i), as_u16 (bp_container_port p)))
             (enumerate 0 ports);
           ch = ce_channel entry;
           s = s\<lparr>pn_channels := pending_insert ch container_name (pn_next_tx s) (pn_channels s),
                 pn_next_tx := Suc (pn_next_tx s)\<rparr> in
      case send_cmd ch (ImageStart \<lparr>is_image_tag = image_tag_of img, is_source = img_source img,
             is_source_type = img_source_type img, is_container_name = container_name,
             is_port_map = docker_port_map, is_env = get_bridge_envs bridge_id (pn_db s)\<rparr>) (pn_channels s) of
        None \<Rightarrow> (s, Inl SendFailed)
      | Some chs \<Rightarrow>
          (s\<lparr>pn_channels := chs\<rparr>,
           Inr \<lparr>dt_connection_id = connection_id, dt_connection_name = cn_name conn, dt_node_id = node_id,
                dt_node = node, dt_ports = ports, dt_port_map = port_map,
                dt_container_name = container_name, dt_channel = ch\<rparr>))))"

definition has_protocol :: "string \<Rightarrow> bridge_port \<Rightarrow> bool" where
  "has_protocol proto p =
     list_ex (\<lambda>x. trim x = proto)
       (split_on (CHR '','') (case bp_protocols p of None \<Rightarrow> ''tcp'' | Some x \<Rightarrow> x))"

definition published_route :: "bridge_port \<Rightarrow> string option" where
  "published_route p = (if bp_mode p = ''route'' then bp_route_path p else None)"

definition spawn_forward :: "nat \<Rightarrow> bridge_port \<Rightarrow> u16 \<Rightarrow> forward" where
  "spawn_forward ch p client_port =
     \<lparr>fw_client_port = client_port, fw_channel = ch,
      fw_tcp = has_protocol ''tcp'' p \<or> \<not> has_protocol ''udp'' p, fw_udp = has_protocol ''udp'' p\<rparr>"

text \<open>
  The loop that publishes the routes and spawns the accept loops; a rejected route ends it,
  with what was done before left in place.
\<close>

fun register_ports ::
  "nat \<Rightarrow> (bridge_port \<times> u16 \<times> u16) list \<Rightarrow> 'l panel \<Rightarrow> ('l, unit) panel_result" where
  "register_ports ch [] s = (s, Inr ())"
| "register_ports ch ((p, client_port, server_port) # rest) s =
     (case (case published_route p of
              None \<Rightarrow> Inr (pn_routes s)
            | Some path \<Rightarrow> rt_set path server_port (pn_routes s)) of
        Inl e \<Rightarrow> (s, Inl (RouteFailed e))
      | Inr rt \<Rightarrow>
          register_ports ch rest
            (s\<lparr>pn_routes := rt,
               pn_forwards := pn_forwards s @ [(server_port, spawn_forward ch p client_port)]\<rparr>))"

text \<open>\<^verbatim>\<open>Ok(Ok(_))\<close> matches every answer, also one that reports a failure.\<close>

definition deploy_finish :: "deploy_ticket \<Rightarrow> answer \<Rightarrow> 'l panel \<Rightarrow> ('l, unit) panel_result" where
  "deploy_finish t ans s =
     (case ans of
        SenderDropped \<Rightarrow>
          (s\<lparr>pn_channels := pending_remove (dt_channel t) (dt_container_name t) (pn_channels s)\<rparr>,
           Inl AnswerDropped)
      | Elapsed \<Rightarrow>
          (s\<lparr>pn_channels := pending_remove (dt_channel t) (dt_container_name t) (pn_channels s)\<rparr>,
           Inl (StartTimeout (dt_container_name t)))
      | Answered _ \<Rightarrow>
          (let s = s\<lparr>pn_tracker := record_deployment (dt_connection_name t) (dt_container_name t)
                       (node_uuid_of (dt_node t)) (map snd (dt_port_map t)) (pn_tracker s)\<rparr> in
           case register_ports (dt_channel t) (zip (dt_ports t) (dt_port_map t)) s of
             (s, Inl e) \<Rightarrow> (s, Inl e)
           | (s, Inr _) \<Rightarrow>
               (case update_connection_node (dt_connection_id t) (Some (dt_node_id t)) ''deployed''
                       (Some (dt_container_name t)) (pn_db s) of
                  (db, Inl e) \<Rightarrow> (s\<lparr>pn_db := db\<rparr>, Inl (DbFailed e))
                | (db, Inr _) \<Rightarrow> (s\<lparr>pn_db := db\<rparr>, Inr ()))))"

section \<open>Stopping\<close>

record stop_ticket =
  st_connection_id :: int
  st_connection_name :: string
  st_node_uuid :: "string option"

definition stop_begin :: "int \<Rightarrow> 'l panel \<Rightarrow> ('l, stop_ticket) panel_result" where
  "stop_begin connection_id s =
     (case get_connection connection_id (pn_db s) of
        None \<Rightarrow> (s, Inl ConnectionNotFound)
      | Some conn_info \<Rightarrow>
      (let conn = cv_row conn_info;
           container_name = (case cn_container_name conn of None \<Rightarrow> cn_name conn | Some c \<Rightarrow> c);
           node_uuid = (case cn_node_id conn of
                          None \<Rightarrow> None
                        | Some nid \<Rightarrow> map_option node_uuid_of (get_node_by_id nid (pn_db s)));
           ticket = \<lparr>st_connection_id = connection_id, st_connection_name = cn_name conn, st_node_uuid = node_uuid\<rparr> in
      if cn_status conn \<noteq> ''deployed'' then (s, Inl NotDeployed)
      else case node_uuid of
        None \<Rightarrow> (s, Inr ticket)
      | Some uuid \<Rightarrow>
          (case hm_get (pn_registry s) uuid of
             None \<Rightarrow> (s, Inr ticket)
           | Some entry \<Rightarrow>
               (let ch = ce_channel entry;
                    chs = pending_insert ch container_name (pn_next_tx s) (pn_channels s);
                    chs = (case send_cmd ch (ImageStop container_name) chs of None \<Rightarrow> chs | Some chs \<Rightarrow> chs) in
                (s\<lparr>pn_channels := chs, pn_next_tx := Suc (pn_next_tx s)\<rparr>, Inr ticket)))))"

definition take_down :: "string \<Rightarrow> string \<Rightarrow> 'l panel \<Rightarrow> 'l panel" where
  "take_down connection_name uuid s =
     (case get_deployment connection_name uuid (pn_tracker s) of
        None \<Rightarrow> s
      | Some d \<Rightarrow>
          (case withdraw_ports (ad_server_ports d) (pn_routes s) (pn_pool s) of
             (rt, pl) \<Rightarrow>
               s\<lparr>pn_routes := rt, pn_pool := pl,
                 pn_forwards := filter (\<lambda>(sp, _). sp \<notin> set (ad_server_ports d)) (pn_forwards s),
                 pn_tracker := snd (remove_deployment connection_name uuid (pn_tracker s))\<rparr>))"

text \<open>The part after the wait, whose outcome is ignored.\<close>

definition stop_finish :: "stop_ticket \<Rightarrow> 'l panel \<Rightarrow> ('l, unit) panel_result" where
  "stop_finish t s =
     (let s = (case st_node_uuid t of None \<Rightarrow> s | Some uuid \<Rightarrow> take_down (st_connection_name t) uuid s) in
      case update_connection_node (st_connection_id t) None ''pending'' None (pn_db s) of
        (db, Inl e) \<Rightarrow> (s\<lparr>pn_db := db\<rparr>, Inl (DbFailed e))
      | (db, Inr _) \<Rightarrow> (s\<lparr>pn_db := db\<rparr>, Inr ()))"

lemmas [kdct_simps] = node_uuid_of_def container_name_of_def image_tag_of_def deploy_check_def
  deploy_begin_def has_protocol_def published_route_def spawn_forward_def deploy_finish_def stop_begin_def take_down_def stop_finish_def

section \<open>What deploying does\<close>

lemma register_ports_frame:
  "register_ports ch l s = (s', r) \<Longrightarrow>
     pn_db s' = pn_db s \<and> pn_registry s' = pn_registry s \<and> pn_channels s' = pn_channels s \<and>
     pn_pool s' = pn_pool s \<and> pn_tracker s' = pn_tracker s \<and> pn_next_tx s' = pn_next_tx s"
proof (induction l arbitrary: s)
  case (Cons x l)
  obtain p cp sp where x: "x = (p, cp, sp)" by (cases x)
  show ?case using Cons.prems Cons.IH by (fastforce simp: x split: sum.splits)
qed simp

lemma register_ports_forwards:
  "register_ports ch l s = (s', Inr ()) \<Longrightarrow>
     pn_forwards s' = pn_forwards s @ map (\<lambda>(p, cp, sp). (sp, spawn_forward ch p cp)) l"
proof (induction l arbitrary: s)
  case (Cons x l)
  obtain p cp sp where x: "x = (p, cp, sp)" by (cases x)
  show ?case using Cons.prems Cons.IH by (fastforce simp: x split: sum.splits)
qed simp

lemma register_ports_routes:
  "rt_inv (pn_routes s) \<Longrightarrow> register_ports ch l s = (s', Inr ()) \<Longrightarrow>
     rt_inv (pn_routes s') \<and>
     (\<forall>r q. hm_get (routes (pn_routes s)) r = Some q \<longrightarrow> hm_get (routes (pn_routes s')) r = Some q) \<and>
     (\<forall>p cp sp path. (p, cp, sp) \<in> set l \<longrightarrow> published_route p = Some path \<longrightarrow>
        hm_get (routes (pn_routes s')) path = Some sp) \<and>
     (\<forall>r q. hm_get (routes (pn_routes s')) r = Some q \<longrightarrow>
        hm_get (routes (pn_routes s)) r = Some q \<or>
        hm_get (routes (pn_routes s)) r = None \<and> q \<in> (\<lambda>x. snd (snd x)) ` set l)"
proof (induction l arbitrary: s)
  case (Cons x l)
  obtain p cp sp where x: "x = (p, cp, sp)" by (cases x)
  from Cons.prems(2) obtain rt where rt: "(case published_route p of None \<Rightarrow> Inr (pn_routes s)
        | Some path \<Rightarrow> rt_set path sp (pn_routes s)) = Inr rt"
    and rest: "register_ports ch l (s\<lparr>pn_routes := rt,
        pn_forwards := pn_forwards s @ [(sp, spawn_forward ch p cp)]\<rparr>) = (s', Inr ())"
    by (auto simp: x split: sum.splits)
  have inv: "rt_inv rt \<and> (published_route p = None \<and> rt = pn_routes s \<or>
      (\<exists>path. published_route p = Some path \<and> hm_get (routes (pn_routes s)) path = None \<and>
         hm_get (routes rt) = (hm_get (routes (pn_routes s)))(path \<mapsto> sp)))"
  proof (cases "published_route p")
    case (Some path)
    then have "rt_set path sp (pn_routes s) = Inr rt" using rt by simp
    from rt.publish_ok [OF Cons.prems(1) this] Some show ?thesis by simp
  qed (use rt Cons.prems(1) in simp)
  then have "rt_inv (pn_routes (s\<lparr>pn_routes := rt, pn_forwards := pn_forwards s @ [(sp, spawn_forward ch p cp)]\<rparr>))"
    by simp
  note IH = Cons.IH [OF this rest, simplified]
  from inv show ?case
  proof (elim conjE disjE exE)
    assume "published_route p = None" "rt = pn_routes s"
    with IH show ?thesis by (auto simp: x)
  next
    fix path assume p: "published_route p = Some path" "hm_get (routes (pn_routes s)) path = None"
      "hm_get (routes rt) = (hm_get (routes (pn_routes s)))(path \<mapsto> sp)"
    have keep: "hm_get (routes (pn_routes s')) r = Some q" if "hm_get (routes (pn_routes s)) r = Some q" for r q
    proof -
      have "hm_get (routes rt) r = Some q" using p(2) that by (auto simp: p(3))
      with IH show ?thesis by blast
    qed
    have new: "hm_get (routes (pn_routes s)) r = Some q \<or>
        hm_get (routes (pn_routes s)) r = None \<and> q \<in> insert sp ((\<lambda>x. snd (snd x)) ` set l)"
      if "hm_get (routes (pn_routes s')) r = Some q" for r q
    proof -
      have "hm_get (routes rt) r = Some q \<or> hm_get (routes rt) r = None \<and> q \<in> (\<lambda>x. snd (snd x)) ` set l"
        using IH that by blast
      then show ?thesis using p(2) unfolding p(3) by (auto split: if_splits)
    qed
    have "hm_get (routes rt) path = Some sp" by (simp add: p(3))
    then have "hm_get (routes (pn_routes s')) path = Some sp" using IH by blast
    with IH keep new p(1) show ?thesis by (simp add: x)
  qed
qed simp

definition panel_inv :: "'l panel \<Rightarrow> bool" where
  "panel_inv s \<longleftrightarrow> db_wf (pn_db s) \<and> rt_inv (pn_routes s) \<and> pool_inv (pn_pool s) \<and> hm_wf (pn_tracker s) \<and>
     hm_wf (pn_registry s)"

lemma length_assign_client_ports [simp]: "length (assign_client_ports c ps) = length ps"
  by (induction ps arbitrary: c) simp_all

lemma nth_assign_client_ports:
  "i < length ps \<Longrightarrow> assign_client_ports c ps ! i = (c + word_of_nat i, as_u16 (the (bp_pool_port (ps ! i))))"
proof (induction ps arbitrary: c i)
  case (Cons p ps)
  then show ?case by (cases i) (simp_all add: add.assoc)
qed simp

lemma snd_assign_client_ports: "map snd (assign_client_ports c ps) = map (\<lambda>p. as_u16 (the (bp_pool_port p))) ps"
  by (induction ps arbitrary: c) simp_all

lemma conflicting_route_None:
  "conflicting_route rt ps = None \<longleftrightarrow> (\<forall>p \<in> set ps. \<forall>path. bp_route_path p = Some path \<longrightarrow> rt_resolve rt path = None)"
  by (induction ps) (auto split: option.splits)

text \<open>What the checks establish when they pass.\<close>

lemma deploy_check_ok:
  assumes "deploy_check cid s = Inr (conn, bid, nid, node, img, ports)"
  shows "\<exists>v. get_connection cid (pn_db s) = Some v \<and> conn = cv_row v"
    and "cn_bridge_id conn = Some bid" and "cn_node_id conn = Some nid"
    and "get_node_by_id nid (pn_db s) = Some node" and "nd_status node = ''online''"
    and "ports = get_bridge_ports bid (pn_db s)" and "ports \<noteq> []"
    and "\<forall>p \<in> set ports. bp_pool_port p \<noteq> None"
    and "\<forall>p \<in> set ports. \<forall>path. bp_route_path p = Some path \<longrightarrow> rt_resolve (pn_routes s) path = None"
    and "word_of_nat (length ports) \<le> as_u16 (nd_port_range_end node - nd_port_range_start node + 1)"
  using assms unfolding deploy_check_def Let_def
  by (auto simp: find_None_iff_ball conflicting_route_None split: option.splits if_splits)

lemma deploy_begin_ok:
  assumes "deploy_begin cid s = (s', Inr t)"
  obtains conn bid node img entry where
    "deploy_check cid s = Inr (conn, bid, dt_node_id t, node, img, dt_ports t)"
    "dt_node t = node" "hm_get (pn_registry s) (node_uuid_of node) = Some entry"
    "dt_channel t = ce_channel entry" "ch_alive (pn_channels s (ce_channel entry))"
    "dt_connection_id t = cid" "dt_connection_name t = cn_name conn"
    "dt_port_map t = assign_client_ports (as_u16 (nd_port_range_start node)) (dt_ports t)"
    "dt_container_name t = container_name_of (cn_name conn) cid"
    "s' = s\<lparr>pn_next_tx := Suc (pn_next_tx s), pn_channels := (pn_channels s)(ce_channel entry :=
       (pn_channels s (ce_channel entry))
         \<lparr>ch_pending := hm_insert (dt_container_name t) (pn_next_tx s) (ch_pending (pn_channels s (ce_channel entry))),
          ch_sent := ch_sent (pn_channels s (ce_channel entry)) @
            [ImageStart \<lparr>is_image_tag = image_tag_of img, is_source = img_source img,
               is_source_type = img_source_type img, is_container_name = dt_container_name t,
               is_port_map = map (\<lambda>(i, p). (fst (dt_port_map t ! i), as_u16 (bp_container_port p))) (enumerate 0 (dt_ports t)),
               is_env = get_bridge_envs bid (pn_db s)\<rparr>]\<rparr>)\<rparr>"
  using assms
  by (auto simp: deploy_begin_def send_cmd_def pending_insert_def Let_def
      split: sum.splits option.splits prod.splits if_splits)

text \<open>
  A deployment that is started is a valid one: \<^verbatim>\<open>deploy_connection\<close> reaches the wait only if the
  connection's node is online in the database and registered, each port of its bridge has a
  pool port and no route of the bridge is taken; it then has sent that node exactly one
  command, which starts the container with the bridge's variables and maps the bridge's
  \<open>i\<close>-th port to the \<open>i\<close>-th port of the node's range; database, routes, pool, tracker and
  forwards are still as they were.
\<close>

theorem deploy_begin_sends_one_start:
  assumes "deploy_begin cid s = (s', Inr t)"
  shows "\<exists>v bid uuid entry cmd.
    get_connection cid (pn_db s) = Some v \<and> cn_bridge_id (cv_row v) = Some bid \<and>
    dt_ports t = get_bridge_ports bid (pn_db s) \<and> dt_ports t \<noteq> [] \<and>
    nd_status (dt_node t) = ''online'' \<and> uuid = node_uuid_of (dt_node t) \<and>
    hm_get (pn_registry s) uuid = Some entry \<and>
    (\<forall>p \<in> set (dt_ports t). bp_pool_port p \<noteq> None \<and>
       (\<forall>path. bp_route_path p = Some path \<longrightarrow> rt_resolve (pn_routes s) path = None)) \<and>
    ch_sent (pn_channels s' (ce_channel entry)) = ch_sent (pn_channels s (ce_channel entry)) @ [ImageStart cmd] \<and>
    (\<forall>ch. ch \<noteq> ce_channel entry \<longrightarrow> pn_channels s' ch = pn_channels s ch) \<and>
    is_container_name cmd = dt_container_name t \<and> is_env cmd = get_bridge_envs bid (pn_db s) \<and>
    length (is_port_map cmd) = length (dt_ports t) \<and>
    (\<forall>i < length (dt_ports t). is_port_map cmd ! i =
       (as_u16 (nd_port_range_start (dt_node t)) + word_of_nat i, as_u16 (bp_container_port (dt_ports t ! i)))) \<and>
    pn_db s' = pn_db s \<and> pn_routes s' = pn_routes s \<and> pn_pool s' = pn_pool s \<and>
    pn_tracker s' = pn_tracker s \<and> pn_forwards s' = pn_forwards s \<and> pn_registry s' = pn_registry s"
proof -
  from deploy_begin_ok [OF assms] obtain conn bid node img entry where
    c: "deploy_check cid s = Inr (conn, bid, dt_node_id t, node, img, dt_ports t)" and
    n: "dt_node t = node" "hm_get (pn_registry s) (node_uuid_of node) = Some entry" and
    pm: "dt_port_map t = assign_client_ports (as_u16 (nd_port_range_start node)) (dt_ports t)" and
    s': "s' = s\<lparr>pn_next_tx := Suc (pn_next_tx s), pn_channels := (pn_channels s)(ce_channel entry :=
       (pn_channels s (ce_channel entry))
         \<lparr>ch_pending := hm_insert (dt_container_name t) (pn_next_tx s) (ch_pending (pn_channels s (ce_channel entry))),
          ch_sent := ch_sent (pn_channels s (ce_channel entry)) @
            [ImageStart \<lparr>is_image_tag = image_tag_of img, is_source = img_source img,
               is_source_type = img_source_type img, is_container_name = dt_container_name t,
               is_port_map = map (\<lambda>(i, p). (fst (dt_port_map t ! i), as_u16 (bp_container_port p))) (enumerate 0 (dt_ports t)),
               is_env = get_bridge_envs bid (pn_db s)\<rparr>]\<rparr>)\<rparr>" by metis
  note ok = deploy_check_ok [OF c]
  from ok(1) obtain v where v: "get_connection cid (pn_db s) = Some v" "conn = cv_row v" by blast
  show ?thesis
    using ok(2,5-9) v n
    by (intro exI [of _ v] exI [of _ bid] exI [of _ "node_uuid_of node"] exI [of _ entry])
      (auto simp: s' pm nth_enumerate_eq nth_assign_client_ports intro!: exI)
qed

text \<open>The state in which a completed deployment has registered its ports.\<close>

definition tracked :: "deploy_ticket \<Rightarrow> 'l panel \<Rightarrow> 'l panel" where
  "tracked t s = s\<lparr>pn_tracker := record_deployment (dt_connection_name t) (dt_container_name t)
     (node_uuid_of (dt_node t)) (map snd (dt_port_map t)) (pn_tracker s)\<rparr>"

lemma deploy_finish_ok:
  assumes "deploy_finish t (Answered ans) s = (s', Inr ())"
  obtains s1 db where
    "register_ports (dt_channel t) (zip (dt_ports t) (dt_port_map t)) (tracked t s) = (s1, Inr ())"
    "update_connection_node (dt_connection_id t) (Some (dt_node_id t)) ''deployed''
       (Some (dt_container_name t)) (pn_db s) = (db, Inr ())" "s' = s1\<lparr>pn_db := db\<rparr>"
    "pn_db s1 = pn_db s" "pn_registry s1 = pn_registry s" "pn_pool s1 = pn_pool s"
    "pn_tracker s1 = pn_tracker (tracked t s)" "pn_channels s1 = pn_channels s"
proof -
  obtain s1 r where r: "register_ports (dt_channel t) (zip (dt_ports t) (dt_port_map t)) (tracked t s) = (s1, r)"
    by (cases "register_ports (dt_channel t) (zip (dt_ports t) (dt_port_map t)) (tracked t s)")
  note frm = register_ports_frame [OF r]
  with assms r have "r = Inr ()" by (auto simp: deploy_finish_def Let_def tracked_def split: prod.splits sum.splits)
  obtain db x where u: "update_connection_node (dt_connection_id t) (Some (dt_node_id t)) ''deployed''
       (Some (dt_container_name t)) (pn_db s) = (db, x)" by fastforce
  have "pn_db s1 = pn_db s" using frm by (simp add: tracked_def)
  with assms r u \<open>r = Inr ()\<close> have "x = Inr () \<and> s' = s1\<lparr>pn_db := db\<rparr>"
    by (auto simp: deploy_finish_def Let_def tracked_def split: sum.splits)
  with that r u frm \<open>r = Inr ()\<close> show thesis by (simp add: tracked_def)
qed

lemma update_connection_node_wf:
  "update_connection_node cid n st ctr db = (db', r) \<Longrightarrow> db_wf db \<Longrightarrow> db_wf db'"
  using db_wf_update_connection_node [of db cid n st ctr] by simp

lemma deploy_finish_inv:
  assumes "panel_inv s" and "deploy_finish t (Answered ans) s = (s', Inr ())"
  shows "panel_inv s'"
proof -
  obtain s1 db where r: "register_ports (dt_channel t) (zip (dt_ports t) (dt_port_map t)) (tracked t s) = (s1, Inr ())"
    and u: "update_connection_node (dt_connection_id t) (Some (dt_node_id t)) ''deployed''
        (Some (dt_container_name t)) (pn_db s) = (db, Inr ())" and s': "s' = s1\<lparr>pn_db := db\<rparr>"
    and frm: "pn_db s1 = pn_db s" "pn_registry s1 = pn_registry s" "pn_pool s1 = pn_pool s"
      "pn_tracker s1 = pn_tracker (tracked t s)"
    using deploy_finish_ok [OF assms(2)] by metis
  have "rt_inv (pn_routes (tracked t s))" using assms(1) by (simp add: panel_inv_def tracked_def)
  from register_ports_routes [OF this r] update_connection_node_wf [OF u] assms(1) frm show ?thesis
    by (simp add: panel_inv_def s' tracked_def record_deployment_def distinct_update)
qed

lemma map_fst_forwards:
  "length pm = length ps \<Longrightarrow> map fst (map (\<lambda>(p, cp, sp). (sp, spawn_forward ch p cp)) (zip ps pm)) = map snd pm"
  by (induction pm ps rule: list_induct2) auto

lemma zip_member:
  "i < length ps \<Longrightarrow> length pm = length ps \<Longrightarrow> (ps ! i, fst (pm ! i), snd (pm ! i)) \<in> set (zip ps pm)"
  using nth_mem [of i "zip ps pm"] by simp

lemma update_connection_node_row:
  assumes "update_connection_node cid n st ctr db = (db', Inr ())" and "c \<in> set (connections db')" and "cn_id c = cid"
  shows "cn_status c = st \<and> cn_node_id c = n \<and> cn_container_name c = ctr"
proof -
  let ?f = "\<lambda>c. if cn_id c = cid then c\<lparr>cn_node_id := n, cn_status := st, cn_container_name := ctr\<rparr> else c"
  have "db' = db\<lparr>connections := map ?f (connections db)\<rparr>"
    using assms(1) unfolding update_connection_node_def by (simp only: prod.inject split: if_splits) simp_all
  then have "c \<in> ?f ` set (connections db)" using assms(2) by simp
  then obtain c' where "c = ?f c'" by (rule imageE)
  with assms(3) show ?thesis by (cases "cn_id c' = cid") simp_all
qed

text \<open>
  C22. A deployment that completes is in force: after a successful answer every route of the bridge
  leads to the pool port of its own bridge port, routes that existed before still
  lead where they did, each bridge port has exactly one running forwarder, the
  deployment is tracked under the connection and the node, and the connection is stored as deployed.
\<close>

theorem deploy_finish_in_force:
  assumes "panel_inv s" and "length (dt_port_map t) = length (dt_ports t)"
    and "deploy_finish t (Answered ans) s = (s', Inr ())"
  shows "(\<forall>i < length (dt_ports t). \<forall>path. published_route (dt_ports t ! i) = Some path \<longrightarrow>
        rt_resolve (pn_routes s') path = Some (snd (dt_port_map t ! i))) \<and>
    (\<forall>r q. hm_get (routes (pn_routes s)) r = Some q \<longrightarrow> rt_resolve (pn_routes s') r = Some q) \<and>
    map fst (pn_forwards s') = map fst (pn_forwards s) @ map snd (dt_port_map t) \<and>
    (\<exists>d. get_deployment (dt_connection_name t) (node_uuid_of (dt_node t)) (pn_tracker s') = Some d \<and>
       ad_server_ports d = map snd (dt_port_map t) \<and> ad_container_name d = dt_container_name t) \<and>
    (\<forall>c \<in> set (connections (pn_db s')). cn_id c = dt_connection_id t \<longrightarrow>
       cn_status c = ''deployed'' \<and> cn_node_id c = Some (dt_node_id t) \<and>
       cn_container_name c = Some (dt_container_name t)) \<and>
    panel_inv s'"
proof -
  obtain s1 db where r: "register_ports (dt_channel t) (zip (dt_ports t) (dt_port_map t)) (tracked t s) = (s1, Inr ())"
    and u: "update_connection_node (dt_connection_id t) (Some (dt_node_id t)) ''deployed''
        (Some (dt_container_name t)) (pn_db s) = (db, Inr ())" and s': "s' = s1\<lparr>pn_db := db\<rparr>"
    and frm: "pn_db s1 = pn_db s" "pn_registry s1 = pn_registry s" "pn_pool s1 = pn_pool s"
      "pn_tracker s1 = pn_tracker (tracked t s)"
    using deploy_finish_ok [OF assms(3)] by metis
  have "rt_inv (pn_routes (tracked t s))" using assms(1) by (simp add: panel_inv_def tracked_def)
  note rts = register_ports_routes [OF this r]
  have inv1: "rt_inv (pn_routes s')" using rts by (simp add: s')
  have "hm_get (routes (pn_routes s1)) path = Some sp"
    if "(p, cp, sp) \<in> set (zip (dt_ports t) (dt_port_map t))" "published_route p = Some path" for p cp sp path
    using rts that by blast
  then have a: "\<forall>i < length (dt_ports t). \<forall>path. published_route (dt_ports t ! i) = Some path \<longrightarrow>
        rt_resolve (pn_routes s') path = Some (snd (dt_port_map t ! i))"
    using rt.resolve_exact [OF inv1] zip_member [OF _ assms(2)] unfolding s' by (metis panel.select_convs(4) panel.surjective panel.update_convs(1))
  have b: "\<forall>r q. hm_get (routes (pn_routes s)) r = Some q \<longrightarrow> rt_resolve (pn_routes s') r = Some q"
    using rts rt.resolve_exact [OF inv1] by (simp add: s' tracked_def)
  have c: "map fst (pn_forwards s') = map fst (pn_forwards s) @ map snd (dt_port_map t)"
    using register_ports_forwards [OF r] map_fst_forwards [OF assms(2)] by (simp add: s' tracked_def)
  have d: "panel_inv s'" using assms(1,3) by (rule deploy_finish_inv)
  show ?thesis using a b c d frm update_connection_node_row [OF u]
    by (simp add: s' tracked_def get_deployment_def record_deployment_def hm_get_insert)
qed

section \<open>A small installation\<close>

text \<open>One online node, one image, one bridge with one routed port, and a connection of the three.\<close>

definition sample_bridge_port :: bridge_port where
  "sample_bridge_port = \<lparr>bp_id = 1, bp_bridge_id = 1, bp_container_port = 80, bp_mode = ''route'',
     bp_route_path = Some ''/'', bp_protocols = None, bp_pool_port = Some 9000\<rparr>"

definition online_node :: client_node where
  "online_node = \<lparr>nd_id = 1, nd_hostname = ''h'', nd_os = ''linux'', nd_arch = ''x86_64'',
     nd_docker_version = ''24'', nd_port_range_start = 3000, nd_port_range_end = 3999, nd_cpu_cores = 4,
     nd_memory_mb = 1024, nd_status = ''online'', nd_auth_digest = Some ''ab'', nd_node_uuid = Some ''u1'',
     nd_last_seen = 0\<rparr>"

definition sample_connection :: connection_row where
  "sample_connection = \<lparr>cn_id = 1, cn_name = ''c'', cn_bridge_id = Some 1, cn_image_id = Some 1,
     cn_node_id = Some 1, cn_status = ''pending'', cn_container_name = None, cn_created_at = 0\<rparr>"

definition install_db :: database where
  "install_db = empty_db\<lparr>client_nodes_schema := Some UuidUnique,
     images := [\<lparr>img_id = 1, img_name = ''nginx'', img_source = ''nginx'', img_source_type = ''docker_hub'',
        img_status = ''loaded'', img_created_at = 0\<rparr>], image_seq := 1,
     bridges := [\<lparr>br_id = 1, br_name = ''web'', br_status = ''draft'', br_created_at = 0\<rparr>], bridge_seq := 1,
     bridge_ports := [sample_bridge_port], bridge_port_seq := 1,
     connections := [sample_connection], connection_seq := 1,
     client_nodes := [online_node], client_node_seq := 1\<rparr>"

definition sample_entry :: client_entry where
  "sample_entry = \<lparr>ce_node_uuid = ''u1'', ce_hostname = ''h'', ce_os = ''linux'', ce_arch = ''x86_64'',
     ce_docker_version = ''24'', ce_port_range_start = 3000, ce_port_range_end = 3999, ce_cpu_cores = 4,
     ce_memory_mb = 1024, ce_running_containers = [], ce_channel = 0\<rparr>"

definition sample_panel :: "unit panel" where
  "sample_panel = \<lparr>pn_db = install_db, pn_registry = [(''u1'', sample_entry)],
     pn_channels = (\<lambda>_. \<lparr>ch_alive = True, ch_sent = [], ch_pending = []\<rparr>), pn_routes = rt_new,
     pn_pool = \<lparr>free = [], assignments = [(9000, ([], 0))], listeners = [(9000, ())], total_ports = 1\<rparr>,
     pn_tracker = [], pn_forwards = [], pn_next_tx = 0\<rparr>"

definition sample_ticket :: deploy_ticket where
  "sample_ticket = \<lparr>dt_connection_id = 1, dt_connection_name = ''c'', dt_node_id = 1, dt_node = online_node,
     dt_ports = [sample_bridge_port], dt_port_map = [(3000, 9000)], dt_container_name = ''kdct-c-1'',
     dt_channel = 0\<rparr>"

lemmas sample_defs = sample_panel_def sample_entry_def install_db_def sample_connection_def online_node_def
  sample_bridge_port_def empty_db_def rt_new_def sample_ticket_def

lemma install_db_wf: "db_wf install_db"
  by (simp add: db_wf_defs sample_defs List.map_filter_simps rows_wf_def refs_ok_def)

lemma sample_panel_inv: "panel_inv sample_panel"
  using install_db_wf
  by (simp add: panel_inv_def sample_panel_def rt_inv_new pool_inv_def assigned_def pool_ports_def)

lemma sample_check:
  "deploy_check 1 sample_panel =
     Inr (sample_connection, 1, 1, online_node, hd (images install_db), [sample_bridge_port])"
  by (simp add: deploy_check_def get_connection_def join_connection_def get_node_by_id_def get_image_by_name_def
      get_bridge_ports_def sample_defs rt_resolve_def Let_def)

lemma sample_begin: "\<exists>s'. deploy_begin 1 sample_panel = (s', Inr sample_ticket)"
proof -
  have "container_name_of ''c'' 1 = ''kdct-c-1''"
    by (simp add: container_name_of_def kdct_simps)
  then show ?thesis
    by (simp add: deploy_begin_def sample_check Let_def send_cmd_def pending_insert_def node_uuid_of_def)
      (simp add: sample_defs Let_def send_cmd_def pending_insert_def)
qed

lemma sample_finish: "\<exists>s'. deploy_finish sample_ticket (Answered ans) sample_panel = (s', Inr ())"
  by (simp add: deploy_finish_def Let_def update_connection_node_def refs_ok_def published_route_def
      rt_set_def is_admin_path_def ADMIN_PREFIX_def sample_defs)


theorem deploy_begin_sends_one_start_witness:
  "\<exists>s' t cmd. deploy_begin 1 sample_panel = (s', Inr t) \<and>
     ch_sent (pn_channels s' 0) = [ImageStart cmd] \<and> is_port_map cmd ! 0 = (3000, 80)"
proof -
  obtain s' where b: "deploy_begin 1 sample_panel = (s', Inr sample_ticket)" using sample_begin by blast
  from deploy_begin_sends_one_start [OF b] b show ?thesis
    by (auto simp: sample_defs node_uuid_of_def)
qed

theorem deploy_finish_in_force_witness:
  "\<exists>s'. deploy_finish sample_ticket (Answered (Inr [3000])) sample_panel = (s', Inr ()) \<and>
     rt_resolve (pn_routes s') ''/'' = Some 9000"
proof -
  obtain s' where f: "deploy_finish sample_ticket (Answered (Inr [3000])) sample_panel = (s', Inr ())"
    using sample_finish by blast
  have "length (dt_port_map sample_ticket) = length (dt_ports sample_ticket)" by (simp add: sample_ticket_def)
  from deploy_finish_in_force [OF sample_panel_inv this f] f show ?thesis
    by (auto simp: sample_ticket_def sample_bridge_port_def published_route_def)
qed

section \<open>Failures, stopping and undoing\<close>

definition same_services :: "'l panel \<Rightarrow> 'l panel \<Rightarrow> bool" where
  "same_services s s' \<longleftrightarrow>
     pn_db s' = pn_db s \<and> pn_routes s' = pn_routes s \<and> pn_pool s' = pn_pool s \<and>
     pn_tracker s' = pn_tracker s \<and> pn_forwards s' = pn_forwards s \<and> pn_registry s' = pn_registry s"

text \<open>
  C24. A deployment that fails before the node answers leaves no trace outside the node's own
  channel: whether a check fails, the command cannot be sent, the sender is dropped or the wait times
  out, database, routes, pool, tracker and forwards are untouched, and after a dropped
  sender or a timeout no answer is awaited under the container's name any more.
\<close>

theorem deploy_failure_leaves_no_trace:
  "(\<forall>s' e. deploy_begin cid s = (s', Inl e) \<longrightarrow> same_services s s') \<and>
   (\<forall>ans s' r. ans \<in> {SenderDropped, Elapsed} \<longrightarrow> deploy_finish t ans s = (s', r) \<longrightarrow>
      same_services s s' \<and> r \<noteq> Inr () \<and>
      hm_get (ch_pending (pn_channels s' (dt_channel t))) (dt_container_name t) = None)"
proof (intro conjI allI impI)
  fix s' e assume "deploy_begin cid s = (s', Inl e)"
  then show "same_services s s'"
    by (auto simp: deploy_begin_def same_services_def Let_def split: sum.splits option.splits prod.splits)
next
  fix ans s' r assume "ans \<in> {SenderDropped, Elapsed}" "deploy_finish t ans s = (s', r)"
  then have "s' = s\<lparr>pn_channels := pending_remove (dt_channel t) (dt_container_name t) (pn_channels s)\<rparr>" "r \<noteq> Inr ()"
    by (auto simp: deploy_finish_def)
  then show "same_services s s'" "r \<noteq> Inr ()"
    "hm_get (ch_pending (pn_channels s' (dt_channel t))) (dt_container_name t) = None"
    by (simp_all add: same_services_def pending_remove_def hm_get_remove)
qed

theorem deploy_failure_leaves_no_trace_witness:
  "pn_routes (fst (deploy_finish sample_ticket Elapsed sample_panel)) = rt_new"
proof -
  obtain s' r where f: "deploy_finish sample_ticket Elapsed sample_panel = (s', r)"
    by (cases "deploy_finish sample_ticket Elapsed sample_panel")
  then have "same_services sample_panel s'"
    using deploy_failure_leaves_no_trace [of 1 sample_panel sample_ticket] by blast
  with f show ?thesis by (simp add: same_services_def sample_panel_def)
qed

text \<open>
  A failed start counts as deployed: when the node reports that the container could not be
  started, the deployment completes exactly as if it had reported the running container.
\<close>

theorem failed_start_is_deployed:
  assumes "deploy_finish t (Answered (Inr ports)) s = (s', Inr ())"
  shows "deploy_finish t (Answered (Inl message)) s = (s', Inr ()) \<and>
    (\<forall>c \<in> set (connections (pn_db s')). cn_id c = dt_connection_id t \<longrightarrow> cn_status c = ''deployed'')"
proof -
  obtain s1 db where u: "update_connection_node (dt_connection_id t) (Some (dt_node_id t)) ''deployed''
      (Some (dt_container_name t)) (pn_db s) = (db, Inr ())" and "s' = s1\<lparr>pn_db := db\<rparr>"
    using deploy_finish_ok [OF assms] by metis
  then have "\<forall>c \<in> set (connections (pn_db s')). cn_id c = dt_connection_id t \<longrightarrow> cn_status c = ''deployed''"
    using update_connection_node_row [OF u] by simp
  then show ?thesis using assms by (simp add: deploy_finish_def)
qed

theorem failed_start_is_deployed_witness:
  "\<exists>s'. deploy_finish sample_ticket (Answered (Inl ''no such image'')) sample_panel = (s', Inr ())"
  using failed_start_is_deployed [of sample_ticket "[]" sample_panel _ "''no such image''"]
    sample_finish [of "Inr []"] by blast

text \<open>
  A deployed root route blocks every other deployment: the conflict check resolves the new path
  against the table, and with a route for \<^verbatim>\<open>/\<close> every path resolves.
\<close>

theorem root_route_blocks_deployment:
  assumes "panel_inv s" and "hm_get (routes (pn_routes s)) ''/'' = Some q"
    and "get_connection cid (pn_db s) = Some v" and "cn_bridge_id (cv_row v) = Some bid"
    and "p \<in> set (get_bridge_ports bid (pn_db s))" and "bp_route_path p = Some (CHR ''/'' # path)"
  shows "\<exists>e. deploy_begin cid s = (s, Inl e)"
proof -
  have inv: "rt_inv (pn_routes s)" using assms(1) by (simp add: panel_inv_def)
  have blocked: "rt_resolve (pn_routes s) (CHR ''/'' # path) \<noteq> None"
    using rt.resolve_complete [OF inv, of "CHR ''/'' # path" "''/''"] assms(2) by auto
  have "deploy_check cid s \<noteq> Inr x" for x
  proof
    assume "deploy_check cid s = Inr x"
    moreover obtain conn b nid node img ports where "x = (conn, b, nid, node, img, ports)" by (metis prod_cases6)
    ultimately have ok: "deploy_check cid s = Inr (conn, b, nid, node, img, ports)" by simp
    from deploy_check_ok(1,2,6,9) [OF ok] assms(3-6) blocked show False by auto
  qed
  then obtain e where "deploy_check cid s = Inl e" by (metis sumE)
  then show ?thesis by (simp add: deploy_begin_def)
qed

theorem root_route_blocks_deployment_witness:
  "\<exists>e. deploy_begin 1 (sample_panel\<lparr>pn_routes := \<lparr>routes = [(''/'', 9001)]\<rparr>\<rparr>) =
     (sample_panel\<lparr>pn_routes := \<lparr>routes = [(''/'', 9001)]\<rparr>\<rparr>, Inl e)"
proof -
  let ?s = "sample_panel\<lparr>pn_routes := \<lparr>routes = [(''/'', 9001)]\<rparr>\<rparr>"
  have inv: "panel_inv ?s" using sample_panel_inv by (simp add: panel_inv_def rt_inv_def kdct_simps)
  obtain v where v: "get_connection 1 (pn_db ?s) = Some v" "cn_bridge_id (cv_row v) = Some 1"
    by (simp add: get_connection_def join_connection_def sample_defs Let_def)
  have p: "sample_bridge_port \<in> set (get_bridge_ports 1 (pn_db ?s))" "bp_route_path sample_bridge_port = Some (CHR ''/'' # [])"
    by (simp_all add: get_bridge_ports_def sample_defs)
  show ?thesis by (rule root_route_blocks_deployment [OF inv _ v p]) simp
qed

lemma take_down_eq:
  assumes "get_deployment name uuid (pn_tracker s) = Some d"
  shows "take_down name uuid s =
    s\<lparr>pn_routes := fold rt_remove_by_port (ad_server_ports d) (pn_routes s),
      pn_pool := fold release_by_port (ad_server_ports d) (pn_pool s),
      pn_forwards := filter (\<lambda>(sp, _). sp \<notin> set (ad_server_ports d)) (pn_forwards s),
      pn_tracker := hm_remove (name, uuid) (pn_tracker s)\<rparr>"
  using assms by (simp add: take_down_def withdraw_ports_fold remove_deployment_def)

lemma take_down_inv: "panel_inv s \<Longrightarrow> panel_inv (take_down name uuid s)"
proof (cases "get_deployment name uuid (pn_tracker s)")
  case (Some d)
  assume "panel_inv s"
  with wd.withdrawn(1,2) [of "pn_routes s" "pn_pool s" "ad_server_ports d"] show ?thesis
    by (simp add: panel_inv_def take_down_eq [OF Some] distinct_delete)
qed (simp add: take_down_def)

lemma stop_finish_row:
  "\<exists>db. stop_finish t s = ((case st_node_uuid t of None \<Rightarrow> s
      | Some uuid \<Rightarrow> take_down (st_connection_name t) uuid s)\<lparr>pn_db := db\<rparr>, Inr ()) \<and>
    update_connection_node (st_connection_id t) None ''pending'' None (pn_db s) = (db, Inr ())"
proof -
  have "pn_db (take_down n u s) = pn_db s" for n u
    by (simp add: take_down_def split: option.splits prod.splits)
  moreover obtain db where "update_connection_node (st_connection_id t) None ''pending'' None (pn_db s) = (db, Inr ())"
    by (auto simp: update_connection_node_def refs_ok_def)
  ultimately show ?thesis by (simp add: stop_finish_def Let_def split: option.splits)
qed



lemma take_down_undoes:
  assumes inv: "panel_inv s" and len: "length (dt_port_map t) = length (dt_ports t)"
    and fin: "deploy_finish t (Answered ans) s = (s', Inr ())"
    and unrouted: "\<forall>r q. hm_get (routes (pn_routes s)) r = Some q \<longrightarrow> q \<notin> set (map snd (dt_port_map t))"
    and unforwarded: "\<forall>(sp, fw) \<in> set (pn_forwards s). sp \<notin> set (map snd (dt_port_map t))"
    and untracked: "get_deployment (dt_connection_name t) (node_uuid_of (dt_node t)) (pn_tracker s) = None"
  defines "s'' \<equiv> take_down (dt_connection_name t) (node_uuid_of (dt_node t)) s'"
  shows "hm_get (routes (pn_routes s'')) = hm_get (routes (pn_routes s))" and "pn_forwards s'' = pn_forwards s"
    and "hm_get (pn_tracker s'') = hm_get (pn_tracker s)"
proof -
  let ?ps = "map snd (dt_port_map t)" and ?k = "(dt_connection_name t, node_uuid_of (dt_node t))"
  obtain s1 db where r: "register_ports (dt_channel t) (zip (dt_ports t) (dt_port_map t)) (tracked t s) = (s1, Inr ())"
    and s': "s' = s1\<lparr>pn_db := db\<rparr>" and tr: "pn_tracker s1 = pn_tracker (tracked t s)" and pl: "pn_pool s1 = pn_pool s"
    using deploy_finish_ok [OF fin] by metis
  have inv0: "rt_inv (pn_routes (tracked t s))" using inv by (simp add: panel_inv_def tracked_def)
  note rts = register_ports_routes [OF inv0 r]
  obtain d where d: "get_deployment (dt_connection_name t) (node_uuid_of (dt_node t)) (pn_tracker s') = Some d"
      "ad_server_ports d = ?ps"
    by (simp add: s' tr tracked_def get_deployment_def record_deployment_def hm_get_insert)
  have inv1: "rt_inv (pn_routes s')" "pool_inv (pn_pool s')" using rts inv pl by (simp_all add: s' panel_inv_def)
  have ports: "snd (snd x) \<in> set ?ps" if "x \<in> set (zip (dt_ports t) (dt_port_map t))" for x
    using that by (metis image_eqI in_set_zipE list.set_map prod.collapse)
  have "hm_get (routes (pn_routes s'')) r = hm_get (routes (pn_routes s)) r" for r
  proof -
    have old: "hm_get (routes (pn_routes s)) r = Some q \<Longrightarrow> hm_get (routes (pn_routes s')) r = Some q" for q
      using rts by (simp add: s' tracked_def)
    have new: "hm_get (routes (pn_routes s')) r = Some q \<Longrightarrow> hm_get (routes (pn_routes s)) r = Some q \<or> q \<in> set ?ps" for q
      using rts ports by (simp add: s' tracked_def) blast
    show ?thesis unfolding s''_def take_down_eq [OF d(1)] d(2)
      using wd.withdrawn(5) [OF inv1, of ?ps r] old new unrouted
      by (cases "hm_get (routes (pn_routes s)) r"; cases "hm_get (routes (pn_routes s')) r") fastforce+
  qed
  then show "hm_get (routes (pn_routes s'')) = hm_get (routes (pn_routes s))" by (rule ext)
  have "pn_forwards s' = pn_forwards s @ map (\<lambda>(p, cp, sp). (sp, spawn_forward (dt_channel t) p cp)) (zip (dt_ports t) (dt_port_map t))"
    using register_ports_forwards [OF r] by (simp add: s' tracked_def)
  then show "pn_forwards s'' = pn_forwards s"
    using unforwarded ports by (fastforce simp: s''_def take_down_eq [OF d(1)] d(2) filter_id_conv filter_empty_conv)
  show "hm_get (pn_tracker s'') = hm_get (pn_tracker s)"
  proof
    have "pn_tracker s'' = hm_remove ?k (pn_tracker (tracked t s))"
      unfolding s''_def take_down_eq [OF d(1)] by (simp add: s' tr)
    then show "hm_get (pn_tracker s'') k = hm_get (pn_tracker s) k" for k
      using untracked by (simp add: tracked_def record_deployment_def get_deployment_def hm_get_remove hm_get_insert)
  qed
qed

text \<open>
  Stopping undoes deploying: when a deployment completes on a state that has no route and no
  forwarder on its ports and no deployment under its name, stopping it afterwards brings
  routing, forwarders and tracker back to what they were before.
\<close>

theorem stop_undoes_deploy:
  assumes "panel_inv s" and "length (dt_port_map t) = length (dt_ports t)"
    and "deploy_finish t (Answered ans) s = (s', Inr ())"
    and "\<forall>r q. hm_get (routes (pn_routes s)) r = Some q \<longrightarrow> q \<notin> set (map snd (dt_port_map t))"
    and "\<forall>(sp, fw) \<in> set (pn_forwards s). sp \<notin> set (map snd (dt_port_map t))"
    and "get_deployment (dt_connection_name t) (node_uuid_of (dt_node t)) (pn_tracker s) = None"
  shows "\<exists>s''. stop_finish \<lparr>st_connection_id = dt_connection_id t, st_connection_name = dt_connection_name t,
        st_node_uuid = Some (node_uuid_of (dt_node t))\<rparr> s' = (s'', Inr ()) \<and>
    (\<forall>path. rt_resolve (pn_routes s'') path = rt_resolve (pn_routes s) path) \<and>
    pn_forwards s'' = pn_forwards s \<and> hm_get (pn_tracker s'') = hm_get (pn_tracker s)"
proof -
  let ?td = "take_down (dt_connection_name t) (node_uuid_of (dt_node t)) s'"
  note u = take_down_undoes [OF assms]
  obtain db where f: "stop_finish \<lparr>st_connection_id = dt_connection_id t, st_connection_name = dt_connection_name t,
        st_node_uuid = Some (node_uuid_of (dt_node t))\<rparr> s' = (?td\<lparr>pn_db := db\<rparr>, Inr ())"
    using stop_finish_row [of "\<lparr>st_connection_id = dt_connection_id t, st_connection_name = dt_connection_name t,
        st_node_uuid = Some (node_uuid_of (dt_node t))\<rparr>" s'] by auto
  have "panel_inv s'" using deploy_finish_inv [OF assms(1,3)] .
  then have wf: "hm_wf (routes (pn_routes ?td))" "hm_wf (routes (pn_routes s))"
    using take_down_inv assms(1) by (auto simp: panel_inv_def rt_inv_def)
  have "rt_resolve (pn_routes ?td) path = rt_resolve (pn_routes s) path" for path
    using rt_resolve_cong [OF wf u(1)] .
  with f u(2,3) show ?thesis by simp
qed

theorem stop_undoes_deploy_witness:
  "\<exists>s' s''. deploy_finish sample_ticket (Answered (Inr [3000])) sample_panel = (s', Inr ()) \<and>
     stop_finish \<lparr>st_connection_id = 1, st_connection_name = ''c'', st_node_uuid = Some ''u1''\<rparr> s' = (s'', Inr ()) \<and>
     rt_resolve (pn_routes s'') ''/'' = rt_resolve (pn_routes sample_panel) ''/''"
proof -
  obtain s' where f: "deploy_finish sample_ticket (Answered (Inr [3000])) sample_panel = (s', Inr ())"
    using sample_finish by blast
  have "length (dt_port_map sample_ticket) = length (dt_ports sample_ticket)"
    "\<forall>r q. hm_get (routes (pn_routes sample_panel)) r = Some q \<longrightarrow> q \<notin> set (map snd (dt_port_map sample_ticket))"
    "\<forall>(sp, fw) \<in> set (pn_forwards sample_panel). sp \<notin> set (map snd (dt_port_map sample_ticket))"
    "get_deployment (dt_connection_name sample_ticket) (node_uuid_of (dt_node sample_ticket)) (pn_tracker sample_panel) = None"
    by (simp_all add: sample_panel_def sample_ticket_def rt_new_def get_deployment_def)
  from stop_undoes_deploy [OF sample_panel_inv this(1) f this(2-4)] f show ?thesis
    by (auto simp: sample_ticket_def online_node_def node_uuid_of_def)
qed

text \<open>
  A stopped bridge loses its ports: stopping releases the pool ports although the bridge's rows
  keep them, so the next reservation can hand the lowest of them to another bridge.
\<close>

theorem stop_frees_ports_the_bridge_keeps:
  assumes "panel_inv s" and "st_node_uuid t = Some uuid"
    and "get_deployment (st_connection_name t) uuid (pn_tracker s) = Some d"
    and "p \<in> set (ad_server_ports d)" and "p \<in> pool_ports (pn_pool s)"
    and "\<forall>q \<in> set (free (pn_pool s)) \<union> set (ad_server_ports d). p \<le> q"
    and "row \<in> set (bridge_ports (pn_db s))" and "bp_pool_port row = Some (uint p)"
  shows "\<exists>s' pl'. stop_finish t s = (s', Inr ()) \<and> reserve_one (pn_pool s') = Some (p, pl') \<and>
    row \<in> set (bridge_ports (pn_db s'))"
proof -
  obtain db where f: "stop_finish t s = ((take_down (st_connection_name t) uuid s)\<lparr>pn_db := db\<rparr>, Inr ())"
    and u: "update_connection_node (st_connection_id t) None ''pending'' None (pn_db s) = (db, Inr ())"
    using stop_finish_row [of t s] assms(2) by auto
  let ?pl = "fold release_by_port (ad_server_ports d) (pn_pool s)"
  have "rt_inv (pn_routes s)" "pool_inv (pn_pool s)" using assms(1) by (simp_all add: panel_inv_def)
  note w = wd.withdrawn [OF this, of "ad_server_ports d"]
  have "p \<in> set (free ?pl)" "\<forall>q \<in> set (free ?pl). p \<le> q" using w(4) assms(4-6) by auto
  moreover have "sorted (free ?pl)" using w(2) by (simp add: pool_inv_def)
  ultimately have "\<exists>rest. free ?pl = p # rest"
    by (cases "free ?pl") (auto intro: antisym)
  moreover have "bridge_ports db = bridge_ports (pn_db s)"
    using u by (auto simp: update_connection_node_def split: if_splits)
  ultimately show ?thesis
    using assms(7) by (auto simp: f take_down_eq [OF assms(3)] reserve_one_def)
qed

theorem stop_frees_ports_the_bridge_keeps_witness:
  "\<exists>s s' pl'. stop_finish \<lparr>st_connection_id = 1, st_connection_name = ''c'', st_node_uuid = Some ''u1''\<rparr> s = (s', Inr ()) \<and>
     reserve_one (pn_pool (s' :: unit panel)) = Some (9000, pl') \<and> sample_bridge_port \<in> set (bridge_ports (pn_db s'))"
proof -
  let ?d = "\<lparr>ad_image_name = ''c'', ad_container_name = ''kdct-c-1'', ad_node_uuid = ''u1'', ad_server_ports = [9000]\<rparr>"
  let ?s = "sample_panel\<lparr>pn_tracker := [((''c'', ''u1''), ?d)]\<rparr>"
  let ?t = "\<lparr>st_connection_id = 1, st_connection_name = ''c'', st_node_uuid = Some ''u1''\<rparr>"
  have inv: "panel_inv ?s" using sample_panel_inv by (simp add: panel_inv_def)
  have "\<exists>s' pl'. stop_finish ?t ?s = (s', Inr ()) \<and> reserve_one (pn_pool s') = Some (9000, pl') \<and>
      sample_bridge_port \<in> set (bridge_ports (pn_db s'))"
    by (rule stop_frees_ports_the_bridge_keeps [OF inv, where uuid = "''u1''" and d = ?d])
      (simp_all add: get_deployment_def sample_defs pool_ports_def)
  then show ?thesis by blast
qed

end
