(* ===== verification/End_To_End.thy ===== *)
theory End_To_End
  imports Port_Forward Client_Link Deploy
begin

text \<open>
  From the public side to the container: what the panel's deployment, the proxy, the accept loop of the pool port, the tunnel and the client's host operations
  add up to. Each part is the one of its own theory; here they are joined at their interfaces, the route table, the forward of a pool port, the command on
  the control channel and the command on the data channel.
\<close>

section \<open>Ports on the node\<close>

lemma deploy_begin_port_map:
  assumes "deploy_begin cid s = (s1, Inr t)"
  shows "length (dt_port_map t) = length (dt_ports t)"
    and "i < length (dt_ports t) \<Longrightarrow>
      dt_port_map t ! i = (as_u16 (nd_port_range_start (dt_node t)) + word_of_nat i, as_u16 (the (bp_pool_port (dt_ports t ! i))))"
  using deploy_begin_ok [OF assms] by (metis length_assign_client_ports nth_assign_client_ports)+

lemma as_u16_small: "0 \<le> k \<Longrightarrow> k < 65536 \<Longrightarrow> uint (as_u16 k) = k"
  by (simp add: uint_word_of_int_eq take_bit_eq_mod)

text \<open>
  C23. A deployment uses ports of the node's range only: for every range of valid ports and every bridge whose number of ports fits into sixteen bits, a deployment that is started
  maps its ports to different host ports, all of them within the range that the node reported. A bridge with more ports than the range is refused, and so is
  every bridge on a node that reports all ports.
\<close>

theorem client_ports_in_range:
  assumes start: "deploy_begin cid s = (s1, Inr t)" and len: "length (dt_ports t) < 65536"
    and range: "0 \<le> nd_port_range_start (dt_node t)" "nd_port_range_start (dt_node t) \<le> nd_port_range_end (dt_node t)"
      "nd_port_range_end (dt_node t) < 65536"
  shows "distinct (map fst (dt_port_map t)) \<and> int (length (dt_ports t)) \<le> nd_port_range_end (dt_node t) - nd_port_range_start (dt_node t) + 1
    \<and> (\<forall>cp \<in> fst ` set (dt_port_map t). nd_port_range_start (dt_node t) \<le> uint cp \<and> uint cp \<le> nd_port_range_end (dt_node t))
    \<and> \<not> (nd_port_range_start (dt_node t) = 0 \<and> nd_port_range_end (dt_node t) = 65535)"
proof -
  let ?a = "nd_port_range_start (dt_node t)" let ?e = "nd_port_range_end (dt_node t)" let ?n = "length (dt_ports t)"
  obtain conn bid img where c: "deploy_check cid s = Inr (conn, bid, dt_node_id t, dt_node t, img, dt_ports t)"
    using deploy_begin_ok [OF start] by metis
  note ok = deploy_check_ok [OF c]
  have n0: "0 < ?n" using ok(7) by simp
  have un: "uint (word_of_nat ?n :: u16) = int ?n"
    using len by (simp add: uint_nat unat_of_nat)
  have le: "int ?n \<le> uint (as_u16 (?e - ?a + 1))" using ok(10) un by (simp add: word_le_def)
  have full: "\<not> (?a = 0 \<and> ?e = 65535)"
  proof
    assume "?a = 0 \<and> ?e = 65535"
    then have "uint (as_u16 (?e - ?a + 1)) = 0" by simp
    then show False using le n0 by simp
  qed
  then have "?e - ?a + 1 < 65536" using range by auto
  then have fits: "int ?n \<le> ?e - ?a + 1" using le as_u16_small [of "?e - ?a + 1"] range by simp
  have cp: "uint (fst (dt_port_map t ! i)) = ?a + int i" if "i < ?n" for i
  proof -
    have lt: "?a + int i < 65536" using that fits range by simp
    have "fst (dt_port_map t ! i) = word_of_int (?a + int i)"
      using deploy_begin_port_map(2) [OF start that] by simp
    moreover have "uint (as_u16 (?a + int i)) = ?a + int i" by (rule as_u16_small) (use lt range in simp_all)
    ultimately show ?thesis by (simp only:)
  qed
  note pl = deploy_begin_port_map(1) [OF start]
  have "distinct (map fst (dt_port_map t))"
    unfolding distinct_conv_nth using cp pl by (auto simp: nth_eq_iff_index_eq) (metis add_left_cancel of_nat_eq_iff)
  moreover have "\<forall>cp \<in> fst ` set (dt_port_map t). ?a \<le> uint cp \<and> uint cp \<le> ?e"
  proof
    fix x assume "x \<in> fst ` set (dt_port_map t)"
    then obtain i where "i < ?n" "x = fst (dt_port_map t ! i)" using pl by (auto simp: in_set_conv_nth)
    then show "?a \<le> uint x \<and> uint x \<le> ?e" using cp [of i] fits by simp
  qed
  ultimately show ?thesis using fits full by blast
qed

section \<open>From a request to the container\<close>

lemma deploy_finish_published:
  assumes inv: "panel_inv s" and len: "length (dt_port_map t) = length (dt_ports t)"
    and fin: "deploy_finish t (Answered ans) s = (s', Inr ())" and i: "i < length (dt_ports t)"
  shows "(snd (dt_port_map t ! i), spawn_forward (dt_channel t) (dt_ports t ! i) (fst (dt_port_map t ! i))) \<in> set (pn_forwards s')"
    and "published_route (dt_ports t ! i) = Some path \<Longrightarrow> hm_get (routes (pn_routes s')) path = Some (snd (dt_port_map t ! i))"
    and "rt_inv (pn_routes s')"
proof -
  obtain s1 db where r: "register_ports (dt_channel t) (zip (dt_ports t) (dt_port_map t)) (tracked t s) = (s1, Inr ())"
    and s': "s' = s1\<lparr>pn_db := db\<rparr>" using deploy_finish_ok [OF fin] by metis
  have mem: "(dt_ports t ! i, fst (dt_port_map t ! i), snd (dt_port_map t ! i)) \<in> set (zip (dt_ports t) (dt_port_map t))"
    using zip_member [OF i len] by simp
  then have "(snd (dt_port_map t ! i), spawn_forward (dt_channel t) (dt_ports t ! i) (fst (dt_port_map t ! i)))
      \<in> (\<lambda>(p, cp, sp). (sp, spawn_forward (dt_channel t) p cp)) ` set (zip (dt_ports t) (dt_port_map t))"
    by (rule image_eqI [rotated]) (simp add: case_prod_beta)
  then show "(snd (dt_port_map t ! i), spawn_forward (dt_channel t) (dt_ports t ! i) (fst (dt_port_map t ! i))) \<in> set (pn_forwards s')"
    by (simp add: s' register_ports_forwards [OF r])
  have "rt_inv (pn_routes (tracked t s))" using inv by (simp add: panel_inv_def tracked_def)
  note rts = register_ports_routes [OF this r]
  then show "rt_inv (pn_routes s')" by (simp add: s')
  assume "published_route (dt_ports t ! i) = Some path"
  then have "hm_get (routes (pn_routes s1)) path = Some (snd (dt_port_map t ! i))" using rts mem by blast
  then show "hm_get (routes (pn_routes s')) path = Some (snd (dt_port_map t ! i))" by (simp add: s')
qed

lemma upstream_of_route:
  assumes "rt_inv rt" "hm_get (routes rt) path = Some p" "domain cfg = None \<or> domain cfg = Some (request_host req)"
    and "prefix path (uri_path req)" "\<not> is_admin_path (uri_path req)"
    and "\<forall>r \<in> hm_keys (routes rt). prefix r (uri_path req) \<longrightarrow> length r \<le> length path"
  shows "\<exists>peer. upstream_peer cfg rt req = Inr peer \<and> peer_addr peer = (''127.0.0.1'', p)"
proof -
  have "is_longest (uri_path req) (routes rt) (path, p)"
    using assms(2,4,6) by (auto simp: is_longest_def dest: map_of_SomeD)
  then have "rt_resolve rt (uri_path req) = Some p"
    using rt_resolve_iff [of rt "uri_path req" p] assms(1) by (auto simp: rt_inv_def)
  then show ?thesis using assms(3,5) by (auto simp: upstream_peer_def Let_def)
qed

text \<open>A start that succeeded ends with the run command, which publishes every port of the map.\<close>

lemma started_container_publishes:
  assumes "image_start (logged h) now c (w, []) = ((w', cmds), Inr ps)" "(hp, cp) \<in> set (is_port_map c)"
  shows "\<exists>args. last cmds = (''docker'', args) \<and> sublist [''-p'', show_nat (unat hp) @ '':'' @ show_nat (unat cp)] args"
proof -
  have "last cmds = (''docker'', docker_run_args (is_image_tag c) (is_container_name c) (is_port_map c) (is_env c))"
    using image_start_commands [OF assms(1)] by (auto simp: Let_def)
  moreover obtain xs ys where "is_port_map c = xs @ (hp, cp) # ys" using assms(2) by (meson split_list)
  then have "sublist [''-p'', show_nat (unat hp) @ '':'' @ show_nat (unat cp)]
      (docker_run_args (is_image_tag c) (is_container_name c) (is_port_map c) (is_env c))"
    unfolding sublist_def docker_run_args_def
    by (intro exI [of _ "[''run'', ''-d'', ''--name'', is_container_name c]
          @ concat (map (\<lambda>(hp, cp). [''-p'', show_nat (unat hp) @ '':'' @ show_nat (unat cp)]) xs)"] exI) simp
  ultimately show ?thesis by blast
qed

lemma started_port_map:
  assumes "deploy_begin cid s = (s1, Inr t)" "ch_sent (pn_channels s1 (dt_channel t)) = sent @ [ImageStart c]"
  shows "is_port_map c = map (\<lambda>(i, p). (fst (dt_port_map t ! i), as_u16 (bp_container_port p))) (enumerate 0 (dt_ports t))"
  using assms(1) by (rule deploy_begin_ok) (use assms(2) in auto)


section \<open>The sample installation\<close>

definition deployed_start :: image_start where
  "deployed_start = \<lparr>is_image_tag = ''nginx'', is_source = ''nginx'', is_source_type = ''docker_hub'', is_container_name = ''kdct-c-1'',
     is_port_map = [(3000, 80)], is_env = []\<rparr>"

lemma sample_sent:
  assumes "deploy_begin 1 sample_panel = (s1, Inr sample_ticket)"
  shows "ch_sent (pn_channels s1 (dt_channel sample_ticket)) = [] @ [ImageStart deployed_start]"
  using assms
  by (rule deploy_begin_ok)
    (auto simp: sample_check deployed_start_def image_tag_of_def get_bridge_envs_def sample_defs node_uuid_of_def kdct_simps)

lemma deployed_started:
  "image_start (logged sample_host) 0 deployed_start ([], []) =
     (([], [(''docker'', [''ps'', ''-a'', ''-q'', ''-f'', ''name=^kdct-c-1$'']), (''docker'', [''images'', ''-q'', ''nginx'']),
        (''docker'', docker_run_args ''nginx'' ''kdct-c-1'' [(3000, 80)] [])]), Inr [3000])"
  by (simp add: image_start_def deployed_start_def docker_container_exists_def docker_image_exists_def docker_run_def
      docker_def logged_def sample_host_def docker_run_args_def kdct_simps)

theorem client_ports_in_range_witness:
  "\<exists>s1. deploy_begin 1 sample_panel = (s1, Inr sample_ticket) \<and> distinct (map fst (dt_port_map sample_ticket))
     \<and> (\<forall>cp \<in> fst ` set (dt_port_map sample_ticket). 3000 \<le> uint cp \<and> uint cp \<le> 3999)"
proof -
  obtain s1 where b: "deploy_begin 1 sample_panel = (s1, Inr sample_ticket)" using sample_begin by blast
  have "length (dt_ports sample_ticket) < 65536" "nd_port_range_start (dt_node sample_ticket) = 3000"
      "nd_port_range_end (dt_node sample_ticket) = 3999" by (simp_all add: sample_defs)
  with client_ports_in_range [OF b] b show ?thesis by simp
qed


end
