(* ===== verification/Startup.thy ===== *)
theory Startup
  imports Config Database Route_Proxy "HOL-Library.Signed_Division"
begin

text \<open>
  Start-up of the server, \<^verbatim>\<open>crates/kdcts/src/main.rs\<close> (ACME and TLS settings), and automatic
  certificates, \<^verbatim>\<open>crates/kdcts/src/acme.rs\<close>. Paths are strings. The ACME service is a
  parameter: the sequence of answers it gives to each kind of request; where a sequence is
  used up the flow is waiting, and the two-minute timeout ends it there.
\<close>

section \<open>The ACME manager\<close>

definition LE_DIRECTORY_PROD :: string where
  "LE_DIRECTORY_PROD = ''https://acme-v02.api.letsencrypt.org/directory''"

definition LE_DIRECTORY_STAGING :: string where
  "LE_DIRECTORY_STAGING = ''https://acme-staging-v02.api.letsencrypt.org/directory''"

definition RENEW_WITHIN_DAYS :: int where
  "RENEW_WITHIN_DAYS = 30"

record acme_manager =
  am_domain :: string
  am_email :: string
  am_directory_url :: string
  am_state_dir :: string

datatype acme_error =
    AcmeNotEnabled
  | EmailRequired
  | StateDirFailed
  | ListenerBindFailed
  | AccountFailed
  | OrderFailed
  | AuthorizationFailed
  | NoHttp01
  | SetReadyFailed
  | RefreshFailed
  | StillPending
  | OrderInvalid
  | UnexpectedState
  | FinalizeFailed
  | CertNotIssued
  | CertFailed
  | WriteFailed string
  | TimedOut

text \<open>\<open>cwd\<close> is \<^verbatim>\<open>std::env::current_dir()\<close>, which may fail.\<close>

definition acme_from_config :: "string option \<Rightarrow> string \<Rightarrow> acme_config \<Rightarrow> acme_error + acme_manager" where
  "acme_from_config cwd host cfg =
     (if \<not> ac_enabled cfg then Inl AcmeNotEnabled
      else case ac_email cfg of
        None \<Rightarrow> Inl EmailRequired
      | Some email \<Rightarrow>
          if trim email = [] then Inl EmailRequired
          else
            (let directory_url = (case ac_directory_url cfg of
                   Some u \<Rightarrow> u
                 | None \<Rightarrow> if ac_staging cfg then LE_DIRECTORY_STAGING else LE_DIRECTORY_PROD);
                 raw = (case ac_state_dir cfg of
                   Some d \<Rightarrow> d
                 | None \<Rightarrow> path_join (path_join ''kdct-state'' ''acme'') host);
                 dir = (if path_absolute raw then raw
                        else case cwd of Some d \<Rightarrow> path_join d raw | None \<Rightarrow> raw) in
             Inr \<lparr>am_domain = host, am_email = email, am_directory_url = directory_url, am_state_dir = dir\<rparr>))"

definition cert_path :: "acme_manager \<Rightarrow> string" where
  "cert_path m = path_join (am_state_dir m) ''cert.pem''"

definition key_path :: "acme_manager \<Rightarrow> string" where
  "key_path m = path_join (am_state_dir m) ''key.pem''"

definition account_path :: "acme_manager \<Rightarrow> string" where
  "account_path m = path_join (am_state_dir m) ''account.json''"

text \<open>
  Days until expiry; \<open>not_after\<close> is the expiry time read from the certificate file, if the file
  exists and parses. Rust's \<^verbatim>\<open>/\<close> truncates toward zero.
\<close>

definition cert_days_remaining :: "int option \<Rightarrow> int \<Rightarrow> int option" where
  "cert_days_remaining not_after now = map_option (\<lambda>t. (t - now) sdiv 86400) not_after"

definition cert_needs_issue_or_renew :: "int option \<Rightarrow> int \<Rightarrow> bool" where
  "cert_needs_issue_or_renew not_after now =
     (case cert_days_remaining not_after now of None \<Rightarrow> True | Some d \<Rightarrow> d < RENEW_WITHIN_DAYS)"

section \<open>The order flow\<close>

record acme_world =
  aw_files :: "(string, string) hmap"
  aw_challenges :: "(string, string) hmap"

text \<open>
  One authorization as fetched: the fetch may fail (\<^const>\<open>None\<close>); it is pending or not, may
  offer an HTTP-01 challenge (token and key authorization), and marking it ready may fail.
\<close>

record authorization =
  az_pending :: bool
  az_http01 :: "(string \<times> string) option"
  az_set_ready :: bool

fun authorize :: "authorization option list \<Rightarrow> acme_world \<Rightarrow> acme_world \<times> (acme_error + unit)" where
  "authorize [] w = (w, Inr ())"
| "authorize (None # rest) w = (w, Inl AuthorizationFailed)"
| "authorize (Some a # rest) w =
     (if \<not> az_pending a then authorize rest w
      else case az_http01 a of
        None \<Rightarrow> (w, Inl NoHttp01)
      | Some (token, key_auth) \<Rightarrow>
          (let w = w\<lparr>aw_challenges := hm_insert token key_auth (aw_challenges w)\<rparr> in
           if az_set_ready a then authorize rest w else (w, Inl SetReadyFailed)))"

datatype order_status = OrderReady | OrderPending | OrderInvalidStatus | OrderOther

text \<open>The polling loop for the order; \<^const>\<open>None\<close> in the list is a failed refresh.\<close>

fun poll_order :: "nat \<Rightarrow> order_status option list \<Rightarrow> acme_error + unit" where
  "poll_order attempt [] = Inl TimedOut"
| "poll_order attempt (None # _) = Inl RefreshFailed"
| "poll_order attempt (Some OrderReady # _) = Inr ()"
| "poll_order attempt (Some OrderPending # rest) =
     (if attempt + 1 > 60 then Inl StillPending else poll_order (attempt + 1) rest)"
| "poll_order attempt (Some OrderInvalidStatus # _) = Inl OrderInvalid"
| "poll_order attempt (Some OrderOther # _) = Inl UnexpectedState"

text \<open>The polling loop for the certificate; \<^const>\<open>None\<close> in the list is a failed request.\<close>

fun poll_certificate :: "nat \<Rightarrow> string option option list \<Rightarrow> acme_error + string" where
  "poll_certificate attempt [] = Inl TimedOut"
| "poll_certificate attempt (None # _) = Inl CertFailed"
| "poll_certificate attempt (Some (Some c) # _) = Inr c"
| "poll_certificate attempt (Some None # rest) =
     (if attempt + 1 > 30 then Inl CertNotIssued else poll_certificate (attempt + 1) rest)"

text \<open>
  The service's answers during one flow; \<open>acme_writable p\<close> is whether writing to \<open>p\<close> succeeds, \<open>acme_late p\<close> whether the two minutes given to the flow are over
  once it is written.
\<close>

record acme_service =
  acme_account :: "string option option"
  acme_account_restored :: bool
  acme_order :: bool
  acme_authorizations :: "authorization option list"
  acme_statuses :: "order_status option list"
  acme_key :: "string option"
  acme_certificates :: "string option option list"
  acme_writable :: "string \<Rightarrow> bool"
  acme_late :: "string \<Rightarrow> bool"

text \<open>
  Loading the account: with an account file the account is restored from it, without one
  a new account is created and its credentials are stored. The answer to the creation is
  \<^const>\<open>None\<close> when it fails.
\<close>

definition load_account :: "acme_manager \<Rightarrow> acme_service \<Rightarrow> acme_world \<Rightarrow> acme_world \<times> (acme_error + unit)" where
  "load_account m sv w =
     (case hm_get (aw_files w) (account_path m) of
        Some _ \<Rightarrow> (w, if acme_account_restored sv then Inr () else Inl AccountFailed)
      | None \<Rightarrow>
          (case acme_account sv of
             Some (Some json) \<Rightarrow>
               if acme_writable sv (account_path m)
               then (w\<lparr>aw_files := hm_insert (account_path m) json (aw_files w)\<rparr>, Inr ())
               else (w, Inl AccountFailed)
           | _ \<Rightarrow> (w, Inl AccountFailed)))"

text \<open>\<^verbatim>\<open>write_atomic\<close>: a temporary file is written and renamed, so the target changes entirely or not at all.\<close>

definition write_atomic :: "acme_service \<Rightarrow> string \<Rightarrow> string \<Rightarrow> acme_world \<Rightarrow> acme_world \<times> (acme_error + unit)" where
  "write_atomic sv path data w =
     (if acme_writable sv path then (w\<lparr>aw_files := hm_insert path data (aw_files w)\<rparr>, Inr ())
      else (w, Inl (WriteFailed path)))"

definition run_acme_flow :: "acme_manager \<Rightarrow> acme_service \<Rightarrow> acme_world \<Rightarrow> acme_world \<times> (acme_error + unit)" where
  "run_acme_flow m sv w =
     (case load_account m sv w of
        (w, Inl e) \<Rightarrow> (w, Inl e)
      | (w, Inr _) \<Rightarrow>
      if \<not> acme_order sv then (w, Inl OrderFailed)
      else
     (case authorize (acme_authorizations sv) w of
        (w, Inl e) \<Rightarrow> (w, Inl e)
      | (w, Inr _) \<Rightarrow>
     (case poll_order 0 (acme_statuses sv) of
        Inl e \<Rightarrow> (w, Inl e)
      | Inr _ \<Rightarrow>
     (case acme_key sv of
        None \<Rightarrow> (w, Inl FinalizeFailed)
      | Some key_pem \<Rightarrow>
     (case poll_certificate 0 (acme_certificates sv) of
        Inl e \<Rightarrow> (w, Inl e)
      | Inr cert_pem \<Rightarrow>
     (case write_atomic sv (cert_path m) cert_pem w of
        (w, Inl e) \<Rightarrow> (w, Inl e)
      | (w, Inr _) \<Rightarrow>
          if acme_late sv (cert_path m) then (w, Inl TimedOut)
          else
     (case write_atomic sv (key_path m) key_pem w of
        (w, Inl e) \<Rightarrow> (w, Inl e)
      | (w, Inr _) \<Rightarrow> if acme_late sv (key_path m) then (w, Inl TimedOut) else (w, Inr ()))))))))"

text \<open>
  \<^verbatim>\<open>obtain_or_renew\<close>: \<open>dir_ok\<close> is whether the state directory can be created; \<open>bind\<close> whether the
  challenge listener can be bound, asked only when a port is given.
\<close>

definition obtain_or_renew ::
  "acme_manager \<Rightarrow> acme_service \<Rightarrow> bool \<Rightarrow> (u16 \<Rightarrow> bool) \<Rightarrow> u16 option \<Rightarrow> acme_world
     \<Rightarrow> acme_world \<times> (acme_error + unit)" where
  "obtain_or_renew m sv dir_ok bind http_port w =
     (if \<not> dir_ok then (w, Inl StateDirFailed)
      else
        (let w = w\<lparr>aw_challenges := []\<rparr> in
         if (case http_port of Some p \<Rightarrow> \<not> bind p | None \<Rightarrow> False) then (w, Inl ListenerBindFailed)
         else case run_acme_flow m sv w of (w, r) \<Rightarrow> (w\<lparr>aw_challenges := []\<rparr>, r)))"

text \<open>The temporary challenge listener.\<close>

definition serve_challenge ::
  "(string \<Rightarrow> string option) \<Rightarrow> (string \<rightharpoonup> string) \<Rightarrow> read_event list \<Rightarrow> redirect_response option" where
  "serve_challenge utf8 challenges es =
     (case read_head 4096 [] es of
        None \<Rightarrow> None
      | Some raw \<Rightarrow>
          (let head = (case utf8 raw of Some s \<Rightarrow> s | None \<Rightarrow> []);
               target = request_target (hd (split_crlf head)) in
           Some (case strip_prefix ACME_PREFIX target of
                   Some t \<Rightarrow> (case challenges t of Some b \<Rightarrow> Challenge200 b | None \<Rightarrow> NotFound404)
                 | None \<Rightarrow> NotFound404)))"

section \<open>Resolving ACME and TLS at start-up\<close>

text \<open>Settings the panel stored own the configuration once \<^verbatim>\<open>acme_enabled\<close> is present.\<close>

definition nonempty_setting :: "string \<Rightarrow> database \<Rightarrow> string option" where
  "nonempty_setting key db =
     (case get_setting key db of Some v \<Rightarrow> if v = [] then None else Some v | None \<Rightarrow> None)"

definition option_or :: "'a option \<Rightarrow> 'a option \<Rightarrow> 'a option" where
  "option_or a b = (case a of Some x \<Rightarrow> Some x | None \<Rightarrow> b)"

definition effective_acme :: "database \<Rightarrow> acme_config option \<Rightarrow> acme_config option" where
  "effective_acme db toml_acme =
     (case get_setting ''acme_enabled'' db of
        Some v \<Rightarrow>
          (let base = (case toml_acme of Some a \<Rightarrow> a | None \<Rightarrow> acme_config_default) in
           Some \<lparr>ac_enabled = (v = ''true''),
                 ac_email = option_or (nonempty_setting ''acme_email'' db) (ac_email base),
                 ac_directory_url = ac_directory_url base,
                 ac_staging = (case get_setting ''acme_staging'' db of Some x \<Rightarrow> x = ''true'' | None \<Rightarrow> ac_staging base),
                 ac_state_dir = option_or (nonempty_setting ''acme_state_dir'' db) (ac_state_dir base)\<rparr>)
      | None \<Rightarrow> toml_acme)"

definition choose_manager :: "string option \<Rightarrow> string option \<Rightarrow> acme_config option \<Rightarrow> acme_manager option" where
  "choose_manager cwd host cfg =
     (case (host, cfg) of
        (Some d, Some c) \<Rightarrow>
          if ac_enabled c
          then (case acme_from_config cwd d c of Inr m \<Rightarrow> Some m | Inl _ \<Rightarrow> None)
          else None
      | _ \<Rightarrow> None)"

definition effective_paths :: "server_config \<Rightarrow> acme_manager option \<Rightarrow> string option \<times> string option" where
  "effective_paths sc mgr =
     (case mgr of
        Some m \<Rightarrow> (Some (cert_path m), Some (key_path m))
      | None \<Rightarrow> (sc_tls_cert_path sc, sc_tls_key_path sc))"

record tls_decision =
  td_configurable :: bool
  td_live :: bool
  td_proxy :: "(string \<times> string) option"

definition resolve_tls ::
  "(string \<Rightarrow> bool) \<Rightarrow> server_config \<Rightarrow> acme_manager option \<Rightarrow> database \<Rightarrow> tls_decision \<times> database" where
  "resolve_tls is_file sc mgr db =
     (case effective_paths sc mgr of
        (cert, key) \<Rightarrow>
        let paths_ok = (case (cert, key) of
              (Some c, Some k) \<Rightarrow> c \<noteq> [] \<and> k \<noteq> [] \<and> is_file c \<and> is_file k
            | _ \<Rightarrow> False);
            configurable = (sc_domain sc \<noteq> None \<and> paths_ok);
            persisted = (get_setting ''tls_enabled'' db = Some ''true'');
            force = (mgr \<noteq> None \<and> paths_ok \<and> \<not> persisted);
            db = (if force then set_setting ''tls_enabled'' ''true'' db else db);
            live = ((persisted \<or> force) \<and> configurable) in
        (\<lparr>td_configurable = configurable, td_live = live,
          td_proxy = (if live then Some (case cert of Some c \<Rightarrow> c | None \<Rightarrow> [], case key of Some k \<Rightarrow> k | None \<Rightarrow> [])
                      else None)\<rparr>, db))"

lemmas [kdct_simps] = LE_DIRECTORY_PROD_def LE_DIRECTORY_STAGING_def RENEW_WITHIN_DAYS_def
  acme_from_config_def cert_path_def key_path_def account_path_def cert_days_remaining_def
  cert_needs_issue_or_renew_def load_account_def write_atomic_def run_acme_flow_def obtain_or_renew_def
  serve_challenge_def nonempty_setting_def option_or_def effective_acme_def choose_manager_def
  effective_paths_def resolve_tls_def

section \<open>Properties\<close>

text \<open>
  TLS is on exactly when it can work: the proxy serves HTTPS if and only if a domain is
  configured, certificate and key are existing files with non-empty paths, and either the
  stored toggle is on or an ACME manager is active; the paths handed to the proxy are those of the ACME
  manager when there is one and those of the configuration otherwise.
\<close>

theorem tls_live_iff:
  assumes "resolve_tls is_file sc mgr db = (t, db')"
  shows "(td_proxy t = Some (c, k) \<longleftrightarrow>
      sc_domain sc \<noteq> None \<and> effective_paths sc mgr = (Some c, Some k) \<and> c \<noteq> [] \<and> k \<noteq> [] \<and>
      is_file c \<and> is_file k \<and> (get_setting ''tls_enabled'' db = Some ''true'' \<or> mgr \<noteq> None)) \<and>
    (td_live t \<longleftrightarrow> td_proxy t \<noteq> None)"
  using assms
  by (auto simp: resolve_tls_def Let_def split: prod.splits option.splits if_splits)

definition sample_server_config :: server_config where
  "sample_server_config = \<lparr>sc_bind_addr = ''0.0.0.0:2333'', sc_default_token = MaskedString ''t'', sc_services = [],
     sc_transport = \<lparr>tr_transport_type = TcpTransport, tr_tcp = tcp_config_default\<rparr>, sc_heartbeat_interval = 30,
     sc_port_pool = default_port_pool, sc_domain = Some ''example.com'', sc_http_port = 80, sc_https_port = 443,
     sc_api_port = 9933, sc_tls_cert_path = Some ''/etc/c.pem'', sc_tls_key_path = Some ''/etc/k.pem'',
     sc_admin_user = None, sc_admin_password = None, sc_acme = None\<rparr>"

theorem tls_live_iff_witness:
  "td_proxy (fst (resolve_tls (\<lambda>_. True) sample_server_config None
     (set_setting ''tls_enabled'' ''true'' empty_db))) = Some (''/etc/c.pem'', ''/etc/k.pem'')"
proof -
  obtain t db' where r: "resolve_tls (\<lambda>_. True) sample_server_config None
      (set_setting ''tls_enabled'' ''true'' empty_db) = (t, db')"
    by (cases "resolve_tls (\<lambda>_. True) sample_server_config None (set_setting ''tls_enabled'' ''true'' empty_db)")
  from tls_live_iff [OF r, of "''/etc/c.pem''" "''/etc/k.pem''"] r show ?thesis
    by (simp add: sample_server_config_def effective_paths_def get_setting_def set_setting_def empty_db_def)
qed

text \<open>
  The panel's ACME switch wins: once the panel has stored \<^verbatim>\<open>acme_enabled\<close> with a value other than
  \<^verbatim>\<open>true\<close>, no certificate is obtained automatically whatever \<^verbatim>\<open>server.toml\<close> says; with no stored setting
  the file decides; without a domain, or without a non-blank email, ACME is off.
\<close>

theorem acme_switch_precedence:
  "(\<forall>v. get_setting ''acme_enabled'' db = Some v \<longrightarrow> v \<noteq> ''true'' \<longrightarrow>
      choose_manager cwd host (effective_acme db toml) = None) \<and>
   (get_setting ''acme_enabled'' db = None \<longrightarrow> effective_acme db toml = toml) \<and>
   (\<forall>m. choose_manager cwd host cfg = Some m \<longrightarrow>
      host = Some (am_domain m) \<and>
      (\<exists>c. cfg = Some c \<and> ac_enabled c \<and> ac_email c = Some (am_email m) \<and> trim (am_email m) \<noteq> []))"
  by (auto simp: choose_manager_def effective_acme_def acme_from_config_def Let_def
      split: option.splits if_splits sum.splits)

theorem acme_switch_precedence_witness:
  "choose_manager None (Some ''example.com'') (effective_acme (set_setting ''acme_enabled'' ''false'' empty_db)
     (Some \<lparr>ac_enabled = True, ac_email = Some ''a@b.c'', ac_directory_url = None, ac_staging = False,
       ac_state_dir = None\<rparr>)) = None"
proof -
  have "get_setting ''acme_enabled'' (set_setting ''acme_enabled'' ''false'' empty_db) = Some ''false''"
    by (simp add: get_setting_def set_setting_def empty_db_def)
  with acme_switch_precedence show ?thesis by blast
qed

lemma authorize_files: "aw_files (fst (authorize as w)) = aw_files w"
  by (induction as w rule: authorize.induct) (auto simp: Let_def split: option.splits)

lemma poll_order_bounded: "length statuses > 60 \<Longrightarrow> attempt = 0 \<Longrightarrow> poll_order attempt statuses \<noteq> Inl TimedOut"
proof -
  have "poll_order n xs = Inl TimedOut \<Longrightarrow> n + length xs \<le> 60 \<or> 60 < n" for n xs
    by (induction n xs rule: poll_order.induct) (auto split: if_splits)
  then show "length statuses > 60 \<Longrightarrow> attempt = 0 \<Longrightarrow> poll_order attempt statuses \<noteq> Inl TimedOut" by fastforce
qed

lemma path_join_inj: "\<not> path_absolute b \<Longrightarrow> \<not> path_absolute c \<Longrightarrow> path_join a b = path_join a c \<Longrightarrow> b = c"
  by (auto simp: path_join_def split: if_splits)

lemma acme_paths_distinct: "cert_path m \<noteq> account_path m" "key_path m \<noteq> account_path m" "cert_path m \<noteq> key_path m"
  using path_join_inj [of "''cert.pem''" "''account.json''" "am_state_dir m"]
    path_join_inj [of "''key.pem''" "''account.json''" "am_state_dir m"]
    path_join_inj [of "''cert.pem''" "''key.pem''" "am_state_dir m"]
  by (auto simp: cert_path_def key_path_def account_path_def path_absolute_def)

lemma load_account_keeps:
  "p \<noteq> account_path m \<Longrightarrow> hm_get (aw_files (fst (load_account m sv w))) p = hm_get (aw_files w) p"
  by (auto simp: load_account_def hm_get_insert split: option.splits)

text \<open>Once the certificate is written, the key follows, and in time.\<close>

definition writes_pair :: "acme_manager \<Rightarrow> acme_service \<Rightarrow> bool" where
  "writes_pair m sv \<longleftrightarrow> acme_writable sv (key_path m) \<and> \<not> acme_late sv (cert_path m) \<and> \<not> acme_late sv (key_path m)"

definition same_pair :: "acme_manager \<Rightarrow> acme_world \<Rightarrow> acme_world \<Rightarrow> bool" where
  "same_pair m w w' \<longleftrightarrow> hm_get (aw_files w') (cert_path m) = hm_get (aw_files w) (cert_path m)
     \<and> hm_get (aw_files w') (key_path m) = hm_get (aw_files w) (key_path m)"

definition issued :: "acme_manager \<Rightarrow> acme_service \<Rightarrow> acme_world \<Rightarrow> bool" where
  "issued m sv w \<longleftrightarrow> (\<exists>c k. poll_certificate 0 (acme_certificates sv) = Inr c \<and> acme_key sv = Some k
     \<and> hm_get (aw_files w) (cert_path m) = Some c \<and> hm_get (aw_files w) (key_path m) = Some k)"

text \<open>The files when the flow ends: as they were, the new pair, or the new certificate with the old key.\<close>

lemma run_acme_flow_files:
  assumes "run_acme_flow m sv w = (w', r)"
  shows "same_pair m w w' \<and> r \<noteq> Inr () \<or> issued m sv w' \<and> (r = Inr () \<or> r = Inl TimedOut \<and> acme_late sv (key_path m))
    \<or> (acme_late sv (cert_path m) \<and> r = Inl TimedOut \<or> \<not> acme_writable sv (key_path m) \<and> r = Inl (WriteFailed (key_path m)))
      \<and> hm_get (aw_files w') (key_path m) = hm_get (aw_files w) (key_path m)
      \<and> (\<exists>c. poll_certificate 0 (acme_certificates sv) = Inr c \<and> hm_get (aw_files w') (cert_path m) = Some c)"
proof -
  obtain w1 r1 where l: "load_account m sv w = (w1, r1)" by (cases "load_account m sv w")
  obtain w2 r2 where a: "authorize (acme_authorizations sv) w1 = (w2, r2)" by (cases "authorize (acme_authorizations sv) w1")
  have f: "aw_files w2 = aw_files w1" using authorize_files [of "acme_authorizations sv" w1] a by simp
  have s1: "same_pair m w w1"
    using load_account_keeps [of _ m sv w] l acme_paths_distinct unfolding same_pair_def by (metis fst_conv)
  consider (stopped) "aw_files w' = aw_files w1" "r \<noteq> Inr ()"
    | (cert) c k where "poll_certificate 0 (acme_certificates sv) = Inr c" "acme_key sv = Some k"
      "aw_files w' = hm_insert (cert_path m) c (aw_files w1)"
      "acme_late sv (cert_path m) \<and> r = Inl TimedOut \<or> \<not> acme_writable sv (key_path m) \<and> r = Inl (WriteFailed (key_path m))"
    | (pair) c k where "poll_certificate 0 (acme_certificates sv) = Inr c" "acme_key sv = Some k"
      "aw_files w' = hm_insert (key_path m) k (hm_insert (cert_path m) c (aw_files w1))"
      "r = Inr () \<or> r = Inl TimedOut \<and> acme_late sv (key_path m)"
    using assms l a f unfolding run_acme_flow_def write_atomic_def
    by (cases "poll_order 0 (acme_statuses sv)"; cases "poll_certificate 0 (acme_certificates sv)")
      (force split: sum.splits option.splits if_splits)+
  then show ?thesis
  proof cases
    case stopped
    then show ?thesis using s1 by (simp add: same_pair_def)
  next
    case cert
    then show ?thesis using s1 acme_paths_distinct [of m] by (auto simp: same_pair_def hm_get_insert)
  next
    case pair
    then show ?thesis using acme_paths_distinct [of m] by (auto simp: issued_def hm_get_insert)
  qed
qed

lemma obtain_or_renew_flow:
  assumes "obtain_or_renew m sv dir_ok bind http_port w = (w', r)"
  shows "aw_files w' = aw_files w \<and> r \<noteq> Inr () \<and> r \<noteq> Inl TimedOut \<and> (dir_ok \<longrightarrow> aw_challenges w' = [])
    \<or> (\<exists>w1. run_acme_flow m sv (w\<lparr>aw_challenges := []\<rparr>) = (w1, r) \<and> w' = w1\<lparr>aw_challenges := []\<rparr>)"
  using assms by (auto simp: obtain_or_renew_def Let_def split: prod.splits if_splits)

text \<open>
  A certificate is replaced only by a new one: if obtaining or renewing fails, certificate and key on disk are what they were, provided that the key could be written and
  the time given did not run out during the writing; if it succeeds they are the pair just issued; and in every
  case in which the flow was entered no challenge stays published.
\<close>

lemma obtain_or_renew_files:
  assumes "obtain_or_renew m sv dir_ok bind http_port w = (w', r)"
  shows "(r \<noteq> Inr () \<and> writes_pair m sv \<longrightarrow> same_pair m w w') \<and> (r = Inr () \<longrightarrow> issued m sv w') \<and> (dir_ok \<longrightarrow> aw_challenges w' = [])"
  using obtain_or_renew_flow [OF assms]
proof (elim disjE exE conjE)
  fix w1
  assume "run_acme_flow m sv (w\<lparr>aw_challenges := []\<rparr>) = (w1, r)" "w' = w1\<lparr>aw_challenges := []\<rparr>"
  with run_acme_flow_files [OF this(1)] show ?thesis
    by (auto simp: writes_pair_def same_pair_def issued_def)
qed (simp add: same_pair_def)

text \<open>
  Out of time between the two writes, the new certificate stands beside the old key.
\<close>

theorem interrupted_renewal_mismatches:
  assumes "obtain_or_renew m sv dir_ok bind http_port w = (w', r)" "acme_late sv (cert_path m)" "\<not> acme_late sv (key_path m)"
    and "acme_writable sv (key_path m)" "\<not> same_pair m w w'"
  shows "r = Inl TimedOut \<and> hm_get (aw_files w') (key_path m) = hm_get (aw_files w) (key_path m)
    \<and> (\<exists>c. poll_certificate 0 (acme_certificates sv) = Inr c \<and> hm_get (aw_files w') (cert_path m) = Some c)"
  using obtain_or_renew_flow [OF assms(1)]
proof (elim disjE exE conjE)
  fix w1
  assume f: "run_acme_flow m sv (w\<lparr>aw_challenges := []\<rparr>) = (w1, r)" and w': "w' = w1\<lparr>aw_challenges := []\<rparr>"
  have "r \<noteq> Inr ()" using f assms(2) unfolding run_acme_flow_def
    by (auto split: sum.splits option.splits prod.splits if_splits)
  then show ?thesis
    using run_acme_flow_files [OF f] w' assms by (auto simp: same_pair_def)
qed (use assms in \<open>simp add: same_pair_def\<close>)

text \<open>
  Sixty-one pauses of two seconds do not fit into the two minutes of the flow: within sixty answers the loop never gives up on a pending order by itself.
\<close>

lemma pending_limit_unreachable: "length statuses \<le> 60 \<Longrightarrow> poll_order 0 statuses \<noteq> Inl StillPending"
proof -
  have "poll_order n xs = Inl StillPending \<Longrightarrow> 60 < n + length xs" for n xs
    by (induction n xs rule: poll_order.induct) (auto split: if_splits)
  then show "length statuses \<le> 60 \<Longrightarrow> poll_order 0 statuses \<noteq> Inl StillPending" by fastforce
qed

end
