(* ===== verification/Panel_Http.thy ===== *)
theory Panel_Http
  imports Kdct_Prelude
begin

text \<open>
  The HTTP side of the panel, \<^verbatim>\<open>crates/kdcts/src/api.rs\<close>: JSON values, requests and responses, basic authentication, percent-encoding, the
  static files of the panel, and the requests to Docker Hub. JSON text is read by a parameter (\<^verbatim>\<open>serde_json\<close>), as are base64, the
  file system and the HTTP client. Text is the byte string of its UTF-8 encoding.
\<close>

section \<open>JSON\<close>

text \<open>A number that is no integer in the range of \<^verbatim>\<open>i64\<close> is kept as its text.\<close>

datatype json =
    JNull
  | JBool bool
  | JInt int
  | JNum string
  | JStr string
  | JArr "json list"
  | JObj "(string \<times> json) list"

definition json_get :: "json \<Rightarrow> string \<Rightarrow> json option" where
  "json_get v key = (case v of JObj fields \<Rightarrow> hm_get fields key | _ \<Rightarrow> None)"

text \<open>\<^verbatim>\<open>v["key"]\<close> is null where there is no such field.\<close>

definition json_at :: "json \<Rightarrow> string \<Rightarrow> json" where
  "json_at v key = (case json_get v key of None \<Rightarrow> JNull | Some x \<Rightarrow> x)"

definition as_str :: "json \<Rightarrow> string option" where
  "as_str v = (case v of JStr s \<Rightarrow> Some s | _ \<Rightarrow> None)"

definition as_i64 :: "json \<Rightarrow> int option" where
  "as_i64 v = (case v of JInt i \<Rightarrow> Some i | _ \<Rightarrow> None)"

definition as_bool :: "json \<Rightarrow> bool option" where
  "as_bool v = (case v of JBool b \<Rightarrow> Some b | _ \<Rightarrow> None)"

definition as_array :: "json \<Rightarrow> json list option" where
  "as_array v = (case v of JArr vs \<Rightarrow> Some vs | _ \<Rightarrow> None)"

definition option_default :: "'a \<Rightarrow> 'a option \<Rightarrow> 'a" where
  "option_default d x = (case x of None \<Rightarrow> d | Some y \<Rightarrow> y)"

text \<open>The tri-state of a field: absent, null, or an integer; anything else counts as absent.\<close>

definition parse_slot :: "json \<Rightarrow> string \<Rightarrow> int option option" where
  "parse_slot v key =
     (case json_get v key of
        None \<Rightarrow> None
      | Some JNull \<Rightarrow> Some None
      | Some other \<Rightarrow> map_option Some (as_i64 other))"

section \<open>Requests and responses\<close>

datatype http_method = Get | Post | Patch | Delete | OtherMethod string

record request =
  rq_method :: http_method
  rq_url :: string
  rq_headers :: "(string \<times> string) list"
  rq_body :: "string option"

datatype body = JsonBody json | Data string

record response =
  rs_status :: nat
  rs_content_type :: "string option"
  rs_body :: body

definition respond_json :: "json \<Rightarrow> response" where
  "respond_json data = \<lparr>rs_status = 200, rs_content_type = Some ''application/json'', rs_body = JsonBody data\<rparr>"

definition error_json :: "string \<Rightarrow> nat \<Rightarrow> response" where
  "error_json msg code =
     \<lparr>rs_status = (if code = 400 then 400 else if code = 404 then 404 else 500),
      rs_content_type = Some ''application/json'', rs_body = JsonBody (JObj [(''error'', JStr msg)])\<rparr>"

definition not_found_text :: response where
  "not_found_text = \<lparr>rs_status = 404, rs_content_type = None, rs_body = Data ''Not Found''\<rparr>"

definition unauthorized :: response where
  "unauthorized = \<lparr>rs_status = 401, rs_content_type = None, rs_body = Data ''Unauthorized''\<rparr>"

text \<open>The path without its query, and without the prefix the proxy forwards.\<close>

definition path_no_query :: "string \<Rightarrow> string" where
  "path_no_query url = hd (split_on (CHR ''?'') url)"

definition was_admin :: "string \<Rightarrow> bool" where
  "was_admin p \<longleftrightarrow> p = ''/admin'' \<or> prefix ''/admin/'' p"

definition api_path :: "string \<Rightarrow> string" where
  "api_path p =
     (case strip_prefix ''/admin/'' p of
        Some rest \<Rightarrow> ''/'' @ rest
      | None \<Rightarrow> if p = ''/admin'' then ''/'' else p)"

definition query_string :: "string \<Rightarrow> string option" where
  "query_string url = (case split_on (CHR ''?'') url of _ # qs # _ \<Rightarrow> Some qs | _ \<Rightarrow> None)"

text \<open>The first pair of the query with this key; a pair without a value is passed over.\<close>

fun find_param :: "string \<Rightarrow> string list \<Rightarrow> string option" where
  "find_param key [] = None"
| "find_param key (pair # pairs) =
     (case splitn2 (CHR ''='') pair of
        (k, Some v) \<Rightarrow> if k = key then Some v else find_param key pairs
      | (k, None) \<Rightarrow> find_param key pairs)"

definition query_param :: "string \<Rightarrow> string \<Rightarrow> string" where
  "query_param url key =
     option_default [] (Option.bind (query_string url) (\<lambda>qs. find_param key (split_on (CHR ''&'') qs)))"

text \<open>All pairs of the query, where a later one replaces an earlier one.\<close>

definition query_map :: "string \<Rightarrow> (string, string) hmap" where
  "query_map url =
     (case query_string url of
        None \<Rightarrow> []
      | Some qs \<Rightarrow> fold (\<lambda>pair. case splitn2 (CHR ''='') pair of (k, v) \<Rightarrow> hm_insert k (option_default [] v))
                     (split_on (CHR ''&'') qs) [])"

definition extract_bridge_id :: "string \<Rightarrow> string \<Rightarrow> int option" where
  "extract_bridge_id path suf =
     Option.bind (strip_prefix ''/api/bridges/'' path)
       (\<lambda>p. Option.bind (strip_suffix suf p) parse_i64)"

section \<open>Basic authentication\<close>

definition ascii_lower :: "char \<Rightarrow> char" where
  "ascii_lower c = (let n = of_char c :: nat in if 65 \<le> n \<and> n \<le> 90 then char_of (n + 32) else c)"

definition field_equiv :: "string \<Rightarrow> string \<Rightarrow> bool" where
  "field_equiv a b \<longleftrightarrow> map ascii_lower a = map ascii_lower b"

definition check_basic_auth ::
  "(string \<Rightarrow> string option) \<Rightarrow> (string \<Rightarrow> bool) \<Rightarrow> (string \<times> string) list \<Rightarrow> string \<Rightarrow> string \<Rightarrow> bool" where
  "check_basic_auth b64_decode utf8_ok headers user pass =
     (case find (\<lambda>(f, v). field_equiv f ''Authorization'') headers of
        None \<Rightarrow> False
      | Some (_, auth_header) \<Rightarrow>
     (case strip_prefix ''Basic '' auth_header of
        None \<Rightarrow> False
      | Some e \<Rightarrow>
     (case b64_decode (trim e) of
        None \<Rightarrow> False
      | Some credentials \<Rightarrow>
          utf8_ok credentials
          \<and> (case splitn2 (CHR '':'') credentials of
               (got_user, got_pass) \<Rightarrow> got_user = user \<and> option_default [] got_pass = pass))))"

section \<open>Percent-encoding\<close>

definition hex_val :: "char \<Rightarrow> nat option" where
  "hex_val c =
     (let n = of_char c :: nat in
      if 48 \<le> n \<and> n \<le> 57 then Some (n - 48)
      else if 65 \<le> n \<and> n \<le> 70 then Some (n - 55)
      else if 97 \<le> n \<and> n \<le> 102 then Some (n - 87)
      else None)"

text \<open>
  \<^verbatim>\<open>u8::from_str_radix(_, 16)\<close> on the text of two bytes, which also takes a leading plus sign. Bytes that are no
  UTF-8 text are read as \<^verbatim>\<open>"00"\<close>.
\<close>

definition utf8_pair :: "char \<Rightarrow> char \<Rightarrow> bool" where
  "utf8_pair a b \<longleftrightarrow>
     (let m = of_char a :: nat; n = of_char b :: nat in
      m < 128 \<and> n < 128 \<or> 194 \<le> m \<and> m \<le> 223 \<and> 128 \<le> n \<and> n \<le> 191)"

definition hex_pair :: "char \<Rightarrow> char \<Rightarrow> nat option" where
  "hex_pair a b =
     (if \<not> utf8_pair a b then Some 0
      else if a = CHR ''+'' then hex_val b
      else Option.bind (hex_val a) (\<lambda>x. map_option (\<lambda>y. 16 * x + y) (hex_val b)))"

text \<open>A byte pushed as a \<^verbatim>\<open>char\<close>: from 128 on it takes two bytes of UTF-8.\<close>

definition push_char :: "nat \<Rightarrow> string" where
  "push_char n = (if n < 128 then [char_of n] else [char_of (192 + n div 64), char_of (128 + n mod 64)])"

fun percent_decode :: "string \<Rightarrow> string" where
  "percent_decode [] = []"
| "percent_decode (c # s) =
     (case s of
        a # b # t \<Rightarrow>
          (case (if c = CHR ''%'' then hex_pair a b else None) of
             Some h \<Rightarrow> push_char h @ percent_decode t
           | None \<Rightarrow> push_char (of_char c) @ percent_decode s)
      | _ \<Rightarrow> push_char (of_char c) @ percent_decode s)"

definition hex_upper :: "nat \<Rightarrow> char" where
  "hex_upper d = (if d < 10 then char_of (48 + d) else char_of (55 + d))"

definition unreserved :: "char \<Rightarrow> bool" where
  "unreserved c \<longleftrightarrow>
     (let n = of_char c :: nat in
      65 \<le> n \<and> n \<le> 90 \<or> 97 \<le> n \<and> n \<le> 122 \<or> 48 \<le> n \<and> n \<le> 57
      \<or> c \<in> {CHR ''-'', CHR ''_'', CHR ''.'', CHR ''~''})"

definition encode_byte :: "char \<Rightarrow> string" where
  "encode_byte c =
     (if unreserved c then [c]
      else if c = CHR '' '' then ''%20''
      else let n = of_char c :: nat in [CHR ''%'', hex_upper (n div 16), hex_upper (n mod 16)])"

definition urlencoding :: "string \<Rightarrow> string" where
  "urlencoding s = concat (map encode_byte s)"

section \<open>Static files\<close>

record panel_fs =
  fs_canonicalize :: "string \<Rightarrow> string option"
  fs_exists :: "string \<Rightarrow> bool"
  fs_is_file :: "string \<Rightarrow> bool"
  fs_read :: "string \<Rightarrow> string option"

definition components :: "string \<Rightarrow> string list" where
  "components p = filter (\<lambda>s. s \<noteq> [] \<and> s \<noteq> ''.'') (split_on (CHR ''/'') p)"

definition path_starts_with :: "string \<Rightarrow> string \<Rightarrow> bool" where
  "path_starts_with p root \<longleftrightarrow>
     path_absolute p = path_absolute root \<and> prefix (components root) (components p)"

definition content_type :: "string \<Rightarrow> string" where
  "content_type path =
     (if suffix ''.html'' path then ''text/html''
      else if suffix ''.css'' path then ''text/css''
      else if suffix ''.js'' path then ''application/javascript''
      else if suffix ''.json'' path then ''application/json''
      else if suffix ''.png'' path then ''image/png''
      else if suffix ''.svg'' path then ''image/svg+xml''
      else if suffix ''.woff2'' path then ''font/woff2''
      else ''application/octet-stream'')"

definition serve_file_or_fallback :: "panel_fs \<Rightarrow> string \<Rightarrow> string \<Rightarrow> response" where
  "serve_file_or_fallback fs panel_dir name =
     (case fs_read fs (path_join panel_dir name) of
        Some data \<Rightarrow> \<lparr>rs_status = 200, rs_content_type = Some ''text/html'', rs_body = Data data\<rparr>
      | None \<Rightarrow> not_found_text)"

definition serve_file :: "panel_fs \<Rightarrow> string \<Rightarrow> string \<Rightarrow> response" where
  "serve_file fs file_path name =
     (case fs_read fs file_path of
        Some data \<Rightarrow> \<lparr>rs_status = 200, rs_content_type = Some (content_type name), rs_body = Data data\<rparr>
      | None \<Rightarrow> not_found_text)"

definition safe :: "panel_fs \<Rightarrow> string \<Rightarrow> string \<Rightarrow> bool" where
  "safe fs panel_dir p \<longleftrightarrow>
     (case (fs_canonicalize fs p, fs_canonicalize fs panel_dir) of
        (Some c, Some root) \<Rightarrow> path_starts_with c root
      | _ \<Rightarrow> False)"

definition serve_static :: "panel_fs \<Rightarrow> string \<Rightarrow> string \<Rightarrow> response" where
  "serve_static fs panel_dir path =
     (let path = percent_decode (trim_start_char (CHR ''/'') path) in
      if path = [] then serve_file_or_fallback fs panel_dir ''index.html''
      else if list_ex (\<lambda>seg. seg = ''..'' \<or> seg = ''.'') (split_on (CHR ''/'') path)
      then serve_file_or_fallback fs panel_dir ''index.html''
      else
        let file_path = path_join panel_dir path in
        if fs_exists fs file_path \<and> fs_is_file fs file_path \<and> safe fs panel_dir file_path
        then serve_file fs file_path path
        else
          let html_path = path_join panel_dir (path @ ''.html'') in
          if fs_exists fs html_path \<and> safe fs panel_dir html_path
          then serve_file fs html_path (path @ ''.html'')
          else
            let index_path = path_join (path_join panel_dir path) ''index.html'' in
            if fs_exists fs index_path \<and> safe fs panel_dir index_path
            then serve_file fs index_path ''index.html''
            else serve_file_or_fallback fs panel_dir ''index.html'')"

text \<open>Where the panel's files are: an existing directory named by the environment, or beside the executable, else the one of the build.\<close>

definition panel_dir :: "panel_fs \<Rightarrow> string option \<Rightarrow> string option \<Rightarrow> string \<Rightarrow> string" where
  "panel_dir fs env_dir exe_dir manifest_dir =
     (let fallback = path_join manifest_dir ''../../apps/kdct-panel/build'';
          beside = (case exe_dir of
                      Some d \<Rightarrow> if fs_exists fs (path_join d ''panel'') then path_join d ''panel'' else fallback
                    | None \<Rightarrow> fallback) in
      case env_dir of Some p \<Rightarrow> if fs_exists fs p then p else beside | None \<Rightarrow> beside)"

section \<open>Docker Hub\<close>

definition search_url :: "string \<Rightarrow> string" where
  "search_url query =
     ''https://hub.docker.com/v2/search/repositories/?query='' @ urlencoding query @ ''&page_size=15''"

definition tags_url :: "string \<Rightarrow> nat \<Rightarrow> string" where
  "tags_url repo page =
     (if CHR ''/'' \<in> set repo
      then ''https://hub.docker.com/v2/repositories/'' @ repo @ ''/tags/?page='' @ show_nat page @ ''&page_size=20''
      else ''https://hub.docker.com/v2/repositories/library/'' @ repo @ ''/tags/?page='' @ show_nat page @ ''&page_size=20'')"

text \<open>\<open>http_get\<close> yields the body of the answer or the text of an error; \<open>from_str\<close> reads JSON.\<close>

record hub =
  hub_get :: "string \<Rightarrow> string + string"
  hub_from_str :: "string \<Rightarrow> string + json"

definition hub_json :: "hub \<Rightarrow> string \<Rightarrow> string + json" where
  "hub_json hb url =
     (case hub_get hb url of
        Inl e \<Rightarrow> Inl e
      | Inr text \<Rightarrow> (case hub_from_str hb text of Inl e \<Rightarrow> Inl (''Invalid response: '' @ e) | Inr v \<Rightarrow> Inr v))"

definition search_result :: "json \<Rightarrow> json option" where
  "search_result r =
     map_option (\<lambda>name. JObj
       [(''name'', JStr name),
        (''description'', JStr (option_default [] (as_str (json_at r ''short_description'')))),
        (''pull_count'', JInt (option_default 0 (as_i64 (json_at r ''pull_count'')))),
        (''star_count'', JInt (option_default 0 (as_i64 (json_at r ''star_count'')))),
        (''is_official'', JBool (option_default False (as_bool (json_at r ''is_official''))))])
       (as_str (json_at r ''repo_name''))"

definition search_docker_hub :: "hub \<Rightarrow> string \<Rightarrow> string + json list" where
  "search_docker_hub hb query =
     (case hub_json hb (search_url query) of
        Inl e \<Rightarrow> Inl e
      | Inr parsed \<Rightarrow>
          Inr (List.map_filter search_result (option_default [] (as_array (json_at parsed ''results'')))))"

definition fetch_tags :: "hub \<Rightarrow> string \<Rightarrow> nat \<Rightarrow> string + json" where
  "fetch_tags hb repo page =
     (case hub_json hb (tags_url repo page) of
        Inl e \<Rightarrow> Inl e
      | Inr parsed \<Rightarrow>
          Inr (JObj
            [(''tags'', JArr (List.map_filter (\<lambda>t. map_option JStr (as_str (json_at t ''name'')))
                (option_default [] (as_array (json_at parsed ''results''))))),
             (''has_next'', JBool (as_str (json_at parsed ''next'') \<noteq> None))]))"

lemmas json_defs = json_get_def json_at_def as_str_def as_i64_def as_bool_def as_array_def option_default_def parse_slot_def

lemmas [kdct_simps] = json_defs respond_json_def error_json_def not_found_text_def unauthorized_def path_no_query_def was_admin_def
  api_path_def query_string_def query_param_def query_map_def extract_bridge_id_def ascii_lower_def field_equiv_def
  check_basic_auth_def hex_val_def utf8_pair_def hex_pair_def push_char_def hex_upper_def unreserved_def encode_byte_def
  urlencoding_def components_def path_starts_with_def content_type_def serve_file_or_fallback_def serve_file_def safe_def
  serve_static_def panel_dir_def search_url_def tags_url_def hub_json_def search_result_def search_docker_hub_def fetch_tags_def


section \<open>Encoding and decoding\<close>

definition latin1 :: "string \<Rightarrow> string" where
  "latin1 s = concat (map (\<lambda>c. push_char (of_char c)) s)"

lemma of_char_bound: "(of_char c :: nat) < 256"
  by (metis of_char_mod_256 mod_less_divisor zero_less_numeral)

lemma hex_val_upper: "d < 16 \<Longrightarrow> hex_val (hex_upper d) = Some d"
  by (auto simp: hex_val_def hex_upper_def Let_def)

lemma hex_upper_ascii: "d < 16 \<Longrightarrow> (of_char (hex_upper d) :: nat) < 128" "d < 16 \<Longrightarrow> hex_upper d \<noteq> CHR ''+''"
proof -
  show "d < 16 \<Longrightarrow> (of_char (hex_upper d) :: nat) < 128" by (auto simp: hex_upper_def)
  show "d < 16 \<Longrightarrow> hex_upper d \<noteq> CHR ''+''" using hex_val_upper [of d] by (auto simp: hex_val_def)
qed

lemma hex_pair_upper: "n < 256 \<Longrightarrow> hex_pair (hex_upper (n div 16)) (hex_upper (n mod 16)) = Some n"
  using hex_val_upper [of "n div 16"] hex_val_upper [of "n mod 16"] hex_upper_ascii [of "n div 16"] hex_upper_ascii [of "n mod 16"]
  by (simp add: hex_pair_def utf8_pair_def Let_def)

lemma percent_decode_plain: "c \<noteq> CHR ''%'' \<Longrightarrow> percent_decode (c # s) = push_char (of_char c) @ percent_decode s"
  by (simp split: list.splits)

lemma unreserved_not_percent: "unreserved c \<Longrightarrow> c \<noteq> CHR ''%''"
  by (auto simp: unreserved_def Let_def)

lemma decode_encode_byte: "percent_decode (encode_byte c @ s) = push_char (of_char c) @ percent_decode s"
proof -
  consider "unreserved c" | "c = CHR '' ''" "\<not> unreserved c" | "c \<noteq> CHR '' ''" "\<not> unreserved c" by blast
  then show ?thesis
  proof cases
    case 1
    then show ?thesis using percent_decode_plain [OF unreserved_not_percent] by (simp add: encode_byte_def)
  next
    case 2
    then show ?thesis by (simp add: encode_byte_def hex_pair_def utf8_pair_def hex_val_def)
  next
    case 3
    then show ?thesis using hex_pair_upper [OF of_char_bound, of c] by (simp add: encode_byte_def Let_def)
  qed
qed

lemma decode_urlencoding: "percent_decode (urlencoding s @ t) = latin1 s @ percent_decode t"
  by (induction s) (simp_all add: urlencoding_def latin1_def decode_encode_byte)

lemma hex_upper_unreserved: "d < 16 \<Longrightarrow> unreserved (hex_upper d)"
  by (auto simp: unreserved_def hex_upper_def Let_def)

lemma encode_byte_chars: "x \<in> set (encode_byte c) \<Longrightarrow> unreserved x \<or> x = CHR ''%''"
proof -
  have "of_char c div 16 < (16 :: nat)" using of_char_bound [of c] by linarith
  then have "unreserved (hex_upper (of_char c div 16))" "unreserved (hex_upper (of_char c mod 16))"
    by (simp_all add: hex_upper_unreserved)
  moreover have "unreserved (CHR ''2'')" "unreserved (CHR ''0'')" by (simp_all add: unreserved_def)
  ultimately show "x \<in> set (encode_byte c) \<Longrightarrow> unreserved x \<or> x = CHR ''%''"
    by (simp add: encode_byte_def Let_def split: if_splits) blast+
qed

lemma url_encoding_chars: "x \<in> set (urlencoding s) \<Longrightarrow> unreserved x \<or> x = CHR ''%''"
  by (auto simp: urlencoding_def dest: encode_byte_chars)

lemma latin1_ascii: "list_all (\<lambda>c. of_char c < (128 :: nat)) s \<Longrightarrow> latin1 s = s"
  by (induction s) (simp_all add: latin1_def push_char_def)

text \<open>
  The URL encoder and the decoder of the static paths are inverse on ASCII text, and what the encoder writes contains only
  unreserved characters and percent signs, whatever bytes it is given. Beyond ASCII the decoder does not invert the
  encoder: each byte of the encoded UTF-8 text becomes a character of its own.
\<close>

theorem url_encoding_roundtrip:
  "(list_all (\<lambda>c. of_char c < (128 :: nat)) s \<longrightarrow> percent_decode (urlencoding s) = s)
   \<and> percent_decode (urlencoding s) = latin1 s
   \<and> (\<forall>c \<in> set (urlencoding s). unreserved c \<or> c = CHR ''%'')
   \<and> (list_ex (\<lambda>c. of_char c \<ge> (128 :: nat)) s \<longrightarrow> percent_decode (urlencoding s) \<noteq> s)"
proof -
  have dec: "percent_decode (urlencoding s) = latin1 s" using decode_urlencoding [of s "[]"] by simp
  have "length s < length (latin1 s)" if "list_ex (\<lambda>c. of_char c \<ge> (128 :: nat)) s"
  proof -
    have le: "length u \<le> length (latin1 u)" for u by (induction u) (simp_all add: latin1_def push_char_def)
    have cons: "length (latin1 (c # u)) = (if of_char c < (128 :: nat) then 1 else 2) + length (latin1 u)" for c u
      by (simp add: latin1_def push_char_def)
    show ?thesis using that
    proof (induction s)
      case (Cons c s)
      then show ?case using le [of s] by (auto simp: cons)
    qed simp
  qed
  moreover have "latin1 s \<noteq> s" if "length s < length (latin1 s)" using that by auto
  ultimately show ?thesis using dec latin1_ascii [of s] url_encoding_chars [of _ s] by auto
qed

section \<open>What the panel serves\<close>

lemma safe_iff:
  "safe fs dir f \<longleftrightarrow> (\<exists>c root. fs_canonicalize fs f = Some c \<and> fs_canonicalize fs dir = Some root \<and> path_starts_with c root)"
  by (auto simp: safe_def split: option.splits)

definition confined :: "panel_fs \<Rightarrow> string \<Rightarrow> response \<Rightarrow> bool" where
  "confined fs dir r \<longleftrightarrow>
     rs_status r = 404 \<and> rs_body r = Data ''Not Found''
   \<or> rs_status r = 200 \<and> (\<exists>f d. fs_read fs f = Some d \<and> rs_body r = Data d \<and> (f = path_join dir ''index.html'' \<or> safe fs dir f))"

lemma confined_fallback: "confined fs dir (serve_file_or_fallback fs dir ''index.html'')"
  by (cases "fs_read fs (path_join dir ''index.html'')") (auto simp: confined_def serve_file_or_fallback_def not_found_text_def)

lemma confined_file: "safe fs dir f \<Longrightarrow> confined fs dir (serve_file fs f name)"
  by (cases "fs_read fs f") (auto simp: confined_def serve_file_def not_found_text_def)

lemma confined_serve_static: "confined fs dir (serve_static fs dir path)"
  unfolding serve_static_def Let_def using confined_fallback [of fs dir] confined_file [of fs dir] by presburger

text \<open>
  C17. A request for a static file never leaves the panel's directory: whatever the path, encoded or not, with parent segments or an
  absolute path behind the first slash, the data sent is that of the panel's start page or of a file whose canonical path
  lies below the canonical path of the directory. Anything else is answered with 404, and nothing but 200 and 404 is answered.
\<close>

theorem static_files_confined:
  "rs_status (serve_static fs dir path) = 404 \<and> rs_body (serve_static fs dir path) = Data ''Not Found''
   \<or> rs_status (serve_static fs dir path) = 200
     \<and> (\<exists>f d. fs_read fs f = Some d \<and> rs_body (serve_static fs dir path) = Data d
          \<and> (f = path_join dir ''index.html''
             \<or> (\<exists>c root. fs_canonicalize fs f = Some c \<and> fs_canonicalize fs dir = Some root \<and> path_starts_with c root)))"
  using confined_serve_static [of fs dir path] unfolding confined_def safe_iff .

text \<open>
  With a user name that contains no colon, a request passes the check exactly when its first authorization header carries the
  configured user and password; with a user name that contains one, no request ever passes.
\<close>

theorem basic_auth_exact:
  assumes b64: "b64_decode e = Some (u @ '':'' @ p)" "trim e = e"
    and cred: "utf8_ok (u @ '':'' @ p)" "CHR '':'' \<notin> set u"
  shows "(CHR '':'' \<notin> set user \<longrightarrow>
       (check_basic_auth b64_decode utf8_ok ((''authorization'', ''Basic '' @ e) # hs) user pass \<longleftrightarrow> u = user \<and> p = pass))
    \<and> (CHR '':'' \<in> set user \<longrightarrow> \<not> check_basic_auth b64_decode utf8_ok headers user pass)"
proof -
  have split: "splitn2 (CHR '':'') (u @ '':'' @ p) = (u, Some p)"
    using split_once_append [OF cred(2), of p] by (simp add: splitn2_def)
  have equiv: "field_equiv ''authorization'' ''Authorization''" by code_simp
  have "fst (splitn2 (CHR '':'') s) \<noteq> user" if "CHR '':'' \<in> set user" for s
    using that split_once_Some [of "CHR '':''" s] split_once_None [of "CHR '':''" s]
    by (auto simp: splitn2_def split: option.splits)
  then have "\<not> check_basic_auth b64_decode utf8_ok headers user pass" if "CHR '':'' \<in> set user"
    using that by (simp add: check_basic_auth_def split: option.splits prod.splits) (metis fst_conv)
  moreover have "check_basic_auth b64_decode utf8_ok ((''authorization'', ''Basic '' @ e) # hs) user pass \<longleftrightarrow> u = user \<and> p = pass"
    unfolding check_basic_auth_def using equiv b64 cred(1) split
    by (simp add: strip_prefix_def option_default_def)
  ultimately show ?thesis by blast
qed


section \<open>What the panel asks Docker Hub\<close>

text \<open>
  \<^verbatim>\<open>encodeURIComponent\<close>, with which the pages of the panel (\<^verbatim>\<open>LoadImageModal.svelte\<close>) put the search text and the repository into the query.
\<close>

definition component_plain :: "char \<Rightarrow> bool" where
  "component_plain c \<longleftrightarrow> unreserved c \<or> c \<in> set ''!*()'' \<or> c = CHR 0x27"

definition encode_component :: "string \<Rightarrow> string" where
  "encode_component s =
     concat (map (\<lambda>c. if component_plain c then [c]
                      else let n = of_char c :: nat in [CHR ''%'', hex_upper (n div 16), hex_upper (n mod 16)]) s)"

lemma component_chars: "x \<in> set (encode_component s) \<Longrightarrow> component_plain x \<or> x = CHR ''%''"
proof -
  have "of_char c div 16 < (16 :: nat)" for c using of_char_bound [of c] by linarith
  then have "component_plain (hex_upper (of_char c div 16))" "component_plain (hex_upper (of_char c mod 16))" for c
    by (simp_all add: hex_upper_unreserved component_plain_def)
  then show "x \<in> set (encode_component s) \<Longrightarrow> component_plain x \<or> x = CHR ''%''"
    by (auto simp: encode_component_def Let_def split: if_splits)
qed

lemma component_free:
  "CHR ''/'' \<notin> set (encode_component s)" "CHR ''&'' \<notin> set (encode_component s)" "CHR ''?'' \<notin> set (encode_component s)"
proof -
  have "\<not> component_plain (CHR ''/'')" "\<not> component_plain (CHR ''&'')" "\<not> component_plain (CHR ''?'')"
    by (simp_all add: component_plain_def unreserved_def)
  then show "CHR ''/'' \<notin> set (encode_component s)" "CHR ''&'' \<notin> set (encode_component s)" "CHR ''?'' \<notin> set (encode_component s)"
    using component_chars [of _ s] by fastforce+
qed

lemma component_id: "list_all component_plain s \<Longrightarrow> encode_component s = s"
  by (induction s) (simp_all add: encode_component_def)

lemma component_append: "encode_component (s @ t) = encode_component s @ encode_component t"
  by (simp add: encode_component_def)

lemma urlencoding_append: "urlencoding (s @ t) = urlencoding s @ urlencoding t"
  by (simp add: urlencoding_def)

lemma length_urlencoding_Cons: "length (urlencoding (c # s)) = length (encode_byte c) + length (urlencoding s)"
  by (simp add: urlencoding_def)

lemma length_encode_byte: "1 \<le> length (encode_byte c)" "length (encode_byte c) \<le> 3" "length (encode_byte (CHR ''%'')) = 3"
  by (simp_all add: encode_byte_def Let_def unreserved_def)

lemma encode_twice_length:
  "length (urlencoding s) \<le> length (urlencoding (encode_component s))
   \<and> (\<not> list_all component_plain s \<longrightarrow> length (urlencoding s) < length (urlencoding (encode_component s)))"
proof (induction s)
  case (Cons c s)
  show ?case
  proof (cases "component_plain c")
    case True
    then have "encode_component (c # s) = c # encode_component s" by (simp add: encode_component_def)
    with Cons True show ?thesis by (simp add: length_urlencoding_Cons)
  next
    case False
    let ?a = "hex_upper (of_char c div 16)" and ?b = "hex_upper (of_char c mod 16)"
    have "encode_component (c # s) = CHR ''%'' # ?a # ?b # encode_component s"
      using False by (simp add: encode_component_def Let_def)
    then show ?thesis
      using Cons False length_encode_byte(1) [of ?a] length_encode_byte(1) [of ?b] length_encode_byte(2) [of c] length_encode_byte(3)
      by (simp add: length_urlencoding_Cons)
  qed
qed (simp add: encode_component_def)

lemma split_on_clean: "c \<notin> set a \<Longrightarrow> c \<notin> set b \<Longrightarrow> split_on c (a @ c # b) = [a, b]"
  by (simp add: split_on_append_sep split_on_free)

lemma tags_request:
  "option_default [] (hm_get (query_map (''/api/tags?repo='' @ encode_component r @ ''&page=1'')) ''repo'') = encode_component r"
proof -
  let ?q = "''repo='' @ encode_component r @ ''&page=1''"
  have "CHR ''?'' \<notin> set ?q" using component_free(3) [of r] by auto
  then have "query_string (''/api/tags?repo='' @ encode_component r @ ''&page=1'') = Some ?q"
    using split_on_clean [of "CHR ''?''" "''/api/tags''" ?q] by (simp add: query_string_def)
  moreover have "split_on (CHR ''&'') ?q = [''repo='' @ encode_component r, ''page=1'']"
    using split_on_clean [of "CHR ''&''" "''repo='' @ encode_component r" "''page=1''"] component_free(2) [of r] by simp
  ultimately show ?thesis by (simp add: query_map_def splitn2_def option_default_def)
qed

lemma search_request: "query_param (''/api/search?q='' @ encode_component q) ''q'' = encode_component q"
proof -
  have "CHR ''?'' \<notin> set (''q='' @ encode_component q)" using component_free(3) [of q] by auto
  then have "query_string (''/api/search?q='' @ encode_component q) = Some (''q='' @ encode_component q)"
    using split_on_clean [of "CHR ''?''" "''/api/search''" "''q='' @ encode_component q"] by (simp add: query_string_def)
  moreover have "split_on (CHR ''&'') (''q='' @ encode_component q) = [''q='' @ encode_component q]"
    using component_free(2) [of q] by (intro split_on_free) auto
  ultimately show ?thesis by (simp add: query_param_def splitn2_def option_default_def)
qed

text \<open>
  What the panel's page encodes for the query is passed to Docker Hub as it came. The slash of a repository of an
  organisation is hidden from the test for one, so the tags of a library image with an impossible name are requested; and the
  search text is encoded a second time, so that every text with a character that needs encoding is searched with its percent
  signs encoded. Names of plain characters only are requested rightly.
\<close>

theorem hub_queries_not_decoded:
  fixes org name :: string
  defines "repo_param \<equiv> \<lambda>r. option_default [] (hm_get (query_map (''/api/tags?repo='' @ encode_component r @ ''&page=1'')) ''repo'')"
    and "search_param \<equiv> \<lambda>q. query_param (''/api/search?q='' @ encode_component q) ''q''"
  shows "tags_url (repo_param (org @ ''/'' @ name)) 1
      = ''https://hub.docker.com/v2/repositories/library/'' @ encode_component org @ ''%2F'' @ encode_component name @ ''/tags/?page=1&page_size=20''
    \<and> tags_url (org @ ''/'' @ name) 1
      = ''https://hub.docker.com/v2/repositories/'' @ org @ ''/'' @ name @ ''/tags/?page=1&page_size=20''
    \<and> (list_all component_plain repo \<longrightarrow> tags_url (repo_param repo) 1 = tags_url repo 1)
    \<and> (search_url (search_param q) = search_url q \<longleftrightarrow> list_all component_plain q)"
proof -
  have "encode_component (''/'' :: string) = ''%2F''" by code_simp
  then have enc: "encode_component (org @ ''/'' @ name) = encode_component org @ ''%2F'' @ encode_component name"
    by (simp only: component_append)
  have one: "show_nat 1 = ''1''" by (simp add: show_nat.simps digit_char_def)
  have "urlencoding (encode_component q) = urlencoding q \<longleftrightarrow> list_all component_plain q"
    using encode_twice_length [of q] component_id [of q] by (metis less_irrefl)
  moreover have "repo_param r = encode_component r" for r unfolding repo_param_def by (rule tags_request)
  moreover have "search_param q = encode_component q" unfolding search_param_def by (rule search_request)
  ultimately show ?thesis
    using component_free(1) [of org] component_free(1) [of name] component_id [of repo]
    by (simp add: enc [simplified] tags_url_def search_url_def one [simplified])
qed


section \<open>Sample requests\<close>

definition sample_fs :: panel_fs where
  "sample_fs =
     \<lparr>fs_canonicalize = (\<lambda>p. Some p), fs_exists = (\<lambda>p. p = ''/panel/app.js'' \<or> p = ''/etc/passwd''),
      fs_is_file = (\<lambda>p. True), fs_read = (\<lambda>p. if p = ''/panel/index.html'' then Some ''home'' else if p = ''/panel/app.js'' then Some ''code''
        else if p = ''/etc/passwd'' then Some ''secret'' else None)\<rparr>"

theorem url_encoding_roundtrip_witness: "percent_decode (urlencoding ''a b/c'') = ''a b/c''"
proof -
  have "list_all (\<lambda>c. of_char c < (128 :: nat)) ''a b/c''" by simp
  with url_encoding_roundtrip [of "''a b/c''"] show ?thesis by blast
qed

theorem static_files_confined_witness:
  "rs_body (serve_static sample_fs ''/panel'' ''//%2Fetc/passwd'') = Data ''home''"
proof -
  have "hex_pair (CHR ''2'') (CHR ''F'') = Some 47" by (simp add: hex_pair_def utf8_pair_def hex_val_def)
  moreover have "push_char 47 = ''/''" by (simp add: push_char_def char_of_def bit_0)
  moreover have "percent_decode ''etc/passwd'' = ''etc/passwd''" by (simp add: push_char_def char_of_def bit_0)
  ultimately have "percent_decode ''%2Fetc/passwd'' = ''/etc/passwd''" by (subst percent_decode.simps) (simp del: percent_decode.simps)
  then have "rs_body (serve_static sample_fs ''/panel'' ''//%2Fetc/passwd'') = Data ''home''"
    by (simp add: serve_static_def serve_file_or_fallback_def safe_def sample_fs_def trim_start_char_def path_join_def path_absolute_def
        path_starts_with_def components_def Let_def del: percent_decode.simps)
  then show ?thesis using static_files_confined [of sample_fs "''/panel''" "''//%2Fetc/passwd''"] by simp
qed

theorem basic_auth_exact_witness:
  "check_basic_auth (\<lambda>e. if e = ''eA'' then Some ''bob:pw'' else None) (\<lambda>_. True) [(''authorization'', ''Basic eA'')] ''bob'' ''pw''
   \<and> \<not> check_basic_auth (\<lambda>e. if e = ''eA'' then Some ''bob:pw'' else None) (\<lambda>_. True) [(''authorization'', ''Basic eA'')] ''bob'' ''pW''"
proof -
  have "trim ''eA'' = ''eA''" by code_simp
  with basic_auth_exact [of "\<lambda>e. if e = ''eA'' then Some ''bob:pw'' else None" "''eA''" "''bob''" "''pw''" "\<lambda>_. True" "''bob''" "[]" "''pw''"]
    basic_auth_exact [of "\<lambda>e. if e = ''eA'' then Some ''bob:pw'' else None" "''eA''" "''bob''" "''pw''" "\<lambda>_. True" "''bob''" "[]" "''pW''"]
  show ?thesis by simp
qed

theorem hub_queries_not_decoded_witness:
  "tags_url (option_default [] (hm_get (query_map (''/api/tags?repo='' @ encode_component ''bitnami/redis'' @ ''&page=1'')) ''repo'')) 1
     = ''https://hub.docker.com/v2/repositories/library/bitnami%2Fredis/tags/?page=1&page_size=20''"
proof -
  have "encode_component ''bitnami'' = ''bitnami''" "encode_component ''redis'' = ''redis''" by code_simp+
  with hub_queries_not_decoded [of "''bitnami''" "''redis''" "''redis''" "[]"] show ?thesis by simp
qed

end
