(* ===== verification/Node_Sync.thy ===== *)
theory Node_Sync
  imports Deploy
begin

text \<open>
  The task of \<^verbatim>\<open>crates/kdcts/src/main.rs\<close> that receives the tunnel's node events, one after the
  other, and brings the database, the route table, the pool and the tracker up to date. It
  opens the database anew for every event that touches it, which runs the migration again.
\<close>

record 'l server =
  sv_panel :: "'l panel"
  sv_docker_results :: "(string, string + u16 list) hmap"

definition connected_columns :: "connected_info \<Rightarrow> node_info" where
  "connected_columns i =
     \<lparr>ni_hostname = nc_hostname i, ni_os = nc_os i, ni_arch = nc_arch i,
      ni_docker_version = nc_docker_version i,
      ni_port_range_start = uint (nc_port_range_start i), ni_port_range_end = uint (nc_port_range_end i),
      ni_cpu_cores = uint (nc_cpu_cores i), ni_memory_mb = sint (nc_memory_mb i)\<rparr>"

text \<open>\<^verbatim>\<open>Database::open\<close> on the file: the database and whether opening succeeded.\<close>

definition reopen :: "(nat \<Rightarrow> string) \<Rightarrow> database \<Rightarrow> database \<times> bool" where
  "reopen new_uuid db = (case migrate new_uuid db of (db, Inr _) \<Rightarrow> (db, True) | (db, Inl _) \<Rightarrow> (db, False))"

definition sync_connected :: "(nat \<Rightarrow> string) \<Rightarrow> int \<Rightarrow> string \<Rightarrow> connected_info \<Rightarrow> database \<Rightarrow> database" where
  "sync_connected new_uuid now uuid i db =
     (case reopen new_uuid db of
        (db, False) \<Rightarrow> db
      | (db, True) \<Rightarrow> fst (upsert_node now uuid (nc_service_digest i) (connected_columns i) db))"

fun reset_connections :: "int \<Rightarrow> int list \<Rightarrow> database \<Rightarrow> database" where
  "reset_connections nid [] db = db"
| "reset_connections nid (cid # cids) db =
     reset_connections nid cids (fst (update_connection_node cid (Some nid) ''pending'' None db))"

definition sync_disconnected :: "(nat \<Rightarrow> string) \<Rightarrow> string \<Rightarrow> database \<Rightarrow> database" where
  "sync_disconnected new_uuid uuid db =
     (case reopen new_uuid db of
        (db, False) \<Rightarrow> db
      | (db, True) \<Rightarrow>
          (let db = set_node_offline uuid db in
           case get_node_by_uuid uuid db of
             None \<Rightarrow> db
           | Some node \<Rightarrow> reset_connections (nd_id node) (get_connection_ids_for_node (nd_id node) db) db))"

definition handle_update :: "(nat \<Rightarrow> string) \<Rightarrow> int \<Rightarrow> node_update \<Rightarrow> 'l server \<Rightarrow> 'l server" where
  "handle_update new_uuid now u s =
     (case nu_event u of
        Connected i \<Rightarrow>
          s\<lparr>sv_panel := (sv_panel s)\<lparr>pn_db := sync_connected new_uuid now (nu_uuid u) i (pn_db (sv_panel s))\<rparr>\<rparr>
      | Disconnected _ \<Rightarrow>
          (case remove_by_node (nu_uuid u) (pn_tracker (sv_panel s)) (pn_routes (sv_panel s)) (pn_pool (sv_panel s)) of
             (tr, rt, pl) \<Rightarrow>
               s\<lparr>sv_panel := (sv_panel s)\<lparr>pn_db := sync_disconnected new_uuid (nu_uuid u) (pn_db (sv_panel s)),
                    pn_tracker := tr, pn_routes := rt, pn_pool := pl\<rparr>\<rparr>)
      | EvContainerStarted name ports \<Rightarrow>
          s\<lparr>sv_docker_results := hm_insert name (Inr ports) (sv_docker_results s)\<rparr>
      | EvContainerStopped name \<Rightarrow>
          s\<lparr>sv_docker_results := hm_insert name (Inr []) (sv_docker_results s)\<rparr>
      | EvContainerError name error \<Rightarrow>
          s\<lparr>sv_docker_results := hm_insert name (Inl error) (sv_docker_results s)\<rparr>)"

text \<open>The receive loop on the events received so far, each with the time it is handled.\<close>

definition run_updates :: "(nat \<Rightarrow> string) \<Rightarrow> (int \<times> node_update) list \<Rightarrow> 'l server \<Rightarrow> 'l server" where
  "run_updates new_uuid us s = fold (\<lambda>(now, u). handle_update new_uuid now u) us s"

lemmas [kdct_simps] = connected_columns_def reopen_def sync_connected_def sync_disconnected_def
  handle_update_def run_updates_def

section \<open>Invariant\<close>

text \<open>A database that the program created or migrated itself; opening it again changes nothing.\<close>

definition live_db :: "database \<Rightarrow> bool" where
  "live_db db \<longleftrightarrow> db_wf db \<and> all_named db \<and> client_nodes_schema db = Some UuidUnique"

lemma migrate_live:
  assumes "all_named db" and "client_nodes_schema db = Some UuidUnique"
  shows "migrate new_uuid db = (db, Inr ())"
proof -
  have "legacy_ids db = []" using assms(1) by (auto simp: legacy_ids_def all_named_def filter_empty_conv)
  moreover have none: "filter (\<lambda>n. nd_node_uuid n = None) (client_nodes db) = []"
    "filter (\<lambda>n. nd_node_uuid n \<noteq> None) (client_nodes db) = client_nodes db"
    using assms(1) by (auto simp: all_named_def filter_empty_conv filter_id_conv)
  moreover have "drop_anonymous_nodes db = db"
    unfolding drop_anonymous_nodes_def Let_def none by simp
  ultimately show ?thesis using assms(2) by (simp add: migrate_def Let_def)
qed

lemma reopen_live: "live_db db \<Longrightarrow> reopen new_uuid db = (db, True)"
  by (simp add: reopen_def live_db_def migrate_live)

lemma live_db_upsert: "live_db db \<Longrightarrow> live_db (fst (upsert_node now uuid dig info db))"
  using db_step_named [OF db_step.intros(12)] by (auto simp: live_db_def intro: inv_intros)

lemma live_db_offline: "live_db db \<Longrightarrow> live_db (set_node_offline uuid db)"
  using db_step_named [OF db_step.intros(13)] db_wf_set_node_offline
  by (auto simp: live_db_def) (simp add: set_node_offline_def)

lemma update_connection_node_nodes [simp]:
  "client_nodes (fst (update_connection_node cid n st ctr db)) = client_nodes db"
  "client_nodes_schema (fst (update_connection_node cid n st ctr db)) = client_nodes_schema db"
  by (simp_all add: update_connection_node_def)

lemma live_db_update_connection_node:
  "live_db db \<Longrightarrow> live_db (fst (update_connection_node cid n st ctr db))"
  by (auto simp: live_db_def all_named_def intro: inv_intros)

lemma reset_connections_nodes [simp]: "client_nodes (reset_connections nid cids db) = client_nodes db"
  by (induction cids arbitrary: db) simp_all

lemma live_db_reset: "live_db db \<Longrightarrow> live_db (reset_connections nid cids db)"
  by (induction cids arbitrary: db) (simp_all add: live_db_update_connection_node)

lemma sync_connected_live:
  "live_db db \<Longrightarrow> sync_connected new_uuid now uuid i db =
     node_connected uuid (now, nc_service_digest i, connected_columns i) db"
  by (simp add: sync_connected_def reopen_live node_connected_def)

lemma sync_disconnected_live:
  assumes "live_db db"
  shows "live_db (sync_disconnected new_uuid uuid db)"
    and "client_nodes (sync_disconnected new_uuid uuid db) = client_nodes (set_node_offline uuid db)"
  using assms live_db_reset live_db_offline
  by (auto simp: sync_disconnected_def reopen_live Let_def split: option.splits)

definition sync_inv :: "'l server \<Rightarrow> bool" where
  "sync_inv s \<longleftrightarrow> live_db (pn_db (sv_panel s)) \<and> panel_inv (sv_panel s)"

definition sync_node :: "string \<Rightarrow> 'l server \<Rightarrow> client_node option" where
  "sync_node u s = get_node_by_uuid u (pn_db (sv_panel s))"

definition sync_up :: "(nat \<Rightarrow> string) \<Rightarrow> string \<Rightarrow> int \<times> connected_info \<Rightarrow> 'l server \<Rightarrow> 'l server" where
  "sync_up f u x s = handle_update f (fst x) \<lparr>nu_uuid = u, nu_event = Connected (snd x)\<rparr> s"

definition sync_down :: "(nat \<Rightarrow> string) \<Rightarrow> string \<Rightarrow> 'l server \<Rightarrow> 'l server" where
  "sync_down f u s = handle_update f 0 \<lparr>nu_uuid = u, nu_event = Disconnected []\<rparr> s"

definition sync_result :: "string \<times> (string + u16 list) \<Rightarrow> 'l server \<Rightarrow> 'l server" where
  "sync_result x s = s\<lparr>sv_docker_results := hm_insert (fst x) (snd x) (sv_docker_results s)\<rparr>"

lemma sync_inv_up:
  assumes "sync_inv s"
  shows "sync_inv (sync_up f u x s)"
proof -
  have l: "live_db (pn_db (sv_panel s))" using assms by (simp add: sync_inv_def)
  have "live_db (sync_connected f (fst x) u (snd x) (pn_db (sv_panel s)))"
    unfolding sync_connected_live [OF l] node_connected_def using l by (simp add: live_db_upsert)
  then show ?thesis using assms
    by (simp add: sync_inv_def sync_up_def handle_update_def panel_inv_def live_db_def)
qed

lemma node_keys_removed:
  assumes "hm_wf tr" "rt_inv rt" "pool_inv pl" "remove_by_node u tr rt pl = (tr', rt', pl')"
  shows "hm_wf tr'" "rt_inv rt'" "pool_inv pl'"
proof -
  note eq = remove_keys_fold [OF distinct_node_keys [OF assms(1), of u], of tr rt pl]
  have "hm_wf (fold hm_remove ks tr)" for ks
    using assms(1) by (induction ks arbitrary: tr) (simp_all add: distinct_delete)
  from this [of "node_keys u tr"] show "hm_wf tr'" using assms(4) eq by (simp add: remove_by_node_def)
  show "rt_inv rt'" "pool_inv pl'"
    using assms(4) eq wd.withdrawn(1,2) [OF assms(2,3), of "ports_of (node_keys u tr) tr"]
    by (simp_all add: remove_by_node_def)
qed

lemma sync_down_eq:
  "sync_down f u s = (case remove_by_node u (pn_tracker (sv_panel s)) (pn_routes (sv_panel s)) (pn_pool (sv_panel s)) of
     (tr, rt, pl) \<Rightarrow> s\<lparr>sv_panel := (sv_panel s)\<lparr>pn_db := sync_disconnected f u (pn_db (sv_panel s)),
        pn_tracker := tr, pn_routes := rt, pn_pool := pl\<rparr>\<rparr>)"
  by (simp add: sync_down_def handle_update_def)

lemma sync_inv_down:
  assumes "sync_inv s"
  shows "sync_inv (sync_down f u s)"
proof -
  obtain tr rt pl where r: "remove_by_node u (pn_tracker (sv_panel s)) (pn_routes (sv_panel s)) (pn_pool (sv_panel s)) = (tr, rt, pl)"
    by (metis prod_cases3)
  have "hm_wf (pn_tracker (sv_panel s))" "rt_inv (pn_routes (sv_panel s))" "pool_inv (pn_pool (sv_panel s))"
    using assms by (simp_all add: sync_inv_def panel_inv_def)
  note inv = node_keys_removed [OF this r]
  from assms sync_disconnected_live(1) [of "pn_db (sv_panel s)" f u] inv show ?thesis
    by (simp add: sync_down_eq r sync_inv_def panel_inv_def live_db_def)
qed

lemma sync_node_down:
  assumes "sync_inv s"
  shows "sync_node v (sync_down f u s) = get_node_by_uuid v (set_node_offline u (pn_db (sv_panel s)))"
  using assms sync_disconnected_live(2) [of "pn_db (sv_panel s)" f u]
  by (simp add: sync_node_def sync_down_eq sync_inv_def get_node_by_uuid_def split: prod.splits)

lemma sync_node_up:
  assumes "sync_inv s"
  shows "sync_node v (sync_up f u x s) = get_node_by_uuid v
    (node_connected u (fst x, nc_service_digest (snd x), connected_columns (snd x)) (pn_db (sv_panel s)))"
  using assms sync_connected_live [of "pn_db (sv_panel s)" f "fst x" u "snd x"]
  by (simp add: sync_node_def sync_up_def handle_update_def sync_inv_def)

interpretation sync: node_store sync_inv sync_node node_online "sync_up f" "sync_down f" sync_result for f
proof unfold_locales
  fix s :: "'l server" and u v :: string and x :: "int \<times> connected_info" and n :: client_node
    and r :: "string \<times> (string + u16 list)"
  assume inv: "sync_inv s"
  then have st: "store_inv (pn_db (sv_panel s))" by (simp add: sync_inv_def live_db_def store_inv_def)
  show "sync_inv (sync_up f u x s)" "sync_inv (sync_down f u s)" using inv by (rule sync_inv_up sync_inv_down)+
  show "sync_inv (sync_result r s)" using inv by (simp add: sync_inv_def sync_result_def)
  show "sync_node v (sync_result r s) = sync_node v s" by (simp add: sync_node_def sync_result_def)
  show "\<exists>n. sync_node u (sync_up f u x s) = Some n \<and> node_online n"
    unfolding sync_node_up [OF inv] by (rule nodes.connect_same [OF st])
  show "sync_node v (sync_up f u x s) = sync_node v s" if "v \<noteq> u"
    unfolding sync_node_up [OF inv] nodes.connect_other [OF st that] by (simp only: sync_node_def)
  show "\<not> node_online n" if "sync_node u (sync_down f u s) = Some n"
    using that unfolding sync_node_down [OF inv] by (rule nodes.disconnect_same [OF st])
  show "(sync_node u (sync_down f u s) = None) = (sync_node u s = None)"
    unfolding sync_node_down [OF inv] nodes.disconnect_found [OF st] by (simp only: sync_node_def)
  show "sync_node v (sync_down f u s) = sync_node v s" if "v \<noteq> u"
    unfolding sync_node_down [OF inv] nodes.disconnect_other [OF st that] by (simp only: sync_node_def)
qed

fun happening_of :: "int \<times> node_update \<Rightarrow> (int \<times> connected_info, string \<times> (string + u16 list)) node_happening" where
  "happening_of (now, u) =
     (case nu_event u of
        Connected i \<Rightarrow> Up (nu_uuid u) (now, i)
      | Disconnected _ \<Rightarrow> Down (nu_uuid u)
      | EvContainerStarted name ports \<Rightarrow> Other (name, Inr ports)
      | EvContainerStopped name \<Rightarrow> Other (name, Inr [])
      | EvContainerError name error \<Rightarrow> Other (name, Inl error))"

lemma handle_update_happen: "handle_update f now u s = sync.happen f (happening_of (now, u)) s"
  by (cases "nu_event u") (simp_all add: handle_update_def sync_up_def sync_down_def sync_result_def)

lemma run_updates_happen: "run_updates f us s = fold (sync.happen f) (map happening_of us) s"
  unfolding run_updates_def
  by (induction us arbitrary: s) (auto simp: handle_update_happen simp del: happening_of.simps)

text \<open>Whether an update reports a node's connecting or disconnecting.\<close>

fun presence :: "node_event \<Rightarrow> bool" where
  "presence (Connected _) = True"
| "presence (Disconnected _) = True"
| "presence _ = False"

lemma happening_of_presence:
  "happening_of (now, u) = Up v x \<Longrightarrow> nu_uuid u = v \<and> presence (nu_event u)"
  "happening_of (now, u) = Down v \<Longrightarrow> nu_uuid u = v \<and> presence (nu_event u)"
  by (cases "nu_event u"; simp)+


definition sample_server :: "unit server" where
  "sample_server = \<lparr>sv_panel = sample_panel, sv_docker_results = []\<rparr>"

definition sample_connected :: connected_info where
  "sample_connected = \<lparr>nc_service_digest = ''ab'', nc_hostname = ''h2'', nc_os = ''linux'', nc_arch = ''arm64'',
     nc_docker_version = ''25'', nc_port_range_start = 4000, nc_port_range_end = 4100, nc_cpu_cores = 2,
     nc_memory_mb = 512, nc_running_containers = []\<rparr>"

lemma sample_server_inv: "sync_inv sample_server"
  using install_db_wf sample_panel_inv
  by (simp add: sync_inv_def sample_server_def live_db_def all_named_def sample_defs)


lemma update_connection_node_eq:
  assumes "refs_ok None None n db"
  shows "fst (update_connection_node cid n st ctr db) = db\<lparr>connections :=
    map (\<lambda>c. if cn_id c = cid then c\<lparr>cn_node_id := n, cn_status := st, cn_container_name := ctr\<rparr> else c) (connections db)\<rparr>"
  using assms by (simp add: update_connection_node_def)

definition reset_row :: "int \<Rightarrow> connection_row \<Rightarrow> connection_row" where
  "reset_row nid c = c\<lparr>cn_node_id := Some nid, cn_status := ''pending'', cn_container_name := None\<rparr>"

lemma reset_row_simps [simp]:
  "cn_id (reset_row nid c) = cn_id c" "reset_row nid (reset_row nid c) = reset_row nid c"
  by (simp_all add: reset_row_def)

lemma reset_connections_eq:
  "refs_ok None None (Some nid) db \<Longrightarrow>
   connections (reset_connections nid cids db) =
     map (\<lambda>c. if cn_id c \<in> set cids then reset_row nid c else c) (connections db)"
proof (induction cids arbitrary: db)
  case (Cons cid cids)
  let ?db = "db\<lparr>connections := map (\<lambda>c. if cn_id c = cid then reset_row nid c else c) (connections db)\<rparr>"
  have "connections (reset_connections nid (cid # cids) db) = connections (reset_connections nid cids ?db)"
    using update_connection_node_eq [OF Cons.prems, of cid "''pending''" None] by (simp add: reset_row_def cong: if_cong)
  also have "\<dots> = map (\<lambda>c. if cn_id c \<in> set cids then reset_row nid c else c) (connections ?db)"
    using Cons.prems by (intro Cons.IH) simp
  finally show ?case by (auto simp: comp_def)
qed simp

lemma reset_ids:
  assumes "distinct (map cn_id (connections db))" and "c \<in> set (connections db)"
  shows "cn_id c \<in> set (get_connection_ids_for_node nid db) \<longleftrightarrow> cn_node_id c = Some nid \<and> cn_status c = ''deployed''"
proof -
  have "d = c" if "d \<in> set (connections db)" "cn_id d = cn_id c" for d
    using that assms by (auto simp: distinct_map dest: inj_onD)
  then show ?thesis using assms(2) by (force simp: get_connection_ids_for_node_def)
qed

lemma sync_disconnected_connections:
  assumes "live_db db" and "get_node_by_uuid u db = Some n"
  shows "connections (sync_disconnected f u db) =
    map (\<lambda>c. if cn_node_id c = Some (nd_id n) \<and> cn_status c = ''deployed'' then reset_row (nd_id n) c else c) (connections db)"
proof -
  let ?db = "set_node_offline u db"
  have n: "get_node_by_uuid u ?db = Some (n\<lparr>nd_status := ''offline''\<rparr>)"
    using assms(2) by (simp add: get_node_by_uuid_offline)
  have "n \<in> set (client_nodes db)" using assms(2) by (auto simp: get_node_by_uuid_def dest: find_Some_set)
  then have refs: "refs_ok None None (Some (nd_id n)) ?db"
  proof -
    have "nd_id ` set (client_nodes ?db) = nd_id ` set (client_nodes db)"
      using image_map_key [of nd_id "\<lambda>n. if nd_node_uuid n = Some u then n\<lparr>nd_status := ''offline''\<rparr> else n" "client_nodes db"]
      by (simp add: set_node_offline_def)
    with \<open>n \<in> set (client_nodes db)\<close> show ?thesis by (simp add: refs_ok_def)
  qed
  have conns: "connections ?db = connections db" by (simp add: set_node_offline_def)
  have "distinct (map cn_id (connections ?db))"
    using assms(1) by (simp add: conns live_db_def db_wf_defs rows_wf_def)
  note ids = reset_ids [OF this, of _ "nd_id n"]
  have "connections (sync_disconnected f u db) =
      map (\<lambda>c. if cn_id c \<in> set (get_connection_ids_for_node (nd_id n) ?db) then reset_row (nd_id n) c else c) (connections ?db)"
    using n reset_connections_eq [OF refs] by (simp add: sync_disconnected_def reopen_live [OF assms(1)] Let_def)
  then show ?thesis using ids by (simp add: conns)
qed

text \<open>
  A disconnect leaves nothing running on the node: afterwards no connection of the node is stored as
  deployed (those that were are pending, without container, still assigned to the node), every
  other connection is as it was, the tracker has no deployment on the node, and no path resolves to
  a port of one.
\<close>

theorem disconnect_resets_node:
  assumes "sync_inv s" and "get_node_by_uuid u (pn_db (sv_panel s)) = Some n"
    and "s' = handle_update f now \<lparr>nu_uuid = u, nu_event = Disconnected h\<rparr> s"
  shows "connections (pn_db (sv_panel s')) =
      map (\<lambda>c. if cn_node_id c = Some (nd_id n) \<and> cn_status c = ''deployed''
               then c\<lparr>cn_status := ''pending'', cn_container_name := None\<rparr> else c) (connections (pn_db (sv_panel s))) \<and>
    (\<forall>k d. hm_get (pn_tracker (sv_panel s')) k = Some d \<longrightarrow> ad_node_uuid d \<noteq> u) \<and>
    (\<forall>path port. rt_resolve (pn_routes (sv_panel s')) path = Some port \<longrightarrow>
       port \<notin> node_ports u (pn_tracker (sv_panel s)))"
proof -
  have live: "live_db (pn_db (sv_panel s))" using assms(1) by (simp add: sync_inv_def)
  obtain tr rt pl where r: "remove_by_node u (pn_tracker (sv_panel s)) (pn_routes (sv_panel s)) (pn_pool (sv_panel s)) = (tr, rt, pl)"
    by (metis prod_cases3)
  have s': "pn_db (sv_panel s') = sync_disconnected f u (pn_db (sv_panel s))"
      "pn_tracker (sv_panel s') = tr" "pn_routes (sv_panel s') = rt"
    using assms(3) by (simp_all add: handle_update_def r)
  have inv: "hm_wf (pn_tracker (sv_panel s))" "rt_inv (pn_routes (sv_panel s))" "pool_inv (pn_pool (sv_panel s))"
    using assms(1) by (simp_all add: sync_inv_def panel_inv_def)
  have "(if cn_node_id c = Some (nd_id n) \<and> cn_status c = ''deployed'' then reset_row (nd_id n) c else c) =
    (if cn_node_id c = Some (nd_id n) \<and> cn_status c = ''deployed''
     then c\<lparr>cn_status := ''pending'', cn_container_name := None\<rparr> else c)" for c
    by (cases c) (simp add: reset_row_def)
  then show ?thesis
    using node_withdrawn [OF inv r] unfolding s' sync_disconnected_connections [OF live assms(2)] by simp
qed

theorem disconnect_resets_node_witness:
  "\<exists>s'. s' = handle_update (\<lambda>_. ''x'') 9 \<lparr>nu_uuid = ''u1'', nu_event = Disconnected ''h''\<rparr> sample_server \<and>
     map cn_status (connections (pn_db (sv_panel s'))) = [''pending'']"
proof -
  have n: "get_node_by_uuid ''u1'' (pn_db (sv_panel sample_server)) = Some online_node"
    by (simp add: get_node_by_uuid_def sample_server_def sample_defs)
  show ?thesis
    using disconnect_resets_node [OF sample_server_inv n refl, of "\<lambda>_. ''x''" 9 "''h''"]
    by (simp add: sample_server_def sample_panel_def install_db_def sample_connection_def)
qed

end
