(* ===== verification/Panel_Api.thy ===== *)
theory Panel_Api
  imports Panel_Http Node_Sync Client_Host
begin

text \<open>
  The panel's API, \<^verbatim>\<open>crates/kdcts/src/api.rs\<close>, and the loading of images, \<^verbatim>\<open>crates/kdcts/src/image.rs\<close>: every request handler
  on the shared state of the panel. The API serves one request at a time; a panic ends its
  thread, which is the result \<^const>\<open>None\<close>. Tasks a handler spawns are queued and run later, one at a time; while a deployment waits for its
  node nothing else is taken to happen to the panel.
\<close>

section \<open>State\<close>

record api_settings =
  as_live_tls_enabled :: bool
  as_tls_configurable :: bool
  as_domain_configured :: bool
  as_http_port :: u16
  as_https_port :: u16
  as_api_port :: u16
  as_admin_user :: "string option"
  as_admin_password :: "string option"

record load_job =
  lj_logs :: "string list"
  lj_status :: string
  lj_result :: string

datatype spawned = AutoDeploy int | LoadImage string string "string option"

record 'l api =
  ap_panel :: "'l panel"
  ap_jobs :: "(string, load_job) hmap"
  ap_spawned :: "spawned list"
  ap_restarts :: nat

text \<open>
  What a request depends on beside the state: the settings, the reading of JSON, the text of a database error, files, base64, Docker
  Hub, the time, a job id drawn from it, and how the wait for the node of a deployment ends.
\<close>

record api_env =
  ae_settings :: api_settings
  ae_from_str :: "string \<Rightarrow> string + json"
  ae_db_text :: "db_error \<Rightarrow> string"
  ae_fs :: panel_fs
  ae_panel_dir :: string
  ae_b64_decode :: "string \<Rightarrow> string option"
  ae_utf8_ok :: "string \<Rightarrow> bool"
  ae_hub :: hub
  ae_now :: int
  ae_job_id :: string
  ae_answer :: "int \<Rightarrow> answer"

abbreviation api_db :: "'l api \<Rightarrow> database" where
  "api_db s \<equiv> pn_db (ap_panel s)"

definition set_db :: "database \<Rightarrow> 'l api \<Rightarrow> 'l api" where
  "set_db db s = s\<lparr>ap_panel := (ap_panel s)\<lparr>pn_db := db\<rparr>\<rparr>"

definition set_pool :: "'l port_pool \<Rightarrow> 'l api \<Rightarrow> 'l api" where
  "set_pool pl s = s\<lparr>ap_panel := (ap_panel s)\<lparr>pn_pool := pl\<rparr>\<rparr>"

definition spawn :: "spawned \<Rightarrow> 'l api \<Rightarrow> 'l api" where
  "spawn t s = s\<lparr>ap_spawned := ap_spawned s @ [t]\<rparr>"

definition delayed_restart :: "'l api \<Rightarrow> 'l api" where
  "delayed_restart s = s\<lparr>ap_restarts := Suc (ap_restarts s)\<rparr>"

section \<open>Deployments started from here\<close>

definition deploy_connection :: "answer \<Rightarrow> int \<Rightarrow> 'l panel \<Rightarrow> ('l, unit) panel_result" where
  "deploy_connection ans connection_id p =
     (case deploy_begin connection_id p of
        (p, Inl e) \<Rightarrow> (p, Inl e)
      | (p, Inr t) \<Rightarrow> deploy_finish t ans p)"

definition stop_connection :: "int \<Rightarrow> 'l panel \<Rightarrow> ('l, unit) panel_result" where
  "stop_connection connection_id p =
     (case stop_begin connection_id p of
        (p, Inl e) \<Rightarrow> (p, Inl e)
      | (p, Inr t) \<Rightarrow> stop_finish t p)"

definition try_auto_deploy :: "(int \<Rightarrow> answer) \<Rightarrow> int \<Rightarrow> 'l panel \<Rightarrow> 'l panel" where
  "try_auto_deploy ans connection_id p =
     (case get_connection connection_id (pn_db p) of
        None \<Rightarrow> p
      | Some conn \<Rightarrow>
          if cn_bridge_id (cv_row conn) = None \<or> cn_image_id (cv_row conn) = None \<or> cn_node_id (cv_row conn) = None then p
          else if cn_status (cv_row conn) \<noteq> ''pending'' then p
          else if cv_node_status conn \<noteq> Some ''online'' then p
          else fst (deploy_connection (ans connection_id) connection_id p))"

definition auto_check :: "(int \<Rightarrow> answer) \<Rightarrow> 'l panel \<Rightarrow> 'l panel" where
  "auto_check ans p =
     fold (\<lambda>cid p. if cid > 0 then try_auto_deploy ans cid p else p) (get_connectable_connections (pn_db p)) p"

definition stop_connection_safe :: "int \<Rightarrow> 'l panel \<Rightarrow> 'l panel" where
  "stop_connection_safe connection_id p = fst (stop_connection connection_id p)"

text \<open>Both handlers that take a connection away from its node stop it first when it is deployed.\<close>

definition stop_if_deployed :: "int \<Rightarrow> 'l api \<Rightarrow> 'l api" where
  "stop_if_deployed cid s =
     (case get_connection cid (api_db s) of
        Some conn \<Rightarrow>
          if cn_status (cv_row conn) = ''deployed''
          then s\<lparr>ap_panel := stop_connection_safe cid (ap_panel s)\<rparr> else s
      | None \<Rightarrow> s)"

section \<open>JSON of the rows\<close>

definition jopt :: "('a \<Rightarrow> json) \<Rightarrow> 'a option \<Rightarrow> json" where
  "jopt f x = (case x of None \<Rightarrow> JNull | Some y \<Rightarrow> f y)"

definition ok_json :: json where
  "ok_json = JObj [(''ok'', JBool True)]"

definition node_json :: "client_node \<Rightarrow> json" where
  "node_json n = JObj
     [(''id'', JInt (nd_id n)), (''hostname'', JStr (nd_hostname n)), (''os'', JStr (nd_os n)), (''arch'', JStr (nd_arch n)),
      (''docker_version'', JStr (nd_docker_version n)),
      (''port_range_start'', JInt (nd_port_range_start n)), (''port_range_end'', JInt (nd_port_range_end n)),
      (''cpu_cores'', JInt (nd_cpu_cores n)), (''memory_mb'', JInt (nd_memory_mb n)),
      (''status'', JStr (nd_status n)), (''last_seen'', JInt (nd_last_seen n)), (''node_uuid'', JStr (node_uuid_of n))]"

definition image_json :: "image_node \<Rightarrow> json" where
  "image_json i = JObj
     [(''id'', JInt (img_id i)), (''name'', JStr (img_name i)), (''source'', JStr (img_source i)),
      (''source_type'', JStr (img_source_type i)), (''status'', JStr (img_status i)), (''created_at'', JInt (img_created_at i))]"

definition bridge_json :: "bridge_row \<Rightarrow> json" where
  "bridge_json b = JObj
     [(''id'', JInt (br_id b)), (''name'', JStr (br_name b)), (''status'', JStr (br_status b)), (''created_at'', JInt (br_created_at b))]"

definition port_json :: "bridge_port \<Rightarrow> json" where
  "port_json p = JObj
     [(''id'', JInt (bp_id p)), (''container_port'', JInt (bp_container_port p)), (''mode'', JStr (bp_mode p)),
      (''route_path'', jopt JStr (bp_route_path p)), (''protocols'', jopt JStr (bp_protocols p)),
      (''pool_port'', jopt JInt (bp_pool_port p))]"

definition connection_json :: "connection_view \<Rightarrow> json" where
  "connection_json v = (let c = cv_row v in JObj
     [(''id'', JInt (cn_id c)), (''name'', JStr (cn_name c)), (''bridge_id'', jopt JInt (cn_bridge_id c)),
      (''image_id'', jopt JInt (cn_image_id c)), (''node_id'', jopt JInt (cn_node_id c)), (''status'', JStr (cn_status c)),
      (''container_name'', jopt JStr (cn_container_name c)), (''created_at'', JInt (cn_created_at c)),
      (''bridge_name'', jopt JStr (cv_bridge_name v)), (''image_name'', jopt JStr (cv_image_name v)),
      (''node_hostname'', jopt JStr (cv_node_hostname v))])"

section \<open>Requests that read\<close>

text \<open>\<^verbatim>\<open>rest.split_once('/')\<close>: the part of the path up to the next slash.\<close>

definition path_id :: "string \<Rightarrow> int option" where
  "path_id rest = parse_i64 (case split_once (CHR ''/'') rest of Some (i, _) \<Rightarrow> i | None \<Rightarrow> rest)"

definition bridges_prefix :: string where
  "bridges_prefix = ''/api/bridges/''"

definition connections_prefix :: string where
  "connections_prefix = ''/api/connections/''"

definition get_bridge :: "string \<Rightarrow> 'l api \<Rightarrow> response" where
  "get_bridge p s =
     (case path_id (drop (length bridges_prefix) p) of
        None \<Rightarrow> error_json ''Invalid bridge id'' 400
      | Some bridge_id \<Rightarrow>
          (case get_bridge_by_id bridge_id (api_db s) of
             Some b \<Rightarrow>
               respond_json (JObj
                 [(''bridge'', bridge_json b),
                  (''ports'', JArr (map port_json (get_bridge_ports bridge_id (api_db s)))),
                  (''envs'', JArr (map (\<lambda>(k, v). JObj [(''key'', JStr k), (''value'', JStr v)]) (get_bridge_envs bridge_id (api_db s))))])
           | None \<Rightarrow> error_json ''Bridge not found'' 404))"

definition get_overview :: "'l api \<Rightarrow> response" where
  "get_overview s =
     (let db = api_db s; p = ap_panel s in
      respond_json (JObj
        [(''node_count'', JInt (int (length (list_nodes db)))),
         (''online_count'', JInt (int (length (filter (\<lambda>n. nd_status n = ''online'') (list_nodes db))))),
         (''image_count'', JInt (int (length (list_images db)))),
         (''bridge_count'', JInt (int (length (list_bridges db)))),
         (''connection_count'', JInt (int (length (list_connections db)))),
         (''deployed_count'', JInt (int (length (filter (\<lambda>v. cn_status (cv_row v) = ''deployed'') (list_connections db))))),
         (''container_count'', JInt (int (sum_list (map (\<lambda>(u, e). length (ce_running_containers e)) (pn_registry p))))),
         (''pool_total'', JInt (uint (total_ports (pn_pool p)))),
         (''pool_free'', JInt (int (free_count (pn_pool p))))]))"

definition setting_true :: "string \<Rightarrow> database \<Rightarrow> bool" where
  "setting_true key db \<longleftrightarrow> get_setting key db = Some ''true''"

definition get_settings :: "api_settings \<Rightarrow> 'l api \<Rightarrow> response" where
  "get_settings st s =
     (let db = api_db s in
      respond_json (JObj
        [(''tls_enabled'', JBool (setting_true ''tls_enabled'' db)),
         (''live_tls_enabled'', JBool (as_live_tls_enabled st)),
         (''tls_configurable'', JBool (as_tls_configurable st)),
         (''domain_configured'', JBool (as_domain_configured st)),
         (''restart_required'', JBool (setting_true ''tls_enabled'' db \<noteq> as_live_tls_enabled st)),
         (''http_port'', JInt (uint (as_http_port st))), (''https_port'', JInt (uint (as_https_port st))),
         (''api_port'', JInt (uint (as_api_port st))),
         (''acme_enabled'', JBool (setting_true ''acme_enabled'' db)),
         (''acme_email'', jopt JStr (get_setting ''acme_email'' db)),
         (''acme_staging'', JBool (setting_true ''acme_staging'' db)),
         (''acme_state_dir'', jopt JStr (get_setting ''acme_state_dir'' db))]))"

definition get_search :: "hub \<Rightarrow> string \<Rightarrow> response" where
  "get_search hb url =
     (let query = query_param url ''q'' in
      if query = [] then respond_json (JArr [])
      else case search_docker_hub hb query of
             Inr results \<Rightarrow> respond_json (JArr results)
           | Inl e \<Rightarrow> error_json e 500)"

definition get_tags :: "hub \<Rightarrow> string \<Rightarrow> response" where
  "get_tags hb url =
     (let params = query_map url;
          repo = option_default [] (hm_get params ''repo'');
          page = option_default 1 (Option.bind (hm_get params ''page'') (parse_unsigned (2 ^ 32))) in
      if repo = [] then respond_json (JObj [(''tags'', JArr []), (''next'', JNull)])
      else case fetch_tags hb repo page of
             Inr result \<Rightarrow> respond_json result
           | Inl e \<Rightarrow> error_json e 500)"

definition get_progress :: "string \<Rightarrow> 'l api \<Rightarrow> response" where
  "get_progress url s =
     (case hm_get (ap_jobs s) (query_param url ''job'') of
        Some job \<Rightarrow> respond_json (JObj
          [(''status'', JStr (lj_status job)), (''logs'', JArr (map JStr (lj_logs job))), (''result'', JStr (lj_result job))])
      | None \<Rightarrow> error_json ''Job not found'' 404)"

definition fallback :: "api_env \<Rightarrow> string \<Rightarrow> string \<Rightarrow> response" where
  "fallback env raw_path p =
     (if was_admin raw_path then serve_static (ae_fs env) (ae_panel_dir env) p else error_json ''Not Found'' 404)"

definition handle_get :: "api_env \<Rightarrow> string \<Rightarrow> 'l api \<Rightarrow> response" where
  "handle_get env url s =
     (let raw = path_no_query url; p = api_path raw in
      if p = ''/api/nodes'' then respond_json (JArr (map node_json (list_nodes (api_db s))))
      else if p = ''/api/images'' then respond_json (JArr (map image_json (list_images (api_db s))))
      else if p = ''/api/bridges'' then respond_json (JArr (map bridge_json (list_bridges (api_db s))))
      else if prefix bridges_prefix p \<and> \<not> contains_str ''/port'' p \<and> \<not> contains_str ''/env'' p then get_bridge p s
      else if p = ''/api/connections'' then respond_json (JArr (map connection_json (list_connections (api_db s))))
      else if p = ''/api/overview'' then get_overview s
      else if p = ''/api/ping'' then respond_json ok_json
      else if p = ''/api/settings'' then get_settings (ae_settings env) s
      else if prefix ''/api/search'' p then get_search (ae_hub env) url
      else if prefix ''/api/tags'' p then get_tags (ae_hub env) url
      else if prefix ''/api/image/load/progress'' p then get_progress url s
      else fallback env raw p)"

section \<open>Requests that write\<close>

definition quoted :: "string \<Rightarrow> string" where
  "quoted s = [CHR 0x27] @ s @ [CHR 0x27]"

definition with_json ::
  "api_env \<Rightarrow> request \<Rightarrow> (json \<Rightarrow> 'l api \<Rightarrow> 'l api \<times> response) \<Rightarrow> 'l api \<Rightarrow> 'l api \<times> response" where
  "with_json env req k s =
     (case rq_body req of
        None \<Rightarrow> (s, error_json ''Failed to read body'' 400)
      | Some body \<Rightarrow>
          (case ae_from_str env body of
             Inl e \<Rightarrow> (s, error_json (''Invalid JSON: '' @ e) 400)
           | Inr parsed \<Rightarrow> k parsed s))"

definition db_failure :: "api_env \<Rightarrow> db_error \<Rightarrow> response" where
  "db_failure env e = error_json (ae_db_text env e) 500"

definition post_bridge :: "api_env \<Rightarrow> json \<Rightarrow> 'l api \<Rightarrow> 'l api \<times> response" where
  "post_bridge env parsed s =
     (let bridge_name = option_default [] (as_str (json_at parsed ''name'')) in
      if bridge_name = [] then (s, error_json (''Missing '' @ quoted ''name'') 400)
      else case insert_bridge (ae_now env) bridge_name (api_db s) of
             (db, Inr i) \<Rightarrow> (set_db db s, respond_json (JObj [(''id'', JInt i), (''name'', JStr bridge_name)]))
           | (db, Inl e) \<Rightarrow> (set_db db s, db_failure env e))"

definition protocols_of :: "json \<Rightarrow> string option" where
  "protocols_of parsed =
     map_option (\<lambda>vs. join_with '','' (List.map_filter as_str vs)) (as_array (json_at parsed ''protocols''))"

definition post_port :: "api_env \<Rightarrow> int \<Rightarrow> json \<Rightarrow> 'l api \<Rightarrow> 'l api \<times> response" where
  "post_port env bridge_id parsed s =
     (let container_port = option_default 0 (as_i64 (json_at parsed ''container_port''));
          mode = option_default ''route'' (as_str (json_at parsed ''mode''));
          route_path = as_str (json_at parsed ''route_path'') in
      if container_port = 0 \<or> mode = ''route'' \<and> route_path = None
      then (s, error_json (''Missing '' @ quoted ''container_port'' @ '' or '' @ quoted ''route_path'') 400)
      else if (case route_path of Some rp \<Rightarrow> \<not> prefix ''/'' rp | None \<Rightarrow> False)
      then (s, error_json (''route_path must start with '' @ quoted ''/'') 400)
      else if (case route_path of Some rp \<Rightarrow> is_admin_path rp | None \<Rightarrow> False)
      then (s, error_json (quoted ''/admin'' @ '' is reserved for the management panel'') 400)
      else case reserve_one (pn_pool (ap_panel s)) of
             None \<Rightarrow> (s, error_json ''No free ports in pool'' 503)
           | Some (pp, pl) \<Rightarrow>
               (let s = set_pool pl s in
                case insert_bridge_port bridge_id container_port mode route_path (protocols_of parsed) (Some (uint pp)) (api_db s) of
                  (db, Inr _) \<Rightarrow>
                    (set_db db s, respond_json (JObj [(''ok'', JBool True), (''pool_port'', JInt (uint pp))]))
                | (db, Inl e) \<Rightarrow>
                    (set_pool (release_by_port (as_u16 (uint pp)) (pn_pool (ap_panel s))) (set_db db s), db_failure env e)))"

definition env_pair :: "json \<Rightarrow> (string \<times> string) option" where
  "env_pair e =
     Option.bind (as_str (json_at e ''key'')) (\<lambda>k. map_option (Pair k) (as_str (json_at e ''value'')))"

definition post_env :: "api_env \<Rightarrow> int \<Rightarrow> json \<Rightarrow> 'l api \<Rightarrow> 'l api \<times> response" where
  "post_env env bridge_id parsed s =
     (case as_array (json_at parsed ''envs'') of
        None \<Rightarrow> (s, error_json (''Missing '' @ quoted ''envs'' @ '' array'') 400)
      | Some envs \<Rightarrow>
          (case set_bridge_envs bridge_id (List.map_filter env_pair envs) (api_db s) of
             (db, Inr _) \<Rightarrow> (set_db db s, respond_json ok_json)
           | (db, Inl e) \<Rightarrow> (set_db db s, db_failure env e)))"

definition post_connection :: "api_env \<Rightarrow> json \<Rightarrow> 'l api \<Rightarrow> 'l api \<times> response" where
  "post_connection env parsed s =
     (let name = option_default ''connection'' (as_str (json_at parsed ''name'')) in
      case insert_connection (ae_now env) name (api_db s) of
        (db, Inr cid) \<Rightarrow>
          (let bridge_id = parse_slot parsed ''bridge_id''; image_id = parse_slot parsed ''image_id''; node_id = parse_slot parsed ''node_id'';
               db = (if bridge_id \<noteq> None \<or> image_id \<noteq> None \<or> node_id \<noteq> None
                     then fst (update_connection cid bridge_id image_id node_id db) else db) in
           (spawn (AutoDeploy cid) (set_db db s), respond_json (JObj [(''id'', JInt cid), (''name'', JStr name)])))
      | (db, Inl e) \<Rightarrow> (set_db db s, db_failure env e))"

definition patch_connection :: "api_env \<Rightarrow> int \<Rightarrow> json \<Rightarrow> 'l api \<Rightarrow> 'l api \<times> response" where
  "patch_connection env cid parsed s =
     (let bridge_id = parse_slot parsed ''bridge_id''; image_id = parse_slot parsed ''image_id''; node_id = parse_slot parsed ''node_id'';
          s = (if node_id \<noteq> None then stop_if_deployed cid s else s) in
      case update_connection cid bridge_id image_id node_id (api_db s) of
        (db, Inr _) \<Rightarrow> (spawn (AutoDeploy cid) (set_db db s), respond_json ok_json)
      | (db, Inl e) \<Rightarrow> (set_db db s, db_failure env e))"

definition delete_connection_request :: "api_env \<Rightarrow> int \<Rightarrow> 'l api \<Rightarrow> 'l api \<times> response" where
  "delete_connection_request env cid s =
     (let s = stop_if_deployed cid s in
      case delete_connection cid (api_db s) of
        (db, Inr _) \<Rightarrow> (set_db db s, respond_json ok_json)
      | (db, Inl e) \<Rightarrow> (set_db db s, db_failure env e))"

definition release_ports :: "int list \<Rightarrow> 'l api \<Rightarrow> 'l api" where
  "release_ports pps s = set_pool (fold (\<lambda>pp. release_by_port (as_u16 pp)) pps (pn_pool (ap_panel s))) s"

definition delete_bridge_request :: "api_env \<Rightarrow> int \<Rightarrow> 'l api \<Rightarrow> 'l api \<times> response" where
  "delete_bridge_request env bridge_id s =
     (let s = release_ports (get_bridge_pool_ports bridge_id (api_db s)) s in
      case delete_bridge bridge_id (api_db s) of
        (db, Inr _) \<Rightarrow> (set_db db s, respond_json ok_json)
      | (db, Inl e) \<Rightarrow> (set_db db s, db_failure env e))"

text \<open>
  \<^verbatim>\<open>&p["/api/bridges/".len()..]\<close> panics on a shorter path and on one whose thirteenth byte lies inside
  a character.
\<close>

definition slice_from :: "nat \<Rightarrow> string \<Rightarrow> string option" where
  "slice_from n p =
     (if length p < n then None
      else if n < length p \<and> 128 \<le> (of_char (p ! n) :: nat) \<and> (of_char (p ! n) :: nat) < 192 then None
      else Some (drop n p))"

definition delete_port :: "api_env \<Rightarrow> int \<Rightarrow> int \<Rightarrow> 'l api \<Rightarrow> 'l api \<times> response" where
  "delete_port env bridge_id container_port s =
     (let s = (case get_bridge_port_pool_port bridge_id container_port (api_db s) of
                 Some pp \<Rightarrow> release_ports [pp] s | None \<Rightarrow> s) in
      case delete_bridge_port bridge_id container_port (api_db s) of
        (db, Inr _) \<Rightarrow> (set_db db s, respond_json ok_json)
      | (db, Inl e) \<Rightarrow> (set_db db s, db_failure env e))"

definition delete_port_request :: "api_env \<Rightarrow> string \<Rightarrow> 'l api \<Rightarrow> ('l api \<times> response) option" where
  "delete_port_request env p s =
     map_option (\<lambda>rest.
       case split_on (CHR ''/'') rest of
         b # _ # c # _ \<Rightarrow>
           (case parse_i64 b of
              None \<Rightarrow> (s, error_json ''Invalid bridge id'' 400)
            | Some bridge_id \<Rightarrow>
                (case parse_i64 c of
                   None \<Rightarrow> (s, error_json ''Invalid port'' 400)
                 | Some container_port \<Rightarrow> delete_port env bridge_id container_port s))
       | _ \<Rightarrow> (s, error_json ''Invalid path'' 400))
       (slice_from (length bridges_prefix) p)"

definition post_settings :: "api_env \<Rightarrow> json \<Rightarrow> 'l api \<Rightarrow> 'l api \<times> response" where
  "post_settings env parsed s =
     (let st = ae_settings env in
      case Option.bind (json_get parsed ''tls_enabled'') as_bool of
        None \<Rightarrow> (s, error_json (''Missing '' @ quoted ''tls_enabled'' @ '' boolean'') 400)
      | Some want_tls \<Rightarrow>
          if want_tls \<and> \<not> as_tls_configurable st then
            (s, error_json
               (if \<not> as_domain_configured st
                then ''Cannot enable TLS: no `domain` set in server.toml. Add a domain (and a matching cert/key) to use HTTPS.''
                else ''Cannot enable TLS: tls_cert_path / tls_key_path not set or not pointing at real files in server.toml'') 400)
          else
            (let s = set_db (set_setting ''tls_enabled'' (if want_tls then ''true'' else ''false'') (api_db s)) s;
                 restart_required = (want_tls \<noteq> as_live_tls_enabled st) in
             (if restart_required then delayed_restart s else s,
              respond_json (JObj [(''ok'', JBool True), (''tls_enabled'', JBool want_tls), (''restart_required'', JBool restart_required)]))))"

definition store :: "string \<Rightarrow> string option \<Rightarrow> 'l api \<Rightarrow> 'l api" where
  "store key v s = (case v of None \<Rightarrow> s | Some v \<Rightarrow> set_db (set_setting key v (api_db s)) s)"

definition bool_text :: "bool \<Rightarrow> string" where
  "bool_text b = (if b then ''true'' else ''false'')"

definition post_acme_settings :: "json \<Rightarrow> 'l api \<Rightarrow> 'l api \<times> response" where
  "post_acme_settings parsed s =
     (let s = store ''acme_enabled'' (map_option bool_text (Option.bind (json_get parsed ''enabled'') as_bool)) s;
          s = store ''acme_email'' (map_option trim (Option.bind (json_get parsed ''email'') as_str)) s;
          s = store ''acme_staging'' (map_option bool_text (Option.bind (json_get parsed ''staging'') as_bool)) s in
      (delayed_restart s, respond_json ok_json))"

definition post_image_load :: "api_env \<Rightarrow> json \<Rightarrow> 'l api \<Rightarrow> 'l api \<times> response" where
  "post_image_load env parsed s =
     (let source = option_default [] (as_str (json_at parsed ''source''));
          custom_name = (case as_str (json_at parsed ''name'') of Some n \<Rightarrow> if n = [] then None else Some n | None \<Rightarrow> None) in
      if source = [] then (s, error_json (''Missing '' @ quoted ''source'') 400)
      else
        (spawn (LoadImage (ae_job_id env) source custom_name)
           (s\<lparr>ap_jobs := hm_insert (ae_job_id env)
                \<lparr>lj_logs = [''Starting image load...''], lj_status = ''running'', lj_result = []\<rparr> (ap_jobs s)\<rparr>),
         respond_json (JObj [(''job_id'', JStr (ae_job_id env))])))"

section \<open>Dispatch\<close>

definition handle_post :: "api_env \<Rightarrow> request \<Rightarrow> 'l api \<Rightarrow> 'l api \<times> response" where
  "handle_post env req s =
     (let raw = path_no_query (rq_url req); p = api_path raw in
      if p = ''/api/bridges'' then with_json env req (post_bridge env) s
      else if suffix ''/port'' p then
        (case extract_bridge_id p ''/port'' of
           None \<Rightarrow> (s, error_json ''Invalid bridge id'' 400)
         | Some bid \<Rightarrow> with_json env req (post_port env bid) s)
      else if suffix ''/env'' p then
        (case extract_bridge_id p ''/env'' of
           None \<Rightarrow> (s, error_json ''Invalid bridge id'' 400)
         | Some bid \<Rightarrow> with_json env req (post_env env bid) s)
      else if p = ''/api/connections'' then with_json env req (post_connection env) s
      else if p = ''/api/auto-check'' then
        (s\<lparr>ap_panel := auto_check (ae_answer env) (ap_panel s)\<rparr>, respond_json ok_json)
      else if p = ''/api/settings'' then with_json env req (post_settings env) s
      else if p = ''/api/settings/acme'' then with_json env req post_acme_settings s
      else if p = ''/api/image/load'' then with_json env req (post_image_load env) s
      else (s, fallback env raw p))"

definition handle_patch :: "api_env \<Rightarrow> request \<Rightarrow> 'l api \<Rightarrow> 'l api \<times> response" where
  "handle_patch env req s =
     (let raw = path_no_query (rq_url req); p = api_path raw in
      if prefix connections_prefix p then
        (case path_id (drop (length connections_prefix) p) of
           None \<Rightarrow> (s, error_json ''Invalid id'' 400)
         | Some cid \<Rightarrow> with_json env req (patch_connection env cid) s)
      else (s, fallback env raw p))"

definition handle_delete :: "api_env \<Rightarrow> request \<Rightarrow> 'l api \<Rightarrow> ('l api \<times> response) option" where
  "handle_delete env req s =
     (let raw = path_no_query (rq_url req); p = api_path raw in
      if prefix bridges_prefix p \<and> \<not> contains_str ''/port'' p then
        Some (case path_id (drop (length bridges_prefix) p) of
                None \<Rightarrow> (s, error_json ''Invalid bridge id'' 400)
              | Some bid \<Rightarrow> delete_bridge_request env bid s)
      else if contains_str ''/port/'' p then delete_port_request env p s
      else if prefix connections_prefix p then
        Some (case path_id (drop (length connections_prefix) p) of
                None \<Rightarrow> (s, error_json ''Invalid id'' 400)
              | Some cid \<Rightarrow> delete_connection_request env cid s)
      else Some (s, fallback env raw p))"

definition authorized :: "api_env \<Rightarrow> request \<Rightarrow> bool" where
  "authorized env req =
     (case (as_admin_user (ae_settings env), as_admin_password (ae_settings env)) of
        (Some user, Some pass) \<Rightarrow> check_basic_auth (ae_b64_decode env) (ae_utf8_ok env) (rq_headers req) user pass
      | _ \<Rightarrow> True)"

definition handle_request :: "api_env \<Rightarrow> request \<Rightarrow> 'l api \<Rightarrow> ('l api \<times> response) option" where
  "handle_request env req s =
     (if \<not> authorized env req then Some (s, unauthorized)
      else case rq_method req of
             Get \<Rightarrow> Some (s, handle_get env (rq_url req) s)
           | Post \<Rightarrow> Some (handle_post env req s)
           | Patch \<Rightarrow> Some (handle_patch env req s)
           | Delete \<Rightarrow> handle_delete env req s
           | OtherMethod _ \<Rightarrow>
               Some (s, fallback env (path_no_query (rq_url req)) (api_path (path_no_query (rq_url req)))))"

section \<open>Loading images\<close>

text \<open>Of an error that carries a cause only the outermost text is kept.\<close>

text \<open>\<^verbatim>\<open>trim_end_matches(".git")\<close> takes the ending away as often as it is there.\<close>

function trim_git :: "string \<Rightarrow> string" where
  "trim_git s = (case strip_suffix ''.git'' s of Some t \<Rightarrow> trim_git t | None \<Rightarrow> s)"
  by auto
termination
  by (relation "measure length") (auto simp: strip_suffix_Some)

declare trim_git.simps [simp del]

definition source_type_of :: "string \<Rightarrow> string" where
  "source_type_of source = (if prefix ''http'' source \<or> suffix ''.git'' source then ''git'' else ''docker_hub'')"

definition image_name_of :: "string \<Rightarrow> string option \<Rightarrow> string" where
  "image_name_of source custom_name =
     (case custom_name of
        Some n \<Rightarrow> n
      | None \<Rightarrow> if source_type_of source = ''git'' then trim_git (last (split_on (CHR ''/'') source)) else source)"

definition load_image ::
  "'w host \<Rightarrow> int \<Rightarrow> string \<Rightarrow> string option \<Rightarrow> database \<times> 'w \<Rightarrow> (database \<times> 'w) \<times> (string + string)" where
  "load_image h now source custom_name s =
     (case s of (db, w) \<Rightarrow>
        let name = image_name_of source custom_name;
            dir = ''/tmp/kdct-build-'' @ name;
            checked = (if source_type_of source \<noteq> ''git'' then (w, Inr ())
              else case h_exec h ''git'' [''clone'', ''--depth'', ''1'', source, dir] None w of
                (w, None) \<Rightarrow> (w, Inl ''Failed to clone git repository'')
              | (w, Some (ok, _)) \<Rightarrow>
                  if \<not> ok then (w, Inl (''git clone failed for '' @ source))
                  else if \<not> h_exists h (dir @ ''/Dockerfile'') w
                  then (w, Inl (''No Dockerfile found in '' @ source @ ''. A Dockerfile is required for Git-sourced images.''))
                  else (w, Inr ())) in
        case checked of
          (w, Inl e) \<Rightarrow> ((db, w), Inl e)
        | (w, Inr _) \<Rightarrow> ((fst (insert_image now name source (source_type_of source) db), w), Inr name))"

definition update_job :: "string \<Rightarrow> (load_job \<Rightarrow> load_job) \<Rightarrow> 'l api \<Rightarrow> 'l api" where
  "update_job jid f s =
     (case hm_get (ap_jobs s) jid of None \<Rightarrow> s | Some j \<Rightarrow> s\<lparr>ap_jobs := hm_insert jid (f j) (ap_jobs s)\<rparr>)"

definition log_line :: "string \<Rightarrow> load_job \<Rightarrow> load_job" where
  "log_line line j = j\<lparr>lj_logs := lj_logs j @ [line]\<rparr>"

definition run_load_job :: "'w host \<Rightarrow> int \<Rightarrow> string \<Rightarrow> string \<Rightarrow> string option \<Rightarrow> 'l api \<times> 'w \<Rightarrow> 'l api \<times> 'w" where
  "run_load_job h now jid source custom_name sw =
     (case sw of (s, w) \<Rightarrow>
        let s = update_job jid (log_line (''Loading: '' @ source)) s;
            s = (if prefix ''http'' source \<or> suffix ''.git'' source
                 then update_job jid (log_line ''Cloning git repository...'') s else s) in
        case load_image h now source custom_name (api_db s, w) of
          ((db, w), Inr name) \<Rightarrow>
            (update_job jid (\<lambda>j. j\<lparr>lj_status := ''done'', lj_result := ''Image '' @ name @ '' loaded successfully''\<rparr>) (set_db db s), w)
        | ((db, w), Inl e) \<Rightarrow>
            (update_job jid (\<lambda>j. j\<lparr>lj_status := ''error'', lj_result := e\<rparr>) (update_job jid (log_line e) (set_db db s)), w))"

definition run_spawned :: "'w host \<Rightarrow> api_env \<Rightarrow> 'l api \<times> 'w \<Rightarrow> 'l api \<times> 'w" where
  "run_spawned h env sw =
     (case sw of (s, w) \<Rightarrow>
        case ap_spawned s of
          [] \<Rightarrow> (s, w)
        | AutoDeploy cid # rest \<Rightarrow>
            (s\<lparr>ap_panel := try_auto_deploy (ae_answer env) cid (ap_panel s), ap_spawned := rest\<rparr>, w)
        | LoadImage jid source custom_name # rest \<Rightarrow>
            run_load_job h (ae_now env) jid source custom_name (s\<lparr>ap_spawned := rest\<rparr>, w))"

lemmas api_state_defs = set_db_def set_pool_def spawn_def delayed_restart_def

lemmas [kdct_simps] = api_state_defs deploy_connection_def stop_connection_def try_auto_deploy_def auto_check_def stop_connection_safe_def
  stop_if_deployed_def jopt_def ok_json_def node_json_def image_json_def bridge_json_def port_json_def connection_json_def
  path_id_def bridges_prefix_def connections_prefix_def get_bridge_def get_overview_def setting_true_def get_settings_def
  get_search_def get_tags_def get_progress_def fallback_def handle_get_def quoted_def with_json_def db_failure_def
  post_bridge_def protocols_of_def post_port_def env_pair_def post_env_def post_connection_def patch_connection_def
  delete_connection_request_def release_ports_def delete_bridge_request_def slice_from_def delete_port_def delete_port_request_def
  post_settings_def store_def bool_text_def post_acme_settings_def post_image_load_def handle_post_def handle_patch_def
  handle_delete_def authorized_def handle_request_def source_type_of_def image_name_of_def load_image_def update_job_def
  log_line_def run_load_job_def run_spawned_def

end
