(* ===== verification/Panel_Runs.thy ===== *)
theory Panel_Runs
  imports Panel_Api
begin

text \<open>
  What the requests of the panel's API do to its state: that they keep it consistent, that reading and refused requests change nothing, how
  ports are reserved and given back, and which requests end the API.
\<close>

section \<open>Consistency\<close>

lemma deploy_begin_inv: "panel_inv p \<Longrightarrow> deploy_begin cid p = (p', r) \<Longrightarrow> panel_inv p'"
  by (auto simp: deploy_begin_def panel_inv_def Let_def split: sum.splits prod.splits option.splits)

lemma register_ports_rt_inv: "rt_inv (pn_routes s) \<Longrightarrow> register_ports ch l s = (s', r) \<Longrightarrow> rt_inv (pn_routes s')"
proof (induction l arbitrary: s)
  case (Cons x l)
  obtain p cp sp where x: "x = (p, cp, sp)" by (cases x)
  show ?case
  proof (cases "case published_route p of None \<Rightarrow> Inr (pn_routes s) | Some path \<Rightarrow> rt_set path sp (pn_routes s)")
    case (Inl e)
    then show ?thesis using Cons.prems by (auto simp: x)
  next
    case (Inr rt)
    have "rt_inv rt"
      using Inr Cons.prems(1) rt.publish_ok [of "pn_routes s" _ sp rt] by (auto split: option.splits)
    moreover have "register_ports ch l (s\<lparr>pn_routes := rt, pn_forwards := pn_forwards s @ [(sp, spawn_forward ch p cp)]\<rparr>) = (s', r)"
      using Cons.prems(2) Inr by (simp add: x)
    ultimately show ?thesis using Cons.IH by (metis panel.select_convs(4) panel.surjective panel.update_convs(4,7))
  qed
qed simp

lemma deploy_finish_keeps_inv:
  assumes "panel_inv p" "deploy_finish t ans p = (p', r)"
  shows "panel_inv p'"
proof (cases ans)
  case (Answered a)
  obtain p1 r1 where reg: "register_ports (dt_channel t) (zip (dt_ports t) (dt_port_map t)) (tracked t p) = (p1, r1)" by fastforce
  have rt: "rt_inv (pn_routes p1)"
    by (rule register_ports_rt_inv [OF _ reg]) (use assms(1) in \<open>simp add: panel_inv_def tracked_def\<close>)
  have p1: "panel_inv p1"
    using rt register_ports_frame [OF reg] assms(1)
    by (simp add: panel_inv_def tracked_def record_deployment_def distinct_update)
  then show ?thesis
    using assms(2) reg update_connection_node_wf [of _ _ _ _ "pn_db p1"]
    by (auto simp: Answered deploy_finish_def tracked_def [symmetric] panel_inv_def Let_def split: sum.splits prod.splits)
qed (use assms in \<open>auto simp: deploy_finish_def panel_inv_def\<close>)

lemma deploy_connection_inv: "panel_inv p \<Longrightarrow> panel_inv (fst (deploy_connection ans cid p))"
  using deploy_begin_inv [of p cid] deploy_finish_keeps_inv [OF _ prod.collapse [symmetric]]
  by (auto simp: deploy_connection_def split: prod.splits sum.splits)

lemma try_auto_deploy_inv: "panel_inv p \<Longrightarrow> panel_inv (try_auto_deploy ans cid p)"
  by (simp add: try_auto_deploy_def deploy_connection_inv split: option.splits)

lemma auto_check_inv: "panel_inv p \<Longrightarrow> panel_inv (auto_check ans p)"
proof -
  have "panel_inv (fold (\<lambda>cid p. if cid > 0 then try_auto_deploy ans cid p else p) cids p)" if "panel_inv p" for cids p
    using that by (induction cids arbitrary: p) (simp_all add: try_auto_deploy_inv)
  then show "panel_inv p \<Longrightarrow> panel_inv (auto_check ans p)" by (simp add: auto_check_def)
qed

lemma stop_begin_inv: "panel_inv p \<Longrightarrow> stop_begin cid p = (p', r) \<Longrightarrow> panel_inv p'"
  by (auto simp: stop_begin_def panel_inv_def Let_def split: sum.splits prod.splits option.splits if_splits)

lemma stop_finish_inv: "panel_inv p \<Longrightarrow> stop_finish t p = (p', r) \<Longrightarrow> panel_inv p'"
proof -
  assume inv: "panel_inv p" and fin: "stop_finish t p = (p', r)"
  obtain db where "p' = (case st_node_uuid t of None \<Rightarrow> p | Some uuid \<Rightarrow> take_down (st_connection_name t) uuid p)\<lparr>pn_db := db\<rparr>"
    "update_connection_node (st_connection_id t) None ''pending'' None (pn_db p) = (db, Inr ())"
    using stop_finish_row [of t p] fin by auto
  then show "panel_inv p'"
    using inv take_down_inv [OF inv] update_connection_node_wf [of _ _ _ _ "pn_db p" db]
    by (auto simp: panel_inv_def split: option.splits)
qed

lemma stop_if_deployed_inv: "panel_inv (ap_panel s) \<Longrightarrow> panel_inv (ap_panel (stop_if_deployed cid s))"
  using stop_begin_inv [of "ap_panel s" cid] stop_finish_inv [OF _ prod.collapse [symmetric]]
  by (auto simp: stop_if_deployed_def stop_connection_safe_def stop_connection_def split: option.splits prod.splits sum.splits)

lemma set_db_inv: "panel_inv (ap_panel s) \<Longrightarrow> db_wf db \<Longrightarrow> panel_inv (ap_panel (set_db db s))"
  by (simp add: set_db_def panel_inv_def)

lemma set_pool_inv: "panel_inv (ap_panel s) \<Longrightarrow> pool_inv pl \<Longrightarrow> panel_inv (ap_panel (set_pool pl s))"
  by (simp add: set_pool_def panel_inv_def)

lemma panel_db_wf: "panel_inv p \<Longrightarrow> db_wf (pn_db p)" and panel_pool_inv: "panel_inv p \<Longrightarrow> pool_inv (pn_pool p)"
  by (simp_all add: panel_inv_def)

lemma release_ports_inv: "panel_inv (ap_panel s) \<Longrightarrow> panel_inv (ap_panel (release_ports pps s))"
proof -
  have "pool_inv pl \<Longrightarrow> pool_inv (fold (\<lambda>pp. release_by_port (as_u16 pp)) pps pl)" for pl
    by (induction pps arbitrary: pl) (simp_all add: pool_inv_release_by_port)
  then show "panel_inv (ap_panel s) \<Longrightarrow> panel_inv (ap_panel (release_ports pps s))"
    unfolding release_ports_def by (metis set_pool_inv panel_pool_inv)
qed

lemma set_db_panel [simp]: "api_db (set_db db s) = db" "api_db (set_pool pl s) = api_db s" "api_db (release_ports pps s) = api_db s"
  "pn_pool (ap_panel (set_pool pl s)) = pl" "pn_pool (ap_panel (set_db db s)) = pn_pool (ap_panel s)"
  by (simp_all add: set_db_def set_pool_def release_ports_def)

lemma same_panel [simp]: "ap_panel (spawn t s) = ap_panel s" "ap_panel (delayed_restart s) = ap_panel s"
  "ap_panel (s\<lparr>ap_jobs := j\<rparr>) = ap_panel s" "ap_panel (update_job jid f s) = ap_panel s"
  by (simp_all add: spawn_def delayed_restart_def update_job_def split: option.splits)

text \<open>Each handler, from the invariant of the database operation it calls.\<close>

lemmas db_op_wf = db_wf_insert_bridge db_wf_insert_bridge_port db_wf_set_bridge_envs db_wf_insert_connection db_wf_update_connection
  db_wf_delete_connection db_wf_delete_bridge db_wf_delete_bridge_port db_wf_insert_image

abbreviation sound :: "'l api \<Rightarrow> bool" where
  "sound s \<equiv> panel_inv (ap_panel s)"

lemma sound_db: "sound s \<Longrightarrow> db_wf (api_db s)"
  by (rule panel_db_wf)

lemma sound_case [intro]:
  assumes "sound s" "db_wf (fst x)" "\<And>db e. sound (set_db db s) \<Longrightarrow> sound (fst (f db e))"
    "\<And>db i. sound (set_db db s) \<Longrightarrow> sound (fst (g db i))"
  shows "sound (fst (case x of (db, Inl e) \<Rightarrow> f db e | (db, Inr i) \<Rightarrow> g db i))"
  using assms set_db_inv [OF assms(1,2)] by (auto split: prod.splits sum.splits)

lemma with_json_sound: "(\<And>v. sound (fst (k v s))) \<Longrightarrow> sound s \<Longrightarrow> sound (fst (with_json env req k s))"
  by (simp add: with_json_def split: option.splits sum.splits)

lemma post_bridge_sound: "sound s \<Longrightarrow> sound (fst (post_bridge env v s))"
  unfolding post_bridge_def Let_def by (simp, intro impI sound_case) (simp_all add: db_op_wf sound_db)

lemma post_env_sound: "sound s \<Longrightarrow> sound (fst (post_env env bid v s))"
  unfolding post_env_def by (cases "as_array (json_at v ''envs'')") (auto intro!: sound_case simp: db_op_wf sound_db)

lemma post_connection_sound: "sound s \<Longrightarrow> sound (fst (post_connection env v s))"
  by (simp add: post_connection_def insert_connection_def Let_def set_db_inv db_wf_update_connection
      db_wf_insert_connection [OF sound_db, unfolded insert_connection_def Let_def, simplified])

lemma patch_connection_sound: "sound s \<Longrightarrow> sound (fst (patch_connection env cid v s))"
  unfolding patch_connection_def Let_def by (rule sound_case) (auto simp: db_op_wf sound_db stop_if_deployed_inv stop_if_deployed_inv [THEN sound_db])

lemma delete_connection_sound: "sound s \<Longrightarrow> sound (fst (delete_connection_request env cid s))"
  unfolding delete_connection_request_def Let_def
  by (rule sound_case) (auto simp: db_op_wf sound_db stop_if_deployed_inv stop_if_deployed_inv [THEN sound_db])

lemma delete_bridge_sound: "sound s \<Longrightarrow> sound (fst (delete_bridge_request env bid s))"
  unfolding delete_bridge_request_def Let_def by (rule sound_case) (auto intro: release_ports_inv simp: db_op_wf sound_db)

lemma delete_port_sound: "sound s \<Longrightarrow> sound (fst (delete_port env bid cport s))"
  unfolding delete_port_def Let_def
  by (rule sound_case) (auto intro: release_ports_inv simp: db_op_wf sound_db split: option.splits)

lemma store_sound: "sound s \<Longrightarrow> sound (store key v s)"
  by (simp add: store_def set_db_inv db_wf_set_setting sound_db split: option.splits)

lemma post_settings_sound: "sound s \<Longrightarrow> sound (fst (post_settings env v s))"
  by (simp add: post_settings_def Let_def set_db_inv db_wf_set_setting sound_db split: option.splits)

lemma post_acme_sound: "sound s \<Longrightarrow> sound (fst (post_acme_settings v s))"
  by (simp add: post_acme_settings_def Let_def store_sound)

lemma post_image_load_sound: "sound s \<Longrightarrow> sound (fst (post_image_load env v s))"
  by (simp add: post_image_load_def Let_def)

lemma sound_if: "sound (fst x) \<Longrightarrow> sound (fst y) \<Longrightarrow> sound (fst (if b then x else y))"
  by simp

lemma sound_option: "sound (fst x) \<Longrightarrow> (\<And>y. sound (fst (f y))) \<Longrightarrow> sound (fst (case o' of None \<Rightarrow> x | Some y \<Rightarrow> f y))"
  by (cases o') simp_all

lemma post_port_sound:
  assumes "sound s"
  shows "sound (fst (post_port env bid v s))"
proof (cases "reserve_one (pn_pool (ap_panel s))")
  case (Some x)
  obtain pp pl where x: "x = (pp, pl)" by (cases x)
  have "pool_inv pl" using pool_inv_reserve_one [OF panel_pool_inv [OF assms]] Some x by simp
  then have "sound (set_pool pl s)" using assms by (simp add: set_pool_inv)
  moreover have "sound (set_pool (release_by_port q pl) (set_db db t))" if "sound (set_db db t)" for q db t
    using that \<open>pool_inv pl\<close> by (simp add: set_pool_inv pool_inv_release_by_port)
  ultimately have ins: "sound (fst (case insert_bridge_port bid c m r ps q (api_db (set_pool pl s)) of
      (db, Inl e) \<Rightarrow> (set_pool (release_by_port (as_u16 (uint pp)) (pn_pool (ap_panel (set_pool pl s)))) (set_db db (set_pool pl s)), db_failure env e)
    | (db, Inr i) \<Rightarrow> (set_db db (set_pool pl s), respond_json (JObj [(''ok'', JBool True), (''pool_port'', JInt (uint pp))]))))" for c m r ps q
    by (intro sound_case) (simp_all add: db_op_wf sound_db [OF assms])
  show ?thesis unfolding post_port_def Let_def Some x option.case prod.case
    by (intro sound_if ins) (simp_all only: fst_conv assms)
qed (use assms in \<open>simp add: post_port_def Let_def\<close>)

lemmas handler_sound = post_bridge_sound post_env_sound post_connection_sound patch_connection_sound delete_connection_sound
  delete_bridge_sound delete_port_sound post_settings_sound post_acme_sound post_image_load_sound post_port_sound

lemma handle_post_sound: "sound s \<Longrightarrow> sound (fst (handle_post env req s))"
  unfolding handle_post_def Let_def
  by (intro sound_if sound_option with_json_sound handler_sound) (simp_all add: auto_check_inv)

lemma handle_patch_sound: "sound s \<Longrightarrow> sound (fst (handle_patch env req s))"
  unfolding handle_patch_def Let_def by (intro sound_if sound_option with_json_sound handler_sound) simp_all

definition ends_sound :: "('l api \<times> response) option \<Rightarrow> bool" where
  "ends_sound x \<longleftrightarrow> (\<forall>s r. x = Some (s, r) \<longrightarrow> sound s)"

lemma ends_sound_Some [simp]: "ends_sound (Some x) \<longleftrightarrow> sound (fst x)"
  by (cases x) (simp add: ends_sound_def)

lemma ends_sound_if: "ends_sound x \<Longrightarrow> ends_sound y \<Longrightarrow> ends_sound (if b then x else y)"
  by simp

lemma delete_port_request_sound: "sound s \<Longrightarrow> ends_sound (delete_port_request env p s)"
  unfolding delete_port_request_def
  by (cases "slice_from (length bridges_prefix) p")
    (simp_all add: ends_sound_def [of None] delete_port_sound split: list.splits option.splits)

lemma handle_delete_sound: "sound s \<Longrightarrow> ends_sound (handle_delete env req s)"
  unfolding handle_delete_def Let_def
  by (intro ends_sound_if delete_port_request_sound) (simp_all add: delete_bridge_sound delete_connection_sound split: option.splits)

lemma handle_request_sound: "sound s \<Longrightarrow> ends_sound (handle_request env req s)"
  by (simp add: handle_request_def handle_post_sound handle_patch_sound handle_delete_sound split: http_method.splits)

lemma load_image_wf: "db_wf db \<Longrightarrow> db_wf (fst (fst (load_image h now src c (db, w))))"
  using db_wf_insert_image [of db] by (auto simp: load_image_def Let_def split: prod.splits sum.splits option.splits if_splits)

lemma run_load_job_sound:
  assumes "sound s"
  shows "sound (fst (run_load_job h now jid src c (s, w)))"
proof -
  define s1 where "s1 = update_job jid (log_line (''Loading: '' @ src)) s"
  define s2 where "s2 = (if prefix ''http'' src \<or> suffix ''.git'' src
     then update_job jid (log_line ''Cloning git repository...'') s1 else s1)"
  have s2: "sound s2" using assms by (simp add: s1_def s2_def)
  obtain db w' r where l: "load_image h now src c (api_db s2, w) = ((db, w'), r)" by (metis prod.exhaust)
  then have "db_wf db" using load_image_wf [OF sound_db [OF s2], of h now src c w] by simp
  with s2 have "sound (set_db db s2)" by (rule set_db_inv)
  then show ?thesis
    unfolding run_load_job_def Let_def prod.case s1_def [symmetric] s2_def [symmetric] l by (cases r) simp_all
qed

lemma run_spawned_sound: "sound s \<Longrightarrow> sound (fst (run_spawned h env (s, w)))"
  by (simp add: run_spawned_def try_auto_deploy_inv run_load_job_sound split: list.splits spawned.splits)


inductive api_step :: "'w host \<Rightarrow> 'l api \<times> 'w \<Rightarrow> 'l api \<times> 'w \<Rightarrow> bool" for h where
  api_request: "handle_request env req s = Some (s', r) \<Longrightarrow> api_step h (s, w) (s', w)"
| api_task: "api_step h (s, w) (run_spawned h env (s, w))"

interpretation panel_api: inductive_invariant "\<lambda>(s, w). sound s" "api_step h" "\<lambda>(s, w). sound s"
proof unfold_locales
  fix x y :: "'a api \<times> 'b"
  assume inv: "case x of (s, w) \<Rightarrow> sound s" and step: "api_step h x y"
  from step show "case y of (s, w) \<Rightarrow> sound s"
  proof cases
    case (api_request env req s s' r w)
    then show ?thesis using inv handle_request_sound [of s env req] by (simp add: ends_sound_def)
  next
    case (api_task s w env)
    then show ?thesis using inv run_spawned_sound [of s h env w] by (simp add: split_beta)
  qed
qed



section \<open>Ports of a bridge\<close>

lemma reserve_fresh:
  assumes "pool_inv pl" "reserve_one pl = Some (pp, pl')"
  shows "pp \<in> set (free pl)" "pp \<notin> assigned pl" "assigned pl' = insert pp (assigned pl)" "release_by_port pp pl' = pl"
proof -
  obtain rest where fr: "free pl = pp # rest" and pl': "pl' = pl\<lparr>free := rest, assignments := hm_insert pp ([], 0) (assignments pl)\<rparr>"
    using assms(2) by (auto simp: reserve_one_def split: list.splits)
  show "pp \<in> set (free pl)" by (simp add: fr)
  show np: "pp \<notin> assigned pl" using assms(1) fr by (auto simp: pool_inv_def)
  show "assigned pl' = insert pp (assigned pl)" by (simp add: pl' assigned_def)
  have "pp \<notin> hm_keys (assignments pl)" using np by (simp add: assigned_def)
  then show "release_by_port pp pl' = pl"
    using assms(1) fr by (simp add: pl' release_by_port_def release_one_def hm_get_insert hm_remove_insert_fresh pool_inv_def bset_insert_Cons)
qed

definition new_port :: "int \<Rightarrow> int \<Rightarrow> database \<Rightarrow> bool" where
  "new_port bid cport db \<longleftrightarrow> bid \<in> br_id ` set (bridges db)
     \<and> (\<forall>p \<in> set (bridge_ports db). \<not> (bp_bridge_id p = bid \<and> bp_container_port p = cport))"

lemma insert_bridge_port_new:
  "new_port bid cport db \<Longrightarrow> \<exists>db' row i. insert_bridge_port bid cport mode path protos q db = (db', Inr i)
     \<and> bridge_ports db' = bridge_ports db @ [row] \<and> bp_bridge_id row = bid \<and> bp_container_port row = cport
     \<and> bp_route_path row = path \<and> bp_pool_port row = q"
  by (auto simp: new_port_def insert_bridge_port_def Let_def)

lemma insert_bridge_port_refused:
  "\<not> new_port bid cport db \<Longrightarrow> \<exists>e. insert_bridge_port bid cport mode path protos q db = (db, Inl e)"
  by (auto simp: new_port_def insert_bridge_port_def)

definition port_request_ok :: "json \<Rightarrow> bool" where
  "port_request_ok v \<longleftrightarrow>
     (let cport = option_default 0 (as_i64 (json_at v ''container_port'')); mode = option_default ''route'' (as_str (json_at v ''mode''));
          path = as_str (json_at v ''route_path'') in
      cport \<noteq> 0 \<and> (mode = ''route'' \<longrightarrow> path \<noteq> None) \<and> (\<forall>rp. path = Some rp \<longrightarrow> prefix ''/'' rp \<and> \<not> is_admin_path rp))"

lemma post_port_bad:
  "\<not> port_request_ok v \<Longrightarrow> fst (post_port env bid v s) = s \<and> rs_status (snd (post_port env bid v s)) \<in> {400, 500}"
  by (cases "as_str (json_at v ''route_path'')") (auto simp: post_port_def port_request_ok_def Let_def error_json_def)

lemma post_port_good:
  assumes "port_request_ok v" "reserve_one (pn_pool (ap_panel s)) = Some (pp, pl)"
  shows "post_port env bid v s =
    (case insert_bridge_port bid (option_default 0 (as_i64 (json_at v ''container_port''))) (option_default ''route'' (as_str (json_at v ''mode'')))
        (as_str (json_at v ''route_path'')) (protocols_of v) (Some (uint pp)) (api_db s) of
       (db, Inr _) \<Rightarrow> (set_db db (set_pool pl s), respond_json (JObj [(''ok'', JBool True), (''pool_port'', JInt (uint pp))]))
     | (db, Inl e) \<Rightarrow> (set_pool (release_by_port pp pl) (set_db db (set_pool pl s)), db_failure env e))"
  using assms by (cases "as_str (json_at v ''route_path'')") (simp_all add: post_port_def port_request_ok_def Let_def)

lemma set_pool_back: "set_pool (pn_pool (ap_panel s)) (set_db (api_db s) (set_pool q s)) = s"
  by (simp add: set_pool_def set_db_def)

text \<open>
  C32. Adding a port to a bridge is atomic. It succeeds exactly when the request names a container port, has a
  path when it is a route, the path starts with a slash and is not the panel's, the pool has a free port, and the bridge exists
  and has no such port yet; then one port that was free is reserved and stored in the one new row. Otherwise an error is answered
  and neither the pool nor the database has changed.
\<close>

theorem add_port_atomic:
  fixes v :: json
  assumes inv: "panel_inv (ap_panel s)"
  defines "cport \<equiv> option_default 0 (as_i64 (json_at v ''container_port''))"
    and "mode \<equiv> option_default ''route'' (as_str (json_at v ''mode''))"
    and "path \<equiv> as_str (json_at v ''route_path'')"
  shows "if cport \<noteq> 0 \<and> (mode = ''route'' \<longrightarrow> path \<noteq> None)
      \<and> (\<forall>rp. path = Some rp \<longrightarrow> prefix ''/'' rp \<and> \<not> is_admin_path rp)
      \<and> free (pn_pool (ap_panel s)) \<noteq> []
      \<and> bid \<in> br_id ` set (bridges (api_db s))
      \<and> (\<forall>p \<in> set (bridge_ports (api_db s)). \<not> (bp_bridge_id p = bid \<and> bp_container_port p = cport))
    then \<exists>pp row s'. post_port env bid v s = (s', respond_json (JObj [(''ok'', JBool True), (''pool_port'', JInt (uint pp))]))
      \<and> pp \<in> set (free (pn_pool (ap_panel s))) \<and> pp \<notin> assigned (pn_pool (ap_panel s))
      \<and> assigned (pn_pool (ap_panel s')) = insert pp (assigned (pn_pool (ap_panel s)))
      \<and> bridge_ports (api_db s') = bridge_ports (api_db s) @ [row]
      \<and> bp_bridge_id row = bid \<and> bp_container_port row = cport \<and> bp_route_path row = path \<and> bp_pool_port row = Some (uint pp)
    else fst (post_port env bid v s) = s \<and> rs_status (snd (post_port env bid v s)) \<in> {400, 500}"
proof -
  let ?pl = "pn_pool (ap_panel s)"
  note defs = cport_def [symmetric] mode_def [symmetric] path_def [symmetric]
  have ok_iff: "port_request_ok v \<longleftrightarrow> cport \<noteq> 0 \<and> (mode = ''route'' \<longrightarrow> path \<noteq> None)
      \<and> (\<forall>rp. path = Some rp \<longrightarrow> prefix ''/'' rp \<and> \<not> is_admin_path rp)"
    by (simp add: port_request_ok_def Let_def defs)
  show ?thesis
  proof (cases "reserve_one ?pl")
    case None
    then have "free ?pl = []" by (simp add: reserve_one_def split: list.splits)
    then show ?thesis by (simp add: post_port_def Let_def None error_json_def)
  next
    case (Some x)
    obtain pp pl where x: "x = (pp, pl)" by (cases x)
    note r = reserve_fresh [OF panel_pool_inv [OF inv] Some [unfolded x]]
    have fr: "free ?pl \<noteq> []" using r(1) by auto
    note good = post_port_good [OF _ Some [unfolded x], of v env bid, unfolded defs]
    show ?thesis
    proof (cases "port_request_ok v \<and> new_port bid cport (api_db s)")
      case True
      from insert_bridge_port_new [of bid cport "api_db s" mode path "protocols_of v" "Some (uint pp)"] True
      show ?thesis using fr r ok_iff good by (auto simp: set_db_def set_pool_def new_port_def)
    next
      case no: False
      have "fst (post_port env bid v s) = s \<and> rs_status (snd (post_port env bid v s)) \<in> {400, 500}"
      proof (cases "port_request_ok v")
        case True
        then obtain e where "insert_bridge_port bid cport mode path (protocols_of v) (Some (uint pp)) (api_db s) = (api_db s, Inl e)"
          using no insert_bridge_port_refused by blast
        then show ?thesis using good [OF True] by (simp add: r(4) set_pool_back db_failure_def error_json_def)
      qed (rule post_port_bad)
      then show ?thesis by (subst if_not_P) (use no ok_iff in \<open>unfold new_port_def, blast\<close>)
    qed
  qed
qed


text \<open>
  The pool starts empty of reservations when the server starts, also after the restart that a change of the TLS or certificate settings brings about, while the
  bridges in the database keep the ports they were given: the first port added afterwards gets the lowest port of the pool even if a bridge
  has it already, and both bridges then name the same public port.
\<close>

theorem restart_forgets_reservations:
  fixes env :: api_env
  assumes pool: "pool_new bind spec = Inr pl" "free pl = pp # rest" and s: "pn_pool (ap_panel s) = pl"
    and old: "row \<in> set (bridge_ports (api_db s))" "bp_pool_port row = Some (uint pp)" "bp_bridge_id row \<noteq> bid"
    and new: "new_port bid cport (api_db s)" "cport \<noteq> 0"
  defines "t \<equiv> fst (post_port env bid (JObj [(''container_port'', JInt cport), (''mode'', JStr ''port'')]) s)"
  shows "\<exists>row'. row' \<in> set (bridge_ports (api_db t)) \<and> row \<in> set (bridge_ports (api_db t))
    \<and> bp_bridge_id row' = bid \<and> bp_pool_port row' = bp_pool_port row"
proof -
  have r: "reserve_one pl = Some (pp, pl\<lparr>free := rest, assignments := hm_insert pp ([], 0) (assignments pl)\<rparr>)"
    using pool(2) by (simp add: reserve_one_def)
  obtain db row' i where ins: "insert_bridge_port bid cport ''port'' None None (Some (uint pp)) (api_db s) = (db, Inr i)"
    "bridge_ports db = bridge_ports (api_db s) @ [row']" "bp_bridge_id row' = bid" "bp_pool_port row' = Some (uint pp)"
    using insert_bridge_port_new [OF new(1), of "''port''" None None "Some (uint pp)"] by blast
  have "api_db t = db"
    using new(2) by (simp add: t_def post_port_def Let_def json_defs protocols_of_def s r ins(1))
  then show ?thesis using ins old by auto
qed

text \<open>
  Deleting a bridge gives back the pool ports of its rows at once, also when a deployment of it is running: the routes, the forwarders and the
  tracker still use the ports, which the pool can hand out again.
\<close>

theorem deleted_bridge_keeps_serving:
  fixes env :: api_env
  assumes inv: "panel_inv (ap_panel s)"
    and port: "row \<in> set (bridge_ports (api_db s))" "bp_bridge_id row = bid" "bp_pool_port row = Some pp"
    and pooled: "as_u16 pp \<in> pool_ports (pn_pool (ap_panel s))"
  defines "t \<equiv> fst (delete_bridge_request env bid s)"
  shows "as_u16 pp \<in> set (free (pn_pool (ap_panel t)))
    \<and> pn_routes (ap_panel t) = pn_routes (ap_panel s) \<and> pn_forwards (ap_panel t) = pn_forwards (ap_panel s)
    \<and> pn_tracker (ap_panel t) = pn_tracker (ap_panel s)"
proof -
  let ?pps = "get_bridge_pool_ports bid (api_db s)"
  have "pp \<in> set ?pps"
    using port by (auto simp: get_bridge_pool_ports_def List.map_filter_def intro!: image_eqI [of _ _ row])
  have rel: "set (free (fold (\<lambda>pp. release_by_port (as_u16 pp)) pps pl)) = set (free pl) \<union> (as_u16 ` set pps \<inter> pool_ports pl)
      \<and> pool_ports (fold (\<lambda>pp. release_by_port (as_u16 pp)) pps pl) = pool_ports pl" if "pool_inv pl" for pps and pl :: "'a port_pool"
    using that
  proof (induction pps arbitrary: pl)
    case (Cons q pps)
    have "pool_inv (release_by_port (as_u16 q) pl)" using Cons.prems by (rule pool_inv_release_by_port)
    from Cons.IH [OF this] show ?case
      using free_release_by_port [OF Cons.prems, of "as_u16 q"] by auto
  qed simp
  have "t = fst (case delete_bridge bid (api_db s) of
      (db, Inr _) \<Rightarrow> (set_db db (release_ports ?pps s), respond_json ok_json)
    | (db, Inl e) \<Rightarrow> (set_db db (release_ports ?pps s), db_failure env e))"
    by (simp add: t_def delete_bridge_request_def Let_def)
  then have "ap_panel t = (ap_panel s)\<lparr>pn_pool := fold (\<lambda>pp. release_by_port (as_u16 pp)) ?pps (pn_pool (ap_panel s)),
      pn_db := fst (delete_bridge bid (api_db s))\<rparr>"
    by (simp add: delete_bridge_def Let_def set_db_def release_ports_def set_pool_def)
  with rel [OF panel_pool_inv [OF inv], of ?pps] \<open>pp \<in> set ?pps\<close> pooled show ?thesis by auto
qed

section \<open>Requests that end the API\<close>

text \<open>
  The API answers every request but one kind: an authorised DELETE of a path with a segment \<^verbatim>\<open>port\<close> that the bridge route did not take, when the path is
  shorter than thirteen bytes or is cut inside a character there. Such a request, for instance to \<^verbatim>\<open>/admin/port/\<close>, panics, and the panel is gone until the server is restarted.
\<close>

theorem api_dies_on_short_port_path:
  fixes req :: request
  defines "p \<equiv> api_path (path_no_query (rq_url req))"
  shows "handle_request env req s = None \<longleftrightarrow>
    authorized env req \<and> rq_method req = Delete \<and> contains_str ''/port/'' p
    \<and> \<not> (prefix ''/api/bridges/'' p \<and> \<not> contains_str ''/port'' p)
    \<and> (length p < 13 \<or> 13 < length p \<and> of_char (p ! 13) \<in> {128 ..< 192 :: nat})"
proof -
  have len: "length bridges_prefix = 13" by (simp add: bridges_prefix_def)
  have "delete_port_request env p s = None \<longleftrightarrow> length p < 13 \<or> 13 < length p \<and> of_char (p ! 13) \<in> {128 ..< 192 :: nat}"
    by (auto simp: delete_port_request_def slice_from_def len)
  then show ?thesis
    by (cases "rq_method req") (auto simp: handle_request_def handle_delete_def Let_def p_def [symmetric] bridges_prefix_def)
qed

section \<open>Image jobs\<close>

lemma job_updated: "hm_get (ap_jobs (update_job jid f s)) jid = map_option f (hm_get (ap_jobs s) jid)" "ap_jobs (set_db d s) = ap_jobs s"
  by (auto simp: update_job_def set_db_def hm_get_insert split: option.splits)

text \<open>
  A job to load an image comes to an end: once its task has run it is marked done or failed, and never runs any longer. It is done exactly when
  the image is in the database under the name it reports, with the source and the kind of source it was asked for; a failed job leaves
  the database as it was.
\<close>

theorem load_job_ends:
  assumes job: "hm_get (ap_jobs s) jid = Some j" and run: "run_load_job h now jid source custom (s, w) = (t, w')"
  shows "\<exists>j'. hm_get (ap_jobs t) jid = Some j'
    \<and> (lj_status j' = ''done'' \<and> (\<exists>img \<in> set (images (api_db t)). img_name img = image_name_of source custom \<and> img_source img = source
           \<and> img_source_type img = source_type_of source)
         \<and> lj_result j' = ''Image '' @ image_name_of source custom @ '' loaded successfully''
       \<or> lj_status j' = ''error'' \<and> api_db t = api_db s)"
proof -
  define s1 where "s1 = update_job jid (log_line (''Loading: '' @ source)) s"
  define s2 where "s2 = (if prefix ''http'' source \<or> suffix ''.git'' source
     then update_job jid (log_line ''Cloning git repository...'') s1 else s1)"
  obtain j1 where "hm_get (ap_jobs s1) jid = Some j1" using job by (simp add: s1_def update_job_def hm_get_insert)
  then obtain j2 where j2: "hm_get (ap_jobs s2) jid = Some j2"
    by (cases "prefix ''http'' source \<or> suffix ''.git'' source") (simp_all add: s2_def update_job_def hm_get_insert)
  have db: "api_db s2 = api_db s" by (simp add: s2_def s1_def)
  obtain db' w1 r where l: "load_image h now source custom (api_db s, w) = ((db', w1), r)" by (metis prod.exhaust)
  have t: "t = fst (case r of
      Inr name \<Rightarrow> (update_job jid (\<lambda>j. j\<lparr>lj_status := ''done'', lj_result := ''Image '' @ name @ '' loaded successfully''\<rparr>) (set_db db' s2), w1)
    | Inl e \<Rightarrow> (update_job jid (\<lambda>j. j\<lparr>lj_status := ''error'', lj_result := e\<rparr>) (update_job jid (log_line e) (set_db db' s2)), w1))"
    using run unfolding run_load_job_def Let_def prod.case s1_def [symmetric] s2_def [symmetric] db l by (cases r) auto
  show ?thesis
  proof (cases r)
    case (Inl e)
    then have "db' = api_db s" using l by (auto simp: load_image_def Let_def split: prod.splits sum.splits if_splits option.splits)
    then show ?thesis using t Inl j2 by (simp add: job_updated)
  next
    case (Inr name)
    then have "name = image_name_of source custom" "db' = fst (insert_image now name source (source_type_of source) (api_db s))"
      using l by (auto simp: load_image_def Let_def split: prod.splits sum.splits if_splits option.splits)
    then show ?thesis using t Inr j2 by (simp add: job_updated insert_image_def Let_def)
  qed
qed


section \<open>Sample requests\<close>

definition sample_job :: load_job where
  "sample_job = \<lparr>lj_logs = [''Starting image load...''], lj_status = ''running'', lj_result = []\<rparr>"

definition sample_api :: "unit api" where
  "sample_api = \<lparr>ap_panel = sample_panel, ap_jobs = [(''1f'', sample_job)], ap_spawned = [], ap_restarts = 0\<rparr>"

definition sample_api_env :: api_env where
  "sample_api_env =
     \<lparr>ae_settings = \<lparr>as_live_tls_enabled = False, as_tls_configurable = False, as_domain_configured = False, as_http_port = 80,
        as_https_port = 443, as_api_port = 3001, as_admin_user = Some ''bob'', as_admin_password = Some ''pw''\<rparr>,
      ae_from_str = (\<lambda>t. Inl t), ae_db_text = (\<lambda>_. ''db''), ae_fs = sample_fs, ae_panel_dir = ''/panel'', ae_b64_decode = (\<lambda>_. None),
      ae_utf8_ok = (\<lambda>_. True), ae_hub = \<lparr>hub_get = Inl, hub_from_str = Inl\<rparr>, ae_now = 7, ae_job_id = ''2f'', ae_answer = (\<lambda>_. Elapsed)\<rparr>"

definition request_of :: "http_method \<Rightarrow> string \<Rightarrow> request" where
  "request_of m url = \<lparr>rq_method = m, rq_url = url, rq_headers = [], rq_body = None\<rparr>"

lemma sample_sound: "panel_inv (ap_panel sample_api)"
  by (simp add: sample_api_def sample_panel_inv)



theorem add_port_atomic_witness:
  "fst (post_port sample_api_env 1 (JObj [(''container_port'', JInt 81), (''route_path'', JStr ''/admin/x'')]) sample_api) = sample_api"
  using add_port_atomic [OF sample_sound, of "JObj [(''container_port'', JInt 81), (''route_path'', JStr ''/admin/x'')]" 1 sample_api_env]
  by (simp add: sample_api_def sample_defs)

theorem restart_forgets_reservations_witness:
  "\<exists>pl s row. pool_new (\<lambda>held p. if p \<in> set held then None else Some ()) ''9000-9001'' = Inr pl \<and> pn_pool (ap_panel s) = pl
     \<and> row \<in> set (bridge_ports (api_db (fst (post_port sample_api_env 2
          (JObj [(''container_port'', JInt 81), (''mode'', JStr ''port'')]) s))))
     \<and> bp_bridge_id row = 2 \<and> bp_pool_port row = Some 9000"
proof -
  obtain pl where pl: "pool_new (\<lambda>held p. if p \<in> set held then None else Some ()) ''9000-9001'' = Inr pl" "free pl = 9000 # [9001]"
    by (simp add: kdct_simps)
  let ?db = "insert_bridge 0 ''api'' install_db"
  let ?s = "set_db (fst ?db) (set_pool pl sample_api)"
  have rows: "sample_bridge_port \<in> set (bridge_ports (api_db ?s))" "bp_pool_port sample_bridge_port = Some (uint (9000 :: u16))"
    "bp_bridge_id sample_bridge_port \<noteq> 2" "new_port 2 81 (api_db ?s)"
    by (simp_all add: insert_bridge_def new_port_def sample_defs)
  have "pn_pool (ap_panel ?s) = pl" by simp
  from restart_forgets_reservations [OF pl this rows, of sample_api_env] pl(1) show ?thesis
    by (auto simp: sample_bridge_port_def intro!: exI [of _ ?s])
qed

theorem deleted_bridge_keeps_serving_witness:
  "9000 \<in> set (free (pn_pool (ap_panel (fst (delete_bridge_request sample_api_env 1 sample_api)))))"
  using deleted_bridge_keeps_serving [OF sample_sound, of sample_bridge_port 1 9000 sample_api_env]
  by (simp add: sample_api_def sample_defs pool_ports_def)

theorem api_dies_on_short_port_path_witness:
  "handle_request (sample_api_env\<lparr>ae_settings := (ae_settings sample_api_env)\<lparr>as_admin_user := None\<rparr>\<rparr>)
     (request_of Delete ''/admin/port/'') sample_api = None"
  using api_dies_on_short_port_path [of "sample_api_env\<lparr>ae_settings := (ae_settings sample_api_env)\<lparr>as_admin_user := None\<rparr>\<rparr>"
      "request_of Delete ''/admin/port/''" sample_api]
  by (simp add: request_of_def authorized_def path_no_query_def api_path_def strip_prefix_def)

theorem load_job_ends_witness:
  "\<exists>t w' j. run_load_job sample_host 7 ''1f'' ''redis'' None (sample_api, []) = (t, w') \<and> hm_get (ap_jobs t) ''1f'' = Some j
     \<and> lj_status j \<in> {''done'', ''error''}"
proof -
  have j: "hm_get (ap_jobs sample_api) ''1f'' = Some sample_job" by (simp add: sample_api_def)
  obtain t w' where r: "run_load_job sample_host 7 ''1f'' ''redis'' None (sample_api, []) = (t, w')" by fastforce
  from load_job_ends [OF j r] r show ?thesis by auto
qed

end
