(* ===== verification/Server_Start.thy ===== *)
theory Server_Start
  imports Startup Panel_Runs Client_Agent
begin

text \<open>
  The server from its start: \<^verbatim>\<open>start_server\<close> of \<^verbatim>\<open>crates/kdcts/src/main.rs\<close>, which puts the parts together, the reading of a certificate's expiry and the
  renewal task of \<^verbatim>\<open>acme.rs\<close>, and the listeners of \<^verbatim>\<open>run_proxy\<close> in \<^verbatim>\<open>proxy.rs\<close>; and the entry points of the tunnel crate, \<^verbatim>\<open>lib.rs\<close>, with those of
  the client executable. Files are a map from paths to contents; parsing of TOML, base64 and X.509 are parameters.
\<close>

section \<open>Certificates on disk\<close>

definition BEGIN_CERT :: string where "BEGIN_CERT = ''-----BEGIN CERTIFICATE-----''"
definition END_CERT :: string where "END_CERT = ''-----END CERTIFICATE-----''"

text \<open>The index of the first occurrence, \<^verbatim>\<open>str::find\<close>.\<close>

fun find_str :: "string \<Rightarrow> string \<Rightarrow> nat option" where
  "find_str pat [] = (if pat = [] then Some 0 else None)"
| "find_str pat (c # cs) = (if prefix pat (c # cs) then Some 0 else map_option Suc (find_str pat cs))"

text \<open>
  The first certificate in a PEM text, as the bytes base64 decodes to. The slice between the markers panics when the end marker begins before the begin
  marker is over, which is the outer \<^const>\<open>None\<close>. \<open>ws\<close> is \<^verbatim>\<open>char::is_whitespace\<close> on the text's characters.
\<close>

definition first_cert_pem_to_der ::
  "(char \<Rightarrow> bool) \<Rightarrow> (string \<Rightarrow> bytes option) \<Rightarrow> string \<Rightarrow> bytes option option" where
  "first_cert_pem_to_der ws base64 pem =
     (case find_str BEGIN_CERT pem of
        None \<Rightarrow> Some None
      | Some start \<Rightarrow>
          (let after_begin = drop start pem in
           case find_str END_CERT after_begin of
             None \<Rightarrow> Some None
           | Some e \<Rightarrow>
               if e < length BEGIN_CERT then None
               else Some (base64 (filter (\<lambda>c. \<not> ws c) (drop (length BEGIN_CERT) (take e after_begin))))))"

record x509 =
  x_utf8 :: "string \<Rightarrow> string option"
  x_ws :: "char \<Rightarrow> bool"
  x_base64 :: "string \<Rightarrow> bytes option"
  x_not_after :: "bytes \<Rightarrow> int option"

text \<open>The expiry of the certificate in a file: \<^const>\<open>None\<close> is a panic, \<^term>\<open>Some None\<close> a file that is missing or unreadable.\<close>

definition cert_expiry :: "x509 \<Rightarrow> string option \<Rightarrow> int option option" where
  "cert_expiry x content =
     (case Option.bind content (x_utf8 x) of
        None \<Rightarrow> Some None
      | Some pem \<Rightarrow> map_option (\<lambda>der. Option.bind der (x_not_after x)) (first_cert_pem_to_der (x_ws x) (x_base64 x) pem))"

section \<open>The renewal task\<close>

text \<open>
  One day after the other: the time, the service's answers and whether the state directory can be made. The task ends by restarting the process after a successful
  renewal, or by a panic; otherwise it goes on.
\<close>

datatype renewal_end = RenewalRestarts | RenewalPanics | RenewalGoesOn

fun renewal_task :: "x509 \<Rightarrow> acme_manager \<Rightarrow> (int \<times> acme_service \<times> bool) list \<Rightarrow> acme_world \<Rightarrow> acme_world \<times> renewal_end" where
  "renewal_task x m [] w = (w, RenewalGoesOn)"
| "renewal_task x m ((now, sv, dir_ok) # days) w =
     (case cert_expiry x (hm_get (aw_files w) (cert_path m)) of
        None \<Rightarrow> (w, RenewalPanics)
      | Some not_after \<Rightarrow>
          if \<not> cert_needs_issue_or_renew not_after now then renewal_task x m days w
          else
            (case obtain_or_renew m sv dir_ok (\<lambda>_. False) None w of
               (w, Inr _) \<Rightarrow> (w, RenewalRestarts)
             | (w, Inl e) \<Rightarrow> renewal_task x m days w))"

section \<open>The proxy's listeners\<close>

datatype listener = PlainProxy u16 | TlsProxy u16 string string | HttpsRedirect u16 u16

text \<open>Pingora may refuse the certificate files (\<open>tls_ok\<close>); then the proxy ends with an error, which is logged, and nothing listens.\<close>

definition run_proxy :: "(string \<Rightarrow> string \<Rightarrow> bool) \<Rightarrow> u16 \<Rightarrow> u16 \<Rightarrow> (string \<times> string) option \<Rightarrow> listener list" where
  "run_proxy tls_ok http_port https_port tls =
     (case tls of
        Some (cert, key) \<Rightarrow>
          if tls_ok cert key then [TlsProxy https_port cert key, HttpsRedirect http_port https_port] else []
      | None \<Rightarrow> [PlainProxy http_port])"

section \<open>Starting the server\<close>

text \<open>What starting depends on beside the files and the database.\<close>

record 'l boot =
  bt_read_file :: "string \<Rightarrow> string option"
  bt_toml :: "string \<Rightarrow> config option"
  bt_cwd :: "string option"
  bt_now :: int
  bt_x509 :: x509
  bt_acme :: acme_service
  bt_dir_ok :: bool
  bt_bind_http :: "u16 \<Rightarrow> bool"
  bt_tls_ok :: "string \<Rightarrow> string \<Rightarrow> bool"
  bt_new_uuid :: "nat \<Rightarrow> string"
  bt_bind :: "u16 list \<Rightarrow> u16 \<Rightarrow> 'l option"

record 'l started =
  sr_server :: "'l server"
  sr_tunnel :: tunnel
  sr_settings :: api_settings
  sr_proxy :: proxy_config
  sr_listeners :: "listener list"
  sr_renewal :: "acme_manager option"

datatype start_error =
    StartConfig config_error
  | MissingServerSection
  | StartDatabase db_error
  | StartPanics
  | StartPool pool_error

text \<open>Obtaining a certificate before the proxy binds; \<^const>\<open>None\<close> is a panic.\<close>

definition issue_at_start :: "'l boot \<Rightarrow> server_config \<Rightarrow> acme_manager option \<Rightarrow> acme_world \<Rightarrow> acme_world option" where
  "issue_at_start b sc mgr w =
     (case mgr of
        None \<Rightarrow> Some w
      | Some m \<Rightarrow>
          map_option
            (\<lambda>not_after.
               if cert_needs_issue_or_renew not_after (bt_now b)
               then fst (obtain_or_renew m (bt_acme b) (bt_dir_ok b) (bt_bind_http b) (Some (sc_http_port sc)) w)
               else w)
            (cert_expiry (bt_x509 b) (hm_get (aw_files w) (cert_path m))))"

definition settings_of :: "server_config \<Rightarrow> tls_decision \<Rightarrow> api_settings" where
  "settings_of sc td =
     \<lparr>as_live_tls_enabled = td_live td, as_tls_configurable = td_configurable td, as_domain_configured = (sc_domain sc \<noteq> None),
      as_http_port = sc_http_port sc, as_https_port = sc_https_port sc, as_api_port = sc_api_port sc,
      as_admin_user = sc_admin_user sc, as_admin_password = sc_admin_password sc\<rparr>"

definition fresh_panel :: "database \<Rightarrow> 'l port_pool \<Rightarrow> 'l panel" where
  "fresh_panel db pool =
     \<lparr>pn_db = db, pn_registry = new_registry, pn_channels = (\<lambda>_. \<lparr>ch_alive = False, ch_sent = [], ch_pending = []\<rparr>),
      pn_routes = rt_new, pn_pool = pool, pn_tracker = new_tracker, pn_forwards = [], pn_next_tx = 0\<rparr>"

definition start_server ::
  "'l boot \<Rightarrow> string \<Rightarrow> database \<Rightarrow> acme_world \<Rightarrow> database \<times> acme_world \<times> (start_error + 'l started)" where
  "start_server b path db w =
     (case config_from_file (bt_read_file b) (bt_toml b) path of
        Inl e \<Rightarrow> (db, w, Inl (StartConfig e))
      | Inr config \<Rightarrow>
     (case cf_server config of
        None \<Rightarrow> (db, w, Inl MissingServerSection)
      | Some sc \<Rightarrow>
     (case migrate (bt_new_uuid b) db of
        (db, Inl e) \<Rightarrow> (db, w, Inl (StartDatabase e))
      | (db, Inr _) \<Rightarrow>
      (let mgr = choose_manager (bt_cwd b) (sc_domain sc) (effective_acme db (sc_acme sc)) in
     (case issue_at_start b sc mgr w of
        None \<Rightarrow> (db, w, Inl StartPanics)
      | Some w \<Rightarrow>
     (case resolve_tls (\<lambda>p. hm_get (aw_files w) p \<noteq> None) sc mgr db of
        (td, db) \<Rightarrow>
     (case pool_new (bt_bind b) (sc_port_pool sc) of
        Inl e \<Rightarrow> (db, w, Inl (StartPool e))
      | Inr pool \<Rightarrow>
          (let db = mark_all_offline db in
           (db, w, Inr
             \<lparr>sr_server = \<lparr>sv_panel = fresh_panel db pool, sv_docker_results = []\<rparr>,
              sr_tunnel = server_from (load_bindings db),
              sr_settings = settings_of sc td,
              sr_proxy = \<lparr>domain = sc_domain sc, api_port = sc_api_port sc\<rparr>,
              sr_listeners = run_proxy (bt_tls_ok b) (sc_http_port sc) (sc_https_port sc) (td_proxy td),
              sr_renewal = (if td_live td then mgr else None)\<rparr>)))))))))"

lemmas start_defs = start_server_def issue_at_start_def fresh_panel_def settings_of_def

lemmas [kdct_simps] = BEGIN_CERT_def END_CERT_def first_cert_pem_to_der_def cert_expiry_def run_proxy_def start_defs

section \<open>The tunnel crate's entry points\<close>

datatype run_error =
    RunConfig config_error
  | NoServerBlock
  | NoClientBlock
  | ClientRefused string
  | NoDocker string
  | RunPanics string

datatype ('a, 'b) running = RunsServer 'a | RunsClient 'b

definition run_server :: "config \<Rightarrow> run_error + tunnel" where
  "run_server config =
     (case cf_server config of None \<Rightarrow> Inl NoServerBlock | Some sc \<Rightarrow> Inr (server_from new_bindings))"

definition run_client ::
  "(bytes \<Rightarrow> digest) \<Rightarrow> 'w host \<Rightarrow> config \<Rightarrow> 'w \<Rightarrow> run_error + (string, digest \<times> agent) hmap" where
  "run_client dig h config w =
     (case cf_client config of
        None \<Rightarrow> Inl NoClientBlock
      | Some cc \<Rightarrow> (case client_run dig h cc w of Inl e \<Rightarrow> Inl (ClientRefused e) | Inr hs \<Rightarrow> Inr hs))"

definition run_instance ::
  "(bytes \<Rightarrow> digest) \<Rightarrow> 'w host \<Rightarrow> config \<Rightarrow> cli \<Rightarrow> 'w \<Rightarrow> run_error + (tunnel, (string, digest \<times> agent) hmap) running" where
  "run_instance dig h config args w =
     (case determine_run_mode config args of
        Undetermine \<Rightarrow> Inl (RunPanics ''Cannot determine running as a server or a client'')
      | ModeClient \<Rightarrow> (case run_client dig h config w of Inl e \<Rightarrow> Inl e | Inr hs \<Rightarrow> Inr (RunsClient hs))
      | ModeServer \<Rightarrow> (case run_server config of Inl e \<Rightarrow> Inl e | Inr t \<Rightarrow> Inr (RunsServer t)))"

definition run_tunnel ::
  "(bytes \<Rightarrow> digest) \<Rightarrow> 'w host \<Rightarrow> (string \<Rightarrow> string option) \<Rightarrow> (string \<Rightarrow> config option) \<Rightarrow> cli \<Rightarrow> 'w
     \<Rightarrow> run_error + (tunnel, (string, digest \<times> agent) hmap) running" where
  "run_tunnel dig h read_file toml args w =
     (case cli_config_path args of
        None \<Rightarrow> Inl (RunPanics ''called `Option::unwrap()` on a `None` value'')
      | Some path \<Rightarrow>
          (case config_from_file read_file toml path of
             Inl e \<Rightarrow> Inl (RunConfig e)
           | Inr config \<Rightarrow> run_instance dig h config args w))"

text \<open>The client executable.\<close>

definition kdctc_main ::
  "(bytes \<Rightarrow> digest) \<Rightarrow> 'w host \<Rightarrow> (string \<Rightarrow> string option) \<Rightarrow> (string \<Rightarrow> config option) \<Rightarrow> string \<Rightarrow> 'w
     \<Rightarrow> run_error + (tunnel, (string, digest \<times> agent) hmap) running" where
  "kdctc_main dig h read_file toml config w =
     (case check_docker h w of
        (w, Inl e) \<Rightarrow> Inl (NoDocker e)
      | (w, Inr _) \<Rightarrow>
          run_tunnel dig h read_file toml \<lparr>cli_config_path = Some config, cli_server = False, cli_client = True\<rparr> w)"

lemmas [kdct_simps] = run_server_def run_client_def run_instance_def run_tunnel_def kdctc_main_def

section \<open>The state the server starts in\<close>

lemma resolve_tls_db:
  "snd (resolve_tls is_file sc mgr db) = db \<or> snd (resolve_tls is_file sc mgr db) = set_setting ''tls_enabled'' ''true'' db"
  by (simp add: resolve_tls_def Let_def split: prod.splits)

text \<open>A start that succeeds went through every stage.\<close>

lemma started_cases:
  assumes "start_server b path db w = (db', w', Inr st)"
  obtains config sc db1 mgr td db2 pool where
    "config_from_file (bt_read_file b) (bt_toml b) path = Inr config" "cf_server config = Some sc"
    "migrate (bt_new_uuid b) db = (db1, Inr ())" "mgr = choose_manager (bt_cwd b) (sc_domain sc) (effective_acme db1 (sc_acme sc))"
    "issue_at_start b sc mgr w = Some w'"
    "resolve_tls (\<lambda>p. hm_get (aw_files w') p \<noteq> None) sc mgr db1 = (td, db2)" "pool_new (bt_bind b) (sc_port_pool sc) = Inr pool"
    "db' = mark_all_offline db2" "sr_server st = \<lparr>sv_panel = fresh_panel db' pool, sv_docker_results = []\<rparr>"
    "sr_tunnel st = server_from (load_bindings db')" "sr_settings st = settings_of sc td"
    "sr_listeners st = run_proxy (bt_tls_ok b) (sc_http_port sc) (sc_https_port sc) (td_proxy td)" "sr_renewal st = (if td_live td then mgr else None)"
  using assms unfolding start_server_def
  by (auto simp: Let_def split: sum.splits option.splits prod.splits)

lemma hm_wf_load_bindings: "hm_wf (load_bindings db)"
proof -
  have "hm_wf m \<Longrightarrow> hm_wf (fold (\<lambda>(u, d). hm_insert u d) kvs m)" for kvs and m :: "(string, string) hmap"
    by (induction kvs arbitrary: m) (auto simp: distinct_update)
  then show ?thesis by (simp add: load_bindings_def)
qed

text \<open>
  C21. The server starts in a consistent state: whatever database it finds, after the start the tables are consistent and every node has an identity and is offline, every
  port of the pool is free, no client is registered and nothing is routed, and the identities the tunnel knows
  are exactly the stored ones with their digests.
\<close>

theorem server_starts_consistent:
  assumes start: "start_server b path db w = (db', w', Inr st)"
    and db: "db_wf db" "inj (bt_new_uuid b)" "\<forall>k. Some (bt_new_uuid b k) \<notin> nd_node_uuid ` set (client_nodes db)"
  defines "p \<equiv> sv_panel (sr_server st)"
  shows "panel_inv p \<and> pn_db p = db' \<and> all_named db' \<and> (\<forall>n \<in> set (client_nodes db'). nd_status n = ''offline'')
    \<and> assigned (pn_pool p) = {} \<and> pn_registry p = [] \<and> tn_registry (sr_tunnel st) = []
    \<and> (\<forall>q. rt_resolve (pn_routes p) q = None) \<and> tunnel_inv env (sr_tunnel st)
    \<and> (\<forall>u d. hm_get (tn_bindings (sr_tunnel st)) u = Some d \<longleftrightarrow> (\<exists>n. get_node_by_uuid u db' = Some n \<and> nd_auth_digest n = Some d))"
  using start
proof (rule started_cases)
  fix config sc db1 mgr td db2 pool
  assume m: "migrate (bt_new_uuid b) db = (db1, Inr ())" and tls: "resolve_tls (\<lambda>p. hm_get (aw_files w') p \<noteq> None) sc mgr db1 = (td, db2)"
    and pool: "pool_new (bt_bind b) (sc_port_pool sc) = Inr pool" and db': "db' = mark_all_offline db2"
    and sv: "sr_server st = \<lparr>sv_panel = fresh_panel db' pool, sv_docker_results = []\<rparr>" and tn: "sr_tunnel st = server_from (load_bindings db')"
  have "opened db1" using db m by (auto simp: opened_def)
  moreover have "db_step\<^sup>*\<^sup>* db1 db2"
    using resolve_tls_db [of "\<lambda>p. hm_get (aw_files w') p \<noteq> None" sc mgr db1] tls db_step.intros(1) by auto
  then have "db_step\<^sup>*\<^sup>* db1 db'" unfolding db' using db_step.intros(14) by (rule rtranclp.rtrancl_into_rtrancl)
  ultimately have wf: "db_wf db'" "all_named db'" using db_run.steps_inv [of db1 db'] opened_migrated by blast+
  have off: "\<forall>n \<in> set (client_nodes db'). nd_status n = ''offline''" by (auto simp: db' mark_all_offline_def)
  have "pool_inv pool" "assigned pool = {}"
    using pool_inv_new [OF pool] pool by (auto simp: pool_new_def assigned_def split: sum.splits if_splits)
  moreover have "tunnel_inv env (sr_tunnel st)"
    using tunnel.inv_init [of "load_bindings db'"] hm_wf_load_bindings sample_init by (simp add: tn)
  ultimately show ?thesis
    using wf off load_bindings_exact [OF wf(1)] rt_inv_new
    by (simp add: p_def sv tn fresh_panel_def panel_inv_def new_registry_def new_tracker_def server_from_def rt_resolve_def rt_new_def)
qed

section \<open>What a restart loses\<close>

lemma handle_update_quiet:
  assumes inv: "sync_inv s" and up: "\<And>h. nu_event u \<noteq> Disconnected h"
  shows "sync_inv (handle_update f now u s) \<and> connections (pn_db (sv_panel (handle_update f now u s))) = connections (pn_db (sv_panel s))
    \<and> (\<exists>db. sv_panel (handle_update f now u s) = (sv_panel s)\<lparr>pn_db := db\<rparr>)"
proof (cases "nu_event u")
  case (Connected i)
  have h: "handle_update f now u s = sync_up f (nu_uuid u) (now, i) s"
    by (simp add: sync_up_def handle_update_def Connected)
  have live: "live_db (pn_db (sv_panel s))" using inv by (simp add: sync_inv_def)
  have p: "sv_panel (handle_update f now u s) = (sv_panel s)\<lparr>pn_db := fst (upsert_node now (nu_uuid u) (nc_service_digest i) (connected_columns i) (pn_db (sv_panel s)))\<rparr>"
    by (simp add: handle_update_def Connected sync_connected_live [OF live] node_connected_def)
  have "connections (fst (upsert_node now (nu_uuid u) (nc_service_digest i) (connected_columns i) db)) = connections db" for db
    by (simp add: upsert_node_def Let_def)
  then show ?thesis using sync_inv_up [OF inv, of f "nu_uuid u" "(now, i)"] p unfolding h [symmetric] by auto
next
  case (Disconnected h)
  then show ?thesis using up by blast
qed (use inv in \<open>auto simp: handle_update_def sync_inv_def intro: exI [of _ "pn_db (sv_panel s)"]\<close>)

lemma run_updates_quiet:
  assumes "sync_inv s" "\<forall>(now, u) \<in> set us. \<forall>h. nu_event u \<noteq> Disconnected h"
  shows "sync_inv (run_updates f us s) \<and> connections (pn_db (sv_panel (run_updates f us s))) = connections (pn_db (sv_panel s))
    \<and> (\<exists>db. sv_panel (run_updates f us s) = (sv_panel s)\<lparr>pn_db := db\<rparr>)"
  using assms
proof (induction us arbitrary: s)
  case Nil
  then show ?case by (auto simp: run_updates_def intro: exI [of _ "pn_db (sv_panel s)"])
next
  case (Cons x us)
  obtain now u where x: "x = (now, u)" by (cases x)
  have up: "\<And>h. nu_event u \<noteq> Disconnected h" using Cons.prems(2) x by auto
  note q = handle_update_quiet [OF Cons.prems(1) up, of f now]
  with Cons.IH [of "handle_update f now u s"] Cons.prems(2) show ?case by (auto simp: run_updates_def x)
qed

lemma started_live:
  assumes start: "start_server b path db w = (db', w', Inr st)" and live: "live_db db"
  shows "sync_inv (sr_server st)" "connections db' = connections db" "\<exists>pool. sv_panel (sr_server st) = fresh_panel db' pool"
proof -
  from start show "sync_inv (sr_server st)" "connections db' = connections db" "\<exists>pool. sv_panel (sr_server st) = fresh_panel db' pool"
  proof (atomize (full), rule started_cases, intro conjI)
    fix config sc db1 mgr td db2 pool
    assume m: "migrate (bt_new_uuid b) db = (db1, Inr ())" and tls: "resolve_tls (\<lambda>p. hm_get (aw_files w') p \<noteq> None) sc mgr db1 = (td, db2)"
      and pool: "pool_new (bt_bind b) (sc_port_pool sc) = Inr pool" and db': "db' = mark_all_offline db2"
      and sv: "sr_server st = \<lparr>sv_panel = fresh_panel db' pool, sv_docker_results = []\<rparr>"
    have db1: "db1 = db" using m live migrate_live by (simp add: live_db_def)
    have db2: "db2 = db \<or> db2 = set_setting ''tls_enabled'' ''true'' db"
      using resolve_tls_db [of "\<lambda>p. hm_get (aw_files w') p \<noteq> None" sc mgr db1] tls db1 by simp
    have wf: "db_wf db'" using db2 live by (auto simp: db' live_db_def intro: db_wf_mark_all_offline db_wf_set_setting)
    have "all_named db' \<and> client_nodes_schema db' = client_nodes_schema db"
      using db2 live by (auto simp: db' live_db_def all_named_def mark_all_offline_def set_setting_def)
    with wf have "live_db db'" using live by (simp add: live_db_def)
    then show "sync_inv (sr_server st)"
      using pool_inv_new [OF pool] rt_inv_new by (simp add: sv sync_inv_def panel_inv_def live_db_def fresh_panel_def new_registry_def new_tracker_def)
    show "connections db' = connections db" using db2 by (auto simp: db' mark_all_offline_def set_setting_def)
    show "\<exists>pool. sv_panel (sr_server st) = fresh_panel db' pool" using sv by auto
  qed
qed

text \<open>
  C39. A restart strands what was deployed. Connections stored as deployed keep that status over a restart, while routes, forwards and the record of deployments start empty;
  only pending connections are deployed automatically. Until its node is reported as disconnected again, however many nodes connect, such a
  connection is shown as deployed, is reachable by no route and no port, and is passed over by every automatic check.
\<close>

theorem restart_strands_deployments:
  fixes f :: "nat \<Rightarrow> string"
  assumes start: "start_server b path db w = (db', w', Inr st)" and live: "live_db db"
    and conn: "get_connection cid db = Some cv" "cn_status (cv_row cv) = ''deployed''"
    and us: "\<forall>(now, u) \<in> set us. \<forall>h. nu_event u \<noteq> Disconnected h"
  defines "p \<equiv> sv_panel (run_updates f us (sr_server st))"
  shows "(\<exists>cv'. get_connection cid (pn_db p) = Some cv' \<and> cn_status (cv_row cv') = ''deployed'')
    \<and> try_auto_deploy ans cid p = p \<and> cid \<notin> set (get_connectable_connections (pn_db p))
    \<and> (\<forall>q. rt_resolve (pn_routes p) q = None) \<and> pn_tracker p = [] \<and> pn_forwards p = []"
proof -
  note st = started_live [OF start live]
  obtain pool where pool: "sv_panel (sr_server st) = fresh_panel db' pool" using st(3) by blast
  note q = run_updates_quiet [OF st(1) us, of f]
  obtain d where d: "p = (sv_panel (sr_server st))\<lparr>pn_db := d\<rparr>" using q p_def by blast
  have conns: "connections (pn_db p) = connections db" using q st(2) pool by (simp add: p_def fresh_panel_def)
  obtain c where c: "find (\<lambda>c. cn_id c = cid) (connections db) = Some c" "cv_row cv = c"
    using conn(1) by (auto simp: get_connection_def join_connection_def Let_def)
  have row: "get_connection cid (pn_db p) = Some (join_connection (pn_db p) c)" "cn_status (cv_row (join_connection (pn_db p) c)) = ''deployed''"
    using c conn(2) by (simp_all add: get_connection_def conns join_connection_def Let_def)
  have keys: "distinct (map cn_id (connections db))" using live by (simp add: live_db_def db_wf_defs rows_wf_def)
  have "c \<in> set (connections db)" "cn_id c = cid" using find_Some_set [OF c(1)] by simp_all
  then have "c' = c" if "c' \<in> set (connections db)" "cn_id c' = cid" for c'
    using keys that by (metis distinct_map inj_onD)
  then have "cid \<notin> set (get_connectable_connections (pn_db p))"
    using c(2) conn(2) by (auto simp: get_connectable_connections_def conns)
  moreover have "try_auto_deploy ans cid p = p" using row by (simp add: try_auto_deploy_def)
  ultimately show ?thesis
    using row by (auto simp: d pool fresh_panel_def rt_resolve_def rt_new_def new_tracker_def)
qed

text \<open>
  If the first certificate cannot be had, it is not tried again: with automatic certificates on and no certificate on disk after the attempt at start-up, the server
  serves plain HTTP and starts no renewal task.
\<close>

theorem failed_issuance_not_retried:
  assumes start: "start_server b path db w = (db', w', Inr st)"
    and config: "config_from_file (bt_read_file b) (bt_toml b) path = Inr config" "cf_server config = Some sc"
      "migrate (bt_new_uuid b) db = (db1, Inr ())"
    and acme: "choose_manager (bt_cwd b) (sc_domain sc) (effective_acme db1 (sc_acme sc)) = Some m"
    and missing: "hm_get (aw_files w') (cert_path m) = None"
  shows "sr_renewal st = None \<and> sr_listeners st = [PlainProxy (sc_http_port sc)] \<and> \<not> as_live_tls_enabled (sr_settings st)"
  using start
proof (rule started_cases)
  fix config' sc' db1' mgr td db2 pool
  assume "config_from_file (bt_read_file b) (bt_toml b) path = Inr config'" "cf_server config' = Some sc'"
    "migrate (bt_new_uuid b) db = (db1', Inr ())" "mgr = choose_manager (bt_cwd b) (sc_domain sc') (effective_acme db1' (sc_acme sc'))"
  then have eq: "sc' = sc" "db1' = db1" "mgr = Some m" using config acme by auto
  assume "resolve_tls (\<lambda>p. hm_get (aw_files w') p \<noteq> None) sc' mgr db1' = (td, db2)"
  then have "\<not> td_live td \<and> td_proxy td = None"
    using missing by (auto simp: eq resolve_tls_def effective_paths_def Let_def)
  moreover assume "sr_settings st = settings_of sc' td" "sr_renewal st = (if td_live td then mgr else None)"
    "sr_listeners st = run_proxy (bt_tls_ok b) (sc_http_port sc') (sc_https_port sc') (td_proxy td)"
  ultimately show ?thesis by (simp add: eq settings_of_def run_proxy_def)
qed

section \<open>Renewal\<close>

text \<open>
  C36. The renewal task restarts the server only with a new certificate: when it does, certificate and key on disk are the pair issued on one of the days. As long as it goes on,
  and unless a key could not be written or time ran out during the writing, both files are what they were.
\<close>

theorem renewal_restarts_with_new_pair:
  assumes "renewal_task x m days w = (w', e)"
  shows "(e = RenewalRestarts \<longrightarrow> (\<exists>(now, sv, dir_ok) \<in> set days. issued m sv w'))
    \<and> (e \<noteq> RenewalRestarts \<longrightarrow> (\<forall>(now, sv, dir_ok) \<in> set days. writes_pair m sv) \<longrightarrow> same_pair m w w')"
  using assms
proof (induction x m days w rule: renewal_task.induct)
  case (2 x m now sv dir_ok days w)
  show ?case
  proof (cases "\<exists>not_after. cert_expiry x (hm_get (aw_files w) (cert_path m)) = Some not_after \<and> cert_needs_issue_or_renew not_after now")
    case False
    then show ?thesis using 2 by (cases "cert_expiry x (hm_get (aw_files w) (cert_path m))") (auto simp: same_pair_def)
  next
    case True
    then obtain not_after where na: "cert_expiry x (hm_get (aw_files w) (cert_path m)) = Some not_after" "cert_needs_issue_or_renew not_after now"
      by blast
    obtain w1 r where o: "obtain_or_renew m sv dir_ok (\<lambda>_. False) None w = (w1, r)" by fastforce
    note f = obtain_or_renew_files [OF o]
    show ?thesis
    proof (cases r)
      case (Inr u)
      then have "w' = w1" "e = RenewalRestarts" using "2.prems" na o by auto
      then show ?thesis using f Inr by (cases u) auto
    next
      case (Inl err)
      then have rest: "renewal_task x m days w1 = (w', e)" using "2.prems" na o by simp
      have "same_pair m w w1" if "writes_pair m sv" using f Inl that by simp
      with "2.IH"(2) [OF na(1) _ o [symmetric] Inl rest] na(2) show ?thesis by (auto simp: same_pair_def)
    qed
  qed
qed (simp add: same_pair_def)

text \<open>
  With certificate files that Pingora refuses, such as a pair that does not match, the server comes up without any listener of the proxy, while the panel's settings say that TLS is live.
\<close>

theorem refused_certificate_leaves_no_proxy:
  assumes "start_server b path db w = (db', w', Inr st)" "as_live_tls_enabled (sr_settings st)" "\<And>c k. \<not> bt_tls_ok b c k"
  shows "sr_listeners st = []"
  using assms(1)
proof (rule started_cases)
  fix config sc db1 mgr td db2 pool
  assume "resolve_tls (\<lambda>p. hm_get (aw_files w') p \<noteq> None) sc mgr db1 = (td, db2)" "sr_settings st = settings_of sc td"
    "sr_listeners st = run_proxy (bt_tls_ok b) (sc_http_port sc) (sc_https_port sc) (td_proxy td)"
  then show ?thesis
    using assms(2,3) by (auto simp: run_proxy_def settings_of_def resolve_tls_def Let_def split: option.splits prod.splits if_splits)
qed

text \<open>
  Reading a certificate panics on one kind of file only: the end marker begins in the dashes that end the begin marker.
\<close>

lemma prefix_find_str: "prefix pat s \<Longrightarrow> find_str pat s = Some 0"
  by (cases s) auto

theorem pem_reading_panics:
  "first_cert_pem_to_der ws base64 (BEGIN_CERT @ drop 5 END_CERT) = None"
  "first_cert_pem_to_der ws base64 (BEGIN_CERT @ END_CERT) = Some (base64 [])"
  by (simp_all add: first_cert_pem_to_der_def BEGIN_CERT_def END_CERT_def)

section \<open>Executables\<close>

lemma fold_insert_keys: "hm_keys (fold (\<lambda>(n, c). hm_insert n (f n c)) l m) = hm_keys m \<union> fst ` set l"
  by (induction l arbitrary: m) (simp_all add: case_prod_unfold)

text \<open>
  The client executable runs as a client and nothing else, whatever sections the configuration has: if it runs, Docker answered, the configuration has a client section
  with services, and every service has its channel; otherwise it reports an error and does not panic.
\<close>

theorem kdctc_runs_client:
  "case kdctc_main dig h read_file toml path w of
     Inr r \<Rightarrow> \<exists>config cc hs. snd (check_docker h w) = Inr () \<and> config_from_file read_file toml path = Inr config
       \<and> cf_client config = Some cc \<and> cc_services cc \<noteq> [] \<and> r = RunsClient hs \<and> hm_keys hs = hm_keys (cc_services cc)
   | Inl e \<Rightarrow> \<forall>m. e \<noteq> RunPanics m"
proof -
  have hs: "hm_keys hs = hm_keys (cc_services cc) \<and> cc_services cc \<noteq> []" if "client_run dig h cc w = Inr hs" for cc w hs
    using that fold_insert_keys [of "\<lambda>n cfg. (dig (map of_char (cs_name cfg)), agent_new h cfg w)" "cc_services cc" "[]"]
    by (auto simp: client_run_def Let_def split: if_splits)
  show ?thesis
    using hs by (auto simp: kdctc_main_def run_tunnel_def run_instance_def determine_run_mode_def run_client_def
        split: prod.splits sum.splits option.splits)
qed

section \<open>Sample runs\<close>

definition boot_config :: server_config where
  "boot_config =
     \<lparr>sc_bind_addr = ''0.0.0.0:2333'', sc_default_token = MaskedString ''t'', sc_services = [],
      sc_transport = \<lparr>tr_transport_type = TcpTransport, tr_tcp = tcp_config_default\<rparr>, sc_heartbeat_interval = 30,
      sc_port_pool = ''9000'', sc_domain = Some ''d'', sc_http_port = 80, sc_https_port = 443, sc_api_port = 9933,
      sc_tls_cert_path = None, sc_tls_key_path = None, sc_admin_user = None, sc_admin_password = None,
      sc_acme = Some \<lparr>ac_enabled = True, ac_email = Some ''e'', ac_directory_url = None, ac_staging = False, ac_state_dir = Some ''/s''\<rparr>\<rparr>"

definition sample_acme :: acme_service where
  "sample_acme = \<lparr>acme_account = None, acme_account_restored = False, acme_order = False, acme_authorizations = [],
     acme_statuses = [], acme_key = None, acme_certificates = [], acme_writable = (\<lambda>_. True), acme_late = (\<lambda>_. False)\<rparr>"

definition sample_x509 :: x509 where
  "sample_x509 = \<lparr>x_utf8 = Some, x_ws = (\<lambda>c. c = CHR '' ''), x_base64 = (\<lambda>_. None), x_not_after = (\<lambda>_. None)\<rparr>"

definition sample_boot :: "unit boot" where
  "sample_boot =
     \<lparr>bt_read_file = (\<lambda>_. Some ''x''), bt_toml = (\<lambda>_. Some \<lparr>cf_server = Some boot_config, cf_client = None\<rparr>), bt_cwd = None,
      bt_now = 0, bt_x509 = sample_x509, bt_acme = sample_acme, bt_dir_ok = True, bt_bind_http = (\<lambda>_. True), bt_tls_ok = (\<lambda>_ _. True),
      bt_new_uuid = (\<lambda>k. replicate k (CHR ''u'')), bt_bind = (\<lambda>held p. Some ())\<rparr>"

definition deployed_db :: database where
  "deployed_db = install_db\<lparr>connections := [sample_connection\<lparr>cn_status := ''deployed''\<rparr>]\<rparr>"

definition sample_manager :: acme_manager where
  "sample_manager = \<lparr>am_domain = ''d'', am_email = ''e'', am_directory_url = LE_DIRECTORY_PROD, am_state_dir = ''/s''\<rparr>"

definition no_files :: acme_world where
  "no_files = \<lparr>aw_files = [], aw_challenges = []\<rparr>"

lemma deployed_live: "live_db deployed_db"
  by (simp add: live_db_def all_named_def db_wf_defs deployed_db_def sample_defs List.map_filter_simps rows_wf_def refs_ok_def)

lemma sample_config: "config_from_file (bt_read_file sample_boot) (bt_toml sample_boot) ''server.toml'' =
   Inr \<lparr>cf_server = Some boot_config, cf_client = None\<rparr>"
  by (simp add: sample_boot_def config_from_file_def config_from_str_def validate_server_config_def boot_config_def)

lemma sample_choice: "choose_manager None (sc_domain boot_config) (effective_acme deployed_db (sc_acme boot_config)) = Some sample_manager"
  by (simp add: choose_manager_def effective_acme_def get_setting_def deployed_db_def install_db_def empty_db_def boot_config_def acme_from_config_def
      sample_manager_def path_absolute_def Let_def kdct_simps)

lemma sample_paths: "cert_path sample_manager = ''/s/cert.pem'' \<and> key_path sample_manager = ''/s/key.pem'' \<and> account_path sample_manager = ''/s/account.json''"
  by (simp add: sample_manager_def cert_path_def key_path_def account_path_def path_join_def path_absolute_def)

lemma sample_issue: "issue_at_start sample_boot boot_config (Some sample_manager) no_files = Some no_files"
  by (simp add: issue_at_start_def sample_boot_def no_files_def cert_expiry_def cert_needs_issue_or_renew_def cert_days_remaining_def
      obtain_or_renew_def run_acme_flow_def load_account_def sample_acme_def)

lemma sample_tls: "resolve_tls (\<lambda>p. hm_get (aw_files no_files) p \<noteq> None) boot_config (Some sample_manager) deployed_db =
   (\<lparr>td_configurable = False, td_live = False, td_proxy = None\<rparr>, deployed_db)"
  by (simp add: resolve_tls_def effective_paths_def no_files_def Let_def get_setting_def deployed_db_def install_db_def empty_db_def)

lemma sample_started:
  "\<exists>st. start_server sample_boot ''server.toml'' deployed_db no_files = (mark_all_offline deployed_db, no_files, Inr st)"
proof -
  have "\<exists>pool. pool_new (bt_bind sample_boot) ''9000'' = Inr pool"
    by (simp add: sample_boot_def kdct_simps)
  then obtain pool where pool: "pool_new (bt_bind sample_boot) (sc_port_pool boot_config) = Inr pool"
    by (auto simp: boot_config_def)
  have m: "migrate (bt_new_uuid sample_boot) deployed_db = (deployed_db, Inr ())"
    using deployed_live migrate_live by (simp add: live_db_def)
  have cwd: "bt_cwd sample_boot = None" by (simp add: sample_boot_def)
  show ?thesis
    by (simp add: start_server_def sample_config m cwd sample_choice sample_issue sample_tls pool Let_def del: not_None_eq)
qed

theorem restart_strands_deployments_witness:
  "\<exists>st. start_server sample_boot ''server.toml'' deployed_db no_files = (mark_all_offline deployed_db, no_files, Inr st)
    \<and> (let p = sv_panel (run_updates (\<lambda>_. ''x'') [(7, \<lparr>nu_uuid = ''u1'', nu_event = Connected sample_connected\<rparr>)] (sr_server st)) in
       pn_forwards p = [] \<and> try_auto_deploy (\<lambda>_. Elapsed) 1 p = p)"
proof -
  obtain st where st: "start_server sample_boot ''server.toml'' deployed_db no_files = (mark_all_offline deployed_db, no_files, Inr st)"
    using sample_started by blast
  obtain cv where cv: "get_connection 1 deployed_db = Some cv" "cn_status (cv_row cv) = ''deployed''"
    by (simp add: get_connection_def join_connection_def deployed_db_def sample_connection_def Let_def)
  from restart_strands_deployments [OF st deployed_live cv, where f = "\<lambda>_. ''x''" and us = "[(7, \<lparr>nu_uuid = ''u1'', nu_event = Connected sample_connected\<rparr>)]"
      and ans = "\<lambda>_. Elapsed"] st
  show ?thesis by (auto simp: Let_def)
qed

theorem server_starts_consistent_witness:
  "\<exists>st. start_server sample_boot ''server.toml'' deployed_db no_files = (mark_all_offline deployed_db, no_files, Inr st)
    \<and> hm_get (tn_bindings (sr_tunnel st)) ''u1'' = Some ''ab'' \<and> panel_inv (sv_panel (sr_server st))"
proof -
  obtain st where st: "start_server sample_boot ''server.toml'' deployed_db no_files = (mark_all_offline deployed_db, no_files, Inr st)"
    using sample_started by blast
  have "inj (bt_new_uuid sample_boot)" by (simp add: sample_boot_def inj_def replicate_eq_replicate)
  moreover have "\<forall>k. Some (bt_new_uuid sample_boot k) \<notin> nd_node_uuid ` set (client_nodes deployed_db)"
  proof -
    have "replicate k (CHR ''u'') \<noteq> ''u1''" for k
    proof
      assume "replicate k (CHR ''u'') = ''u1''"
      then have "CHR ''1'' \<in> set (replicate k (CHR ''u''))" by simp
      then show False by (simp only: in_set_replicate) simp
    qed
    then show ?thesis by (simp add: sample_boot_def deployed_db_def install_db_def online_node_def)
  qed
  moreover have "\<exists>n. get_node_by_uuid ''u1'' (mark_all_offline deployed_db) = Some n \<and> nd_auth_digest n = Some ''ab''"
    by (simp add: get_node_by_uuid_def mark_all_offline_def deployed_db_def install_db_def online_node_def)
  ultimately show ?thesis
    using server_starts_consistent [OF st, of sample_env] st deployed_live by (auto simp: live_db_def)
qed

theorem failed_issuance_not_retried_witness:
  "\<exists>st. start_server sample_boot ''server.toml'' deployed_db no_files = (mark_all_offline deployed_db, no_files, Inr st)
    \<and> sr_renewal st = None \<and> sr_listeners st = [PlainProxy 80]"
proof -
  obtain st where st: "start_server sample_boot ''server.toml'' deployed_db no_files = (mark_all_offline deployed_db, no_files, Inr st)"
    using sample_started by blast
  have m: "migrate (bt_new_uuid sample_boot) deployed_db = (deployed_db, Inr ())"
    using deployed_live migrate_live by (simp add: live_db_def)
  have cm: "choose_manager (bt_cwd sample_boot) (sc_domain boot_config) (effective_acme deployed_db (sc_acme boot_config)) = Some sample_manager"
    using sample_choice by (simp add: sample_boot_def)
  have "hm_get (aw_files no_files) (cert_path sample_manager) = None" by (simp add: no_files_def)
  from failed_issuance_not_retried [OF st sample_config _ m cm this] st show ?thesis
    by (auto simp: boot_config_def)
qed

theorem renewal_restarts_with_new_pair_witness:
  "renewal_task sample_x509 sample_manager [(0, sample_acme, True)] no_files = (no_files, RenewalGoesOn) \<and> same_pair sample_manager no_files no_files"
proof -
  have r: "renewal_task sample_x509 sample_manager [(0, sample_acme, True)] no_files = (no_files, RenewalGoesOn)"
    by (simp add: no_files_def cert_expiry_def cert_needs_issue_or_renew_def cert_days_remaining_def
      obtain_or_renew_def run_acme_flow_def load_account_def sample_acme_def)
  from renewal_restarts_with_new_pair [OF r] r show ?thesis by (simp add: sample_acme_def writes_pair_def)
qed

end
