(* ===== verification/Client_Life.thy ===== *)
theory Client_Life
  imports Server_Start Relay_Loops
begin

text \<open>
  The life of a client process, \<^verbatim>\<open>Client::run\<close> and the tasks of \<^verbatim>\<open>ControlChannelHandle::new\<close> in \<^verbatim>\<open>crates/tunnel/src/client.rs\<close>: one task per service, which connects,
  serves its channel and comes back after every failure, until the process is told to shut down. The tasks share the machine and interleave in any order. The back-off crate is a
  parameter, whose state a task is given when it is spawned (\<open>fresh\<close>).
\<close>

section \<open>Tasks and the process\<close>

text \<open>\<open>Linking\<close>: connecting, handshake and first report. \<open>Serving\<close>: the loop over commands and ticks. \<open>Sleeping\<close>: waiting for the next attempt. \<open>Aborted\<close>: a panic.\<close>

datatype phase = Linking | Serving | Sleeping | Ended | Aborted

record 'b service_task =
  tk_agent :: agent
  tk_digest :: digest
  tk_supervisor :: supervisor
  tk_backoff :: 'b
  tk_started :: nat
  tk_phase :: phase
  tk_signal :: bool  \<comment> \<open>the receiver of the shutdown signal has it\<close>

record ('w, 'b) process =
  pr_world :: 'w
  pr_tasks :: "(string, 'b service_task) hmap"
  pr_handles :: "string list"
  pr_done :: bool

definition new_task :: "(backoff_settings \<Rightarrow> 'b) \<Rightarrow> nat \<Rightarrow> nat \<Rightarrow> digest \<times> agent \<Rightarrow> 'b service_task" where
  "new_task fresh retry_interval now da =
     \<lparr>tk_agent = snd da, tk_digest = fst da, tk_supervisor = \<lparr>sp_disconnected_at = None, sp_cleanup_done = False\<rparr>,
      tk_backoff = fresh (run_control_chan_backoff retry_interval), tk_started = now, tk_phase = Linking, tk_signal = False\<rparr>"

text \<open>Spawning the task of every service. A service without a retry interval panics; loading a configuration fills it in.\<close>

definition client_start ::
  "(bytes \<Rightarrow> digest) \<Rightarrow> 'w host \<Rightarrow> (backoff_settings \<Rightarrow> 'b) \<Rightarrow> nat \<Rightarrow> client_config \<Rightarrow> 'w \<Rightarrow> string + ('w, 'b) process" where
  "client_start dig h fresh now config w =
     (case client_run dig h config w of
        Inl e \<Rightarrow> Inl e
      | Inr hs \<Rightarrow>
          if list_ex (\<lambda>(name, d, a). cs_retry_interval (ag_service a) = None) hs
          then Inl ''called `Option::unwrap()` on a `None` value''
          else Inr
            \<lparr>pr_world = w,
             pr_tasks = map (\<lambda>(name, d, a). (name, new_task fresh (unat (the (cs_retry_interval (ag_service a)))) now (d, a))) hs,
             pr_handles = map fst hs, pr_done = False\<rparr>)"

text \<open>The channel of a task failed at \<open>now\<close>; \<open>later\<close> is the time after a clean-up.\<close>

definition task_fails :: "'w host \<Rightarrow> 'b backoff \<Rightarrow> nat \<Rightarrow> nat \<Rightarrow> 'b service_task \<Rightarrow> 'w \<Rightarrow> 'b service_task \<times> 'w" where
  "task_fails h bo now later t w =
     (case supervise h bo (unat (cs_image_cache_ttl_seconds (ag_service (tk_agent t)))) (tk_started t) now later (tk_signal t)
         ((tk_supervisor t, tk_agent t, w), tk_backoff t) of
        (((sp, a, w), b), v) \<Rightarrow>
          (t\<lparr>tk_supervisor := sp, tk_agent := a, tk_backoff := b,
             tk_phase := (case v of Retry d \<Rightarrow> Sleeping | Stopped \<Rightarrow> Ended | Panicked \<Rightarrow> Aborted)\<rparr>, w))"

definition put_task :: "string \<Rightarrow> 'b service_task \<Rightarrow> 'w \<Rightarrow> ('w, 'b) process \<Rightarrow> ('w, 'b) process" where
  "put_task name t w p = p\<lparr>pr_world := w, pr_tasks := hm_insert name t (pr_tasks p)\<rparr>"

text \<open>What \<^verbatim>\<open>Client::run\<close> does when the shutdown arrives or its sender is gone.\<close>

definition shutdown_all :: "('w, 'b) process \<Rightarrow> ('w, 'b) process" where
  "shutdown_all p =
     p\<lparr>pr_tasks := map (\<lambda>(name, t). (name, if name \<in> set (pr_handles p) then t\<lparr>tk_signal := True\<rparr> else t)) (pr_tasks p),
       pr_handles := [], pr_done := True\<rparr>"

datatype label = LinkUp string | Serve string | LinkDown string | Wake string | Quit string | Shutdown

inductive client_step :: "'w host \<Rightarrow> 'b backoff \<Rightarrow> label \<Rightarrow> ('w, 'b) process \<Rightarrow> ('w, 'b) process \<Rightarrow> bool" for h bo where
  link_up: "hm_get (pr_tasks p) name = Some t \<Longrightarrow> tk_phase t = Linking \<Longrightarrow> send_status h ok (tk_agent t, pr_world p) = (a, w) \<Longrightarrow>
    client_step h bo (LinkUp name) p (put_task name (t\<lparr>tk_agent := a, tk_phase := Serving\<rparr>) w p)"
| serve: "hm_get (pr_tasks p) name = Some t \<Longrightarrow> tk_phase t = Serving \<Longrightarrow>
    session_loop h [(time, ok, ev)] (tk_agent t, pr_world p) = ((a, w), Inr ()) \<Longrightarrow>
    client_step h bo (Serve name) p (put_task name (t\<lparr>tk_agent := a\<rparr>) w p)"
| serve_fails: "hm_get (pr_tasks p) name = Some t \<Longrightarrow> tk_phase t = Serving \<Longrightarrow>
    session_loop h [(time, ok, ev)] (tk_agent t, pr_world p) = ((a, w), Inl e) \<Longrightarrow>
    task_fails h bo now later (t\<lparr>tk_agent := a\<rparr>) w = (t', w') \<Longrightarrow>
    client_step h bo (LinkDown name) p (put_task name t' w' p)"
| link_down: "hm_get (pr_tasks p) name = Some t \<Longrightarrow> tk_phase t = Linking \<or> tk_phase t = Serving \<Longrightarrow>
    task_fails h bo now later t (pr_world p) = (t', w') \<Longrightarrow>
    client_step h bo (LinkDown name) p (put_task name t' w' p)"
| wake: "hm_get (pr_tasks p) name = Some t \<Longrightarrow> tk_phase t = Sleeping \<Longrightarrow>
    client_step h bo (Wake name) p (put_task name (t\<lparr>tk_phase := Linking, tk_started := now\<rparr>) (pr_world p) p)"
| quit: "hm_get (pr_tasks p) name = Some t \<Longrightarrow> tk_phase t = Serving \<Longrightarrow> tk_signal t \<Longrightarrow>
    client_step h bo (Quit name) p (put_task name (t\<lparr>tk_phase := Ended\<rparr>) (pr_world p) p)"
| shutdown: "\<not> pr_done p \<Longrightarrow> client_step h bo Shutdown p (shutdown_all p)"

inductive client_steps :: "'w host \<Rightarrow> 'b backoff \<Rightarrow> label list \<Rightarrow> ('w, 'b) process \<Rightarrow> ('w, 'b) process \<Rightarrow> bool" for h bo where
  client_nil: "client_steps h bo [] p p"
| client_cons: "client_step h bo l p q \<Longrightarrow> client_steps h bo ls q r \<Longrightarrow> client_steps h bo (l # ls) p r"

section \<open>Until the shutdown\<close>

lemma task_fails_phase:
  assumes "task_fails h bo now later t w = (t', w')"
  shows "tk_signal t' = tk_signal t" "tk_signal t \<Longrightarrow> tk_phase t' = Ended"
    "\<not> tk_signal t \<Longrightarrow> patient bo \<Longrightarrow> tk_phase t' = Sleeping"
proof -
  obtain sp a w1 b v where s: "supervise h bo (unat (cs_image_cache_ttl_seconds (ag_service (tk_agent t)))) (tk_started t) now later (tk_signal t)
      ((tk_supervisor t, tk_agent t, w), tk_backoff t) = (((sp, a, w1), b), v)" by (metis prod_cases3 surj_pair)
  then have t': "t' = t\<lparr>tk_supervisor := sp, tk_agent := a, tk_backoff := b,
      tk_phase := (case v of Retry d \<Rightarrow> Sleeping | Stopped \<Rightarrow> Ended | Panicked \<Rightarrow> Aborted)\<rparr>"
    using assms by (simp add: task_fails_def)
  then show "tk_signal t' = tk_signal t" by simp
  show "tk_phase t' = Ended" if "tk_signal t" using s that by (simp add: t' supervise_def Let_def)
  show "tk_phase t' = Sleeping" if run: "\<not> tk_signal t" "patient bo"
  proof -
    obtain b' d where "bo_next bo (if later - tk_started t > 3000 then bo_reset bo (tk_backoff t) else tk_backoff t) = (b', Some d)"
      using patient_next [OF run(2)] by blast
    then show ?thesis using s run(1) by (auto simp: t' supervise_def Let_def)
  qed
qed

definition process_inv :: "string set \<Rightarrow> ('w, 'b) process \<Rightarrow> bool" where
  "process_inv names p \<longleftrightarrow> hm_wf (pr_tasks p) \<and> hm_keys (pr_tasks p) = names
     \<and> set (pr_handles p) = (if pr_done p then {} else names)
     \<and> (\<forall>name t. hm_get (pr_tasks p) name = Some t \<longrightarrow>
          tk_phase t \<noteq> Aborted \<and> tk_signal t = pr_done p \<and> (tk_phase t = Ended \<longrightarrow> pr_done p))"

lemma process_inv_put:
  assumes "process_inv names p" "hm_get (pr_tasks p) name = Some t"
    and "tk_signal t' = tk_signal t" "tk_phase t' \<noteq> Aborted" "tk_phase t' = Ended \<Longrightarrow> tk_signal t"
  shows "process_inv names (put_task name t' w p)"
proof -
  have "name \<in> hm_keys (pr_tasks p)" using assms(2) by (metis hm_get_None option.distinct(1))
  then show ?thesis
    using assms unfolding process_inv_def put_task_def by (auto simp: hm_get_insert distinct_update split: if_splits)
qed

lemma shutdown_all_simps [simp]:
  "pr_handles (shutdown_all p) = []" "pr_done (shutdown_all p)" "map fst (pr_tasks (shutdown_all p)) = map fst (pr_tasks p)"
  by (simp_all add: shutdown_all_def case_prod_beta comp_def)

lemma shutdown_all_get:
  "hm_get (pr_tasks (shutdown_all p)) name =
     map_option (\<lambda>t. if name \<in> set (pr_handles p) then t\<lparr>tk_signal := True\<rparr> else t) (hm_get (pr_tasks p) name)"
  by (simp add: shutdown_all_def hm_get_map_values [where f = "\<lambda>name t. if name \<in> set (pr_handles p) then t\<lparr>tk_signal := True\<rparr> else t"])

lemma process_inv_shutdown:
  assumes "process_inv names p" "\<not> pr_done p"
  shows "process_inv names (shutdown_all p)"
proof -
  have keys: "hm_keys (pr_tasks (shutdown_all p)) = names"
    using assms(1) shutdown_all_simps(3) [of p] by (metis process_inv_def list.set_map)
  have "tk_phase t \<noteq> Aborted \<and> tk_signal t" if get: "hm_get (pr_tasks (shutdown_all p)) name = Some t" for name t
  proof -
    obtain z where z: "hm_get (pr_tasks p) name = Some z" "t = (if name \<in> set (pr_handles p) then z\<lparr>tk_signal := True\<rparr> else z)"
      using get unfolding shutdown_all_get by blast
    then have "name \<in> set (pr_handles p)" using assms hm_get_None [of "pr_tasks p" name] by (auto simp: process_inv_def)
    then show ?thesis using z assms(1) unfolding process_inv_def by fastforce
  qed
  with keys show ?thesis using assms by (simp add: process_inv_def)
qed

lemma process_inv_step:
  assumes "patient bo" "process_inv names p" "client_step h bo l p q"
  shows "process_inv names q"
proof -
  have phases: "tk_phase t \<noteq> Aborted" "tk_phase t = Ended \<Longrightarrow> tk_signal t" if "hm_get (pr_tasks p) name = Some t" for name t
    using assms(2) that by (auto simp: process_inv_def)
  have fails: "process_inv names (put_task name t' w' p)"
    if "hm_get (pr_tasks p) name = Some t0" "tk_signal t = tk_signal t0" "task_fails h bo now later t w = (t', w')" for name t0 t t' w w' now later
    using task_fails_phase [OF that(3)] that(2) assms(1)
    by (intro process_inv_put [OF assms(2) that(1)]) (cases "tk_signal t"; use that(2) in simp)+
  note put = process_inv_put [OF assms(2)]
  from assms(3) show ?thesis
  proof cases
    case (link_up name t ok a w)
    show ?thesis unfolding link_up(2) by (rule put [OF link_up(3)]) (use link_up in simp_all)
  next
    case (serve name t time ok ev a w)
    show ?thesis unfolding serve(2) by (rule put [OF serve(3)]) (use serve in simp_all)
  next
    case (serve_fails name t time ok ev a w e now later t' w')
    show ?thesis unfolding serve_fails(2) by (rule fails [OF serve_fails(3) _ serve_fails(6)]) simp
  next
    case (link_down name t now later t' w')
    show ?thesis unfolding link_down(2) by (rule fails [OF link_down(3) _ link_down(5)]) simp
  next
    case (wake name t now)
    show ?thesis unfolding wake(2) by (rule put [OF wake(3)]) (use wake in simp_all)
  next
    case (quit name t)
    show ?thesis unfolding quit(2) by (rule put [OF quit(3)]) (use quit in simp_all)
  next
    case shutdown
    then show ?thesis using process_inv_shutdown [OF assms(2)] by simp
  qed
qed

section \<open>After the shutdown\<close>

text \<open>How many turns a task that has the signal can still take, beside serving what it is sent.\<close>

fun rank :: "phase \<Rightarrow> nat" where
  "rank Sleeping = 3"
| "rank Linking = 2"
| "rank Serving = 1"
| "rank _ = 0"

definition remaining :: "('w, 'b) process \<Rightarrow> nat" where
  "remaining p = sum_list (map (\<lambda>(name, t). rank (tk_phase t)) (pr_tasks p))"

fun is_serve :: "label \<Rightarrow> bool" where
  "is_serve (Serve name) = True"
| "is_serve _ = False"

lemma sum_list_insert:
  fixes f :: "'v \<Rightarrow> nat"
  shows "hm_get m k = Some v \<Longrightarrow> sum_list (map (\<lambda>(k, v). f v) (hm_insert k v' m)) + f v = sum_list (map (\<lambda>(k, v). f v) m) + f v'"
  by (induction m) auto

lemma remaining_put:
  "hm_get (pr_tasks p) name = Some t \<Longrightarrow> remaining (put_task name t' w p) + rank (tk_phase t) = remaining p + rank (tk_phase t')"
  using sum_list_insert [of "pr_tasks p" name t "\<lambda>t. rank (tk_phase t)" t'] by (simp add: remaining_def put_task_def)

lemma remaining_le:
  fixes p :: "('w, 'b) process"
  shows "remaining p \<le> 3 * length (pr_tasks p)"
proof -
  have "rank x \<le> 3" for x by (cases x) simp_all
  then have "sum_list (map (\<lambda>(name, t). rank (tk_phase t)) xs) \<le> 3 * length xs" for xs :: "(string \<times> 'b service_task) list"
    by (induction xs) (auto intro: add_mono)
  then show ?thesis by (simp add: remaining_def)
qed

lemma remaining_step:
  assumes "process_inv names p" "pr_done p" "client_step h bo l p q"
  shows "remaining q + (if is_serve l then 0 else 1) \<le> remaining p \<and> pr_done q"
proof -
  have sig: "tk_signal t" if "hm_get (pr_tasks p) name = Some t" for name t
    using assms(1,2) that by (simp add: process_inv_def)
  note ends = task_fails_phase(2)
  from assms(3) show ?thesis
  proof cases
    case (link_up name t ok a w)
    then show ?thesis using remaining_put [OF link_up(3), of "t\<lparr>tk_agent := a, tk_phase := Serving\<rparr>" w] assms(2) by (simp add: put_task_def)
  next
    case (serve name t time ok ev a w)
    then show ?thesis using remaining_put [OF serve(3), of "t\<lparr>tk_agent := a\<rparr>" w] assms(2) by (simp add: put_task_def)
  next
    case (serve_fails name t time ok ev a w e now later t' w')
    then show ?thesis using remaining_put [OF serve_fails(3), of t' w'] ends [OF serve_fails(6)] sig [OF serve_fails(3)] assms(2)
      by (simp add: put_task_def)
  next
    case (link_down name t now later t' w')
    then show ?thesis using remaining_put [OF link_down(3), of t' w'] ends [OF link_down(5)] sig [OF link_down(3)] assms(2)
      by (auto simp: put_task_def)
  next
    case (wake name t now)
    then show ?thesis using remaining_put [OF wake(3), of "t\<lparr>tk_phase := Linking, tk_started := now\<rparr>" "pr_world p"] assms(2) by (simp add: put_task_def)
  next
    case (quit name t)
    then show ?thesis using remaining_put [OF quit(3), of "t\<lparr>tk_phase := Ended\<rparr>" "pr_world p"] assms(2) by (simp add: put_task_def)
  next
    case shutdown
    then show ?thesis using assms(2) by simp
  qed
qed

lemma remaining_steps:
  assumes "client_steps h bo ls p q" "patient bo" "process_inv names p" "pr_done p"
  shows "remaining q + length (filter (\<lambda>l. \<not> is_serve l) ls) \<le> remaining p \<and> process_inv names q \<and> pr_done q"
  using assms
proof (induction rule: client_steps.induct)
  case (client_cons l p q ls r)
  then show ?case using remaining_step [OF client_cons.prems(2,3) client_cons.hyps(1)] process_inv_step [OF assms(2) client_cons.prems(2) client_cons.hyps(1)]
    by (auto split: if_splits)
qed auto

lemma fold_insert_wf:
  "hm_wf m \<Longrightarrow> hm_wf (fold (\<lambda>(name, cfg). hm_insert name (f cfg)) kvs m)"
  by (induction kvs arbitrary: m) (auto simp: distinct_update)

lemma client_start_inv:
  assumes "client_start dig h fresh now config w = Inr p"
  shows "process_inv (hm_keys (cc_services config)) p" "\<not> pr_done p"
proof -
  let ?f = "\<lambda>cfg. (dig (map of_char (cs_name cfg)), agent_new h cfg w)"
  obtain hs where hs: "hs = fold (\<lambda>(name, cfg). hm_insert name (?f cfg)) (cc_services config) []"
    and p: "p = \<lparr>pr_world = w, pr_tasks = map (\<lambda>(name, d, a). (name, new_task fresh (unat (the (cs_retry_interval (ag_service a)))) now (d, a))) hs,
             pr_handles = map fst hs, pr_done = False\<rparr>"
    using assms by (auto simp: client_start_def client_run_def Let_def split: if_splits sum.splits)
  have wf: "hm_wf hs" using fold_insert_wf [of "[]" ?f "cc_services config"] by (simp add: hs)
  have keys: "hm_keys hs = hm_keys (cc_services config)"
    using fold_insert_keys [of "\<lambda>n. ?f" "cc_services config" "[]"] by (simp add: hs)
  have h_p: "pr_handles p = map fst hs" "\<not> pr_done p" by (simp_all add: p)
  have fst: "map fst (pr_tasks p) = map fst hs" by (simp add: p case_prod_beta comp_def)
  have "tk_phase t = Linking \<and> \<not> tk_signal t" if "hm_get (pr_tasks p) name = Some t" for name t
    using map_of_SomeD [OF that] by (auto simp: p new_task_def)
  moreover have "hm_keys (pr_tasks p) = hm_keys (cc_services config)" using fst keys by (metis list.set_map)
  ultimately show "process_inv (hm_keys (cc_services config)) p"
    unfolding process_inv_def using wf fst keys h_p by simp
  show "\<not> pr_done p" by (simp add: p)
qed

lemma pr_done_step: "client_step h bo l p q \<Longrightarrow> pr_done q \<longleftrightarrow> pr_done p \<or> l = Shutdown"
  by (cases rule: client_step.cases, assumption) (simp_all add: put_task_def)

lemma client_steps_inv:
  "client_steps h bo ls p q \<Longrightarrow> patient bo \<Longrightarrow> process_inv names p \<Longrightarrow> process_inv names q \<and> (pr_done q \<longleftrightarrow> pr_done p \<or> Shutdown \<in> set ls)"
proof (induction rule: client_steps.induct)
  case (client_cons l p q ls r)
  then show ?case using process_inv_step [OF client_cons.prems client_cons.hyps(1)] pr_done_step [OF client_cons.hyps(1)] by auto
qed simp

lemma inv_task: "process_inv names p \<Longrightarrow> name \<in> names \<Longrightarrow> \<exists>t. hm_get (pr_tasks p) name = Some t"
  using hm_get_None [of "pr_tasks p" name] by (cases "hm_get (pr_tasks p) name") (simp_all add: process_inv_def)

text \<open>A task that has the signal can always take a turn of its own towards the end.\<close>

lemma signalled_can_move:
  assumes "hm_get (pr_tasks p) name = Some t" "tk_signal t" "tk_phase t \<noteq> Aborted" "tk_phase t \<noteq> Ended"
  shows "\<exists>l q. l \<in> {Wake name, LinkUp name, Quit name} \<and> client_step h bo l p q"
proof (cases "tk_phase t")
  case Linking
  obtain a w where "send_status h True (tk_agent t, pr_world p) = (a, w)" by fastforce
  then show ?thesis using client_step.link_up [OF assms(1) Linking] by blast
qed (use assms client_step.wake [OF assms(1)] client_step.quit [OF assms(1)] in blast)+

section \<open>Properties\<close>

text \<open>
  C30. A service of the client stops only when the client is told to: in every run of the process, whatever links fail and however often, and however the tasks of the services
  interleave, each service of the configuration keeps its task, and until the shutdown that task is connecting, serving or waiting for its next attempt. The back-off
  crate is assumed to propose another wait each time, as it does without a limit on the elapsed time.
\<close>

theorem services_outlive_failures:
  assumes "client_start dig h fresh now config w = Inr p0" "patient bo" "client_steps h bo ls p0 p"
  shows "hm_keys (pr_tasks p) = hm_keys (cc_services config)
    \<and> (\<forall>name t. Shutdown \<notin> set ls \<longrightarrow> hm_get (pr_tasks p) name = Some t \<longrightarrow> tk_phase t \<in> {Linking, Serving, Sleeping})"
proof -
  note start = client_start_inv [OF assms(1)]
  note steps = client_steps_inv [OF assms(3,2) start(1)]
  have "tk_phase t \<in> {Linking, Serving, Sleeping}" if "\<not> pr_done p" "hm_get (pr_tasks p) name = Some t" for name t
    using steps that by (cases "tk_phase t") (auto simp: process_inv_def simp del: map_of_eq_Some_iff)
  with steps start(2) show ?thesis by (simp add: process_inv_def)
qed


section \<open>A client with one service\<close>

definition life_config :: client_config where
  "life_config =
     \<lparr>cc_remote_addr = ''vps:2333'', cc_default_token = MaskedString ''t'', cc_prefer_ipv6 = None,
      cc_services = [(''web'', client_service_default\<lparr>cs_retry_interval := Some 1\<rparr>)], cc_heartbeat_timeout = 40, cc_retry_interval = 1\<rparr>"

lemma life_start:
  "\<exists>p. client_start (\<lambda>b. b) sample_host (\<lambda>_. 0 :: nat) 0 life_config [] = Inr p \<and> hm_get (pr_tasks p) ''web'' \<noteq> None"
  by (simp add: client_start_def client_run_def life_config_def agent_new_def del: not_None_eq)

lemma sample_patient: "patient sample_backoff"
  by (simp add: patient_def sample_backoff_def)

theorem services_outlive_failures_witness:
  "\<exists>p0 p. client_start (\<lambda>b. b) sample_host (\<lambda>_. 0 :: nat) 0 life_config [] = Inr p0
     \<and> client_steps sample_host sample_backoff [LinkDown ''web''] p0 p \<and> hm_keys (pr_tasks p) = {''web''}"
proof -
  obtain p0 t where p0: "client_start (\<lambda>b. b) sample_host (\<lambda>_. 0 :: nat) 0 life_config [] = Inr p0" and t: "hm_get (pr_tasks p0) ''web'' = Some t"
    using life_start by blast
  have "tk_phase t = Linking" using p0 t by (auto simp: client_start_def client_run_def life_config_def agent_new_def new_task_def)
  moreover obtain t' w' where "task_fails sample_host sample_backoff 0 0 t (pr_world p0) = (t', w')" by fastforce
  ultimately have run: "client_steps sample_host sample_backoff [LinkDown ''web''] p0 (put_task ''web'' t' w' p0)"
    by (intro client_cons [OF client_step.link_down [OF t] client_nil]) simp_all
  from services_outlive_failures [OF p0 sample_patient run] p0 run show ?thesis by (auto simp: life_config_def)
qed


end
