(* ===== verification/Server_Life.thy ===== *)
theory Server_Life
  imports Server_Start
begin

text \<open>
  The server executable over a restart: \<^verbatim>\<open>main\<close> and \<^verbatim>\<open>self_restart\<close> of \<^verbatim>\<open>crates/kdcts/src/main.rs\<close>. What the process had in memory is gone after the
  restart; the database and the files are what the next start finds. \<open>exec_ok\<close> says whether the system replaces the process.
\<close>

section \<open>Arguments, main and restart\<close>

record kdcts_args =
  ka_config :: string

text \<open>The value of \<^verbatim>\<open>--config\<close>, if it is given.\<close>

definition parse_args :: "string option \<Rightarrow> kdcts_args" where
  "parse_args config = \<lparr>ka_config = (case config of Some path \<Rightarrow> path | None \<Rightarrow> ''server.toml'')\<rparr>"

definition kdcts_main ::
  "'l boot \<Rightarrow> string option \<Rightarrow> database \<Rightarrow> acme_world \<Rightarrow> database \<times> acme_world \<times> (start_error + 'l started)" where
  "kdcts_main b config db w = (let args = parse_args config in start_server b (ka_config args) db w)"

text \<open>The same arguments again; on the left the exit code when the process cannot be replaced.\<close>

definition self_restart ::
  "bool \<Rightarrow> 'l boot \<Rightarrow> string option \<Rightarrow> database \<Rightarrow> acme_world \<Rightarrow> int + database \<times> acme_world \<times> (start_error + 'l started)" where
  "self_restart exec_ok b config db w = (if exec_ok then Inr (kdcts_main b config db w) else Inl 1)"

section \<open>What a restart reads\<close>

lemma backfill_settings: "server_config (fst (backfill u k ids db)) = server_config db"
  by (induction ids arbitrary: k db) simp_all

lemma migrate_settings:
  assumes "migrate u db = (db', r)"
  shows "get_setting key db' = get_setting key db"
proof -
  let ?d = "case client_nodes_schema db of None \<Rightarrow> db\<lparr>client_nodes_schema := Some UuidUnique\<rparr>
    | Some UuidMissing \<Rightarrow> db\<lparr>client_nodes_schema := Some UuidPartialIndex\<rparr> | Some _ \<Rightarrow> db"
  have d: "server_config ?d = server_config db" by (simp split: option.split uuid_column.split)
  obtain db1 r1 where b: "backfill u 0 (legacy_ids ?d) ?d = (db1, r1)" by fastforce
  then have "server_config db1 = server_config db" using backfill_settings [of u 0 "legacy_ids ?d" ?d] d by simp
  then show ?thesis using assms b unfolding migrate_def Let_def
    by (auto simp: get_setting_def drop_anonymous_nodes_def Let_def split: sum.splits)
qed

lemma effective_acme_settings:
  assumes "\<And>key. get_setting key db' = get_setting key db"
  shows "effective_acme db' a = effective_acme db a"
  unfolding effective_acme_def nonempty_setting_def by (simp only: assms)

text \<open>Whether TLS is live after a start: it must be possible, and either the stored toggle or automatic certificates ask for it.\<close>

lemma started_tls:
  assumes "start_server b path db w = (db', w', Inr st)"
    and "config_from_file (bt_read_file b) (bt_toml b) path = Inr config" "cf_server config = Some sc"
  shows "as_live_tls_enabled (sr_settings st) \<longleftrightarrow> as_tls_configurable (sr_settings st)
    \<and> (get_setting ''tls_enabled'' db = Some ''true'' \<or> choose_manager (bt_cwd b) (sc_domain sc) (effective_acme db (sc_acme sc)) \<noteq> None)"
    and "as_live_tls_enabled (sr_settings st) \<Longrightarrow> get_setting ''tls_enabled'' db' = Some ''true''"
proof -
  obtain db1 mgr td db2 where m: "migrate (bt_new_uuid b) db = (db1, Inr ())"
    and mgr: "mgr = choose_manager (bt_cwd b) (sc_domain sc) (effective_acme db1 (sc_acme sc))"
    and td: "resolve_tls (\<lambda>p. hm_get (aw_files w') p \<noteq> None) sc mgr db1 = (td, db2)" and st: "sr_settings st = settings_of sc td" and db': "db' = mark_all_offline db2"
    using assms(1) by (rule started_cases) (use assms(2,3) in auto)
  note keep = migrate_settings [OF m]
  have "td_live td \<longleftrightarrow> td_configurable td \<and> (get_setting ''tls_enabled'' db1 = Some ''true'' \<or> mgr \<noteq> None)"
    using td by (auto simp: resolve_tls_def Let_def split: prod.splits option.splits if_splits)
  then show "as_live_tls_enabled (sr_settings st) \<longleftrightarrow> as_tls_configurable (sr_settings st)
    \<and> (get_setting ''tls_enabled'' db = Some ''true'' \<or> choose_manager (bt_cwd b) (sc_domain sc) (effective_acme db (sc_acme sc)) \<noteq> None)"
    by (simp add: st settings_of_def keep mgr effective_acme_settings [OF keep] del: not_None_eq)
  have "td_live td \<Longrightarrow> get_setting ''tls_enabled'' db2 = Some ''true''"
    using td by (auto simp: resolve_tls_def Let_def get_setting_def set_setting_def hm_get_insert split: prod.splits option.splits if_splits)
  then show "as_live_tls_enabled (sr_settings st) \<Longrightarrow> get_setting ''tls_enabled'' db' = Some ''true''"
    by (simp add: st settings_of_def db' mark_all_offline_def get_setting_def)
qed

section \<open>The toggle over a restart\<close>

text \<open>
  C35. The TLS switch of the panel works through a restart, unless certificates are obtained automatically: if the request to switch TLS to \<open>want\<close> makes the panel restart
  the server, then \<open>want\<close> differs from the state the server was in, it is what the database stores, and after the restart TLS is live exactly if it is
  possible then and wanted -- or an ACME manager is active, in which case the start turns a switched-off TLS on again, in the database too.
\<close>

theorem tls_toggle_over_restart:
  assumes config: "config_from_file (bt_read_file b) (bt_toml b) (ka_config (parse_args arg)) = Inr config" "cf_server config = Some sc"
    and first: "kdcts_main b arg db w = (db1, w1, Inr st)" "ae_settings env = sr_settings st"
    and request: "Option.bind (json_get parsed ''tls_enabled'') as_bool = Some want" "post_settings env parsed s = (s', resp)"
      "ap_restarts s' \<noteq> ap_restarts s"
    and restart: "self_restart True b' arg (api_db s') w2 = Inr (db3, w3, Inr st')" "bt_read_file b' = bt_read_file b" "bt_toml b' = bt_toml b"
  shows "want \<noteq> as_live_tls_enabled (sr_settings st) \<and> get_setting ''tls_enabled'' (api_db s') = Some (bool_text want)
    \<and> (as_live_tls_enabled (sr_settings st') \<longleftrightarrow> as_tls_configurable (sr_settings st')
        \<and> (want \<or> choose_manager (bt_cwd b') (sc_domain sc) (effective_acme (api_db s') (sc_acme sc)) \<noteq> None))
    \<and> (as_live_tls_enabled (sr_settings st') \<longrightarrow> get_setting ''tls_enabled'' db3 = Some ''true'')"
proof -
  have ok: "\<not> (want \<and> \<not> as_tls_configurable (ae_settings env))" "want \<noteq> as_live_tls_enabled (ae_settings env)"
    "s' = delayed_restart (set_db (set_setting ''tls_enabled'' (bool_text want) (api_db s)) s)"
    using request by (auto simp: post_settings_def Let_def set_db_def bool_text_def split: if_splits)
  have stored: "get_setting ''tls_enabled'' (api_db s') = Some (bool_text want)"
    by (simp add: ok(3) delayed_restart_def set_db_def get_setting_def set_setting_def hm_get_insert)
  have start: "start_server b' (ka_config (parse_args arg)) (api_db s') w2 = (db3, w3, Inr st')"
    using restart(1) by (simp add: self_restart_def kdcts_main_def)
  have "config_from_file (bt_read_file b') (bt_toml b') (ka_config (parse_args arg)) = Inr config" using config(1) restart(2,3) by simp
  from started_tls [OF start this config(2)] stored ok(2) first(2) show ?thesis
    by (simp add: bool_text_def del: not_None_eq split: if_splits)
qed

section \<open>A server with automatic certificates\<close>

definition with_files :: acme_world where
  "with_files = \<lparr>aw_files = [(''/s/cert.pem'', ''x''), (''/s/key.pem'', ''y'')], aw_challenges = []\<rparr>"

lemma acme_issue: "issue_at_start sample_boot boot_config (Some sample_manager) with_files = Some with_files"
  by (simp add: issue_at_start_def sample_boot_def with_files_def sample_paths cert_expiry_def sample_x509_def first_cert_pem_to_der_def BEGIN_CERT_def
      cert_needs_issue_or_renew_def cert_days_remaining_def obtain_or_renew_def run_acme_flow_def load_account_def sample_acme_def)

lemma acme_started:
  assumes "all_named db" "client_nodes_schema db = Some UuidUnique" "get_setting ''acme_enabled'' db = None"
  shows "\<exists>db' st. start_server sample_boot ''server.toml'' db with_files = (db', with_files, Inr st)
    \<and> as_live_tls_enabled (sr_settings st)"
proof -
  have "\<exists>pool. pool_new (bt_bind sample_boot) ''9000'' = Inr pool" by (simp add: sample_boot_def kdct_simps)
  then obtain pool where pool: "pool_new (bt_bind sample_boot) (sc_port_pool boot_config) = Inr pool" by (auto simp: boot_config_def)
  have m: "migrate (bt_new_uuid sample_boot) db = (db, Inr ())" using assms(1,2) by (rule migrate_live)
  have cwd: "bt_cwd sample_boot = None" by (simp add: sample_boot_def)
  have mgr: "choose_manager None (sc_domain boot_config) (effective_acme db (sc_acme boot_config)) = Some sample_manager"
    using sample_choice assms(3) by (simp add: effective_acme_def get_setting_def deployed_db_def install_db_def empty_db_def)
  obtain td db2 where td: "resolve_tls (\<lambda>p. hm_get (aw_files with_files) p \<noteq> None) boot_config (Some sample_manager) db = (td, db2)" by fastforce
  then have "td_live td" by (auto simp: resolve_tls_def effective_paths_def sample_paths with_files_def Let_def boot_config_def)
  then show ?thesis
    by (simp add: start_server_def sample_config m cwd mgr acme_issue td pool Let_def settings_of_def del: not_None_eq)
qed

text \<open>TLS is live; it is switched off in the panel, which answers that it will restart; after the restart it is live again.\<close>

theorem tls_toggle_over_restart_witness:
  "\<exists>db1 st s' resp db3 st'. kdcts_main sample_boot None deployed_db with_files = (db1, with_files, Inr st) \<and> as_live_tls_enabled (sr_settings st)
     \<and> post_settings (sample_api_env\<lparr>ae_settings := sr_settings st\<rparr>) (JObj [(''tls_enabled'', JBool False)])
         (sample_api\<lparr>ap_panel := sample_panel\<lparr>pn_db := deployed_db\<rparr>\<rparr>) = (s', resp)
     \<and> self_restart True sample_boot None (api_db s') with_files = Inr (db3, with_files, Inr st')
     \<and> get_setting ''tls_enabled'' (api_db s') = Some ''false'' \<and> (as_live_tls_enabled (sr_settings st') \<longleftrightarrow> as_tls_configurable (sr_settings st'))"
proof -
  let ?s = "sample_api\<lparr>ap_panel := sample_panel\<lparr>pn_db := deployed_db\<rparr>\<rparr>" let ?body = "JObj [(''tls_enabled'', JBool False)]"
  have none: "get_setting ''acme_enabled'' deployed_db = None" by (simp add: get_setting_def deployed_db_def install_db_def empty_db_def)
  have named: "all_named deployed_db" "client_nodes_schema deployed_db = Some UuidUnique" using deployed_live by (simp_all add: live_db_def)
  obtain db1 st where st: "start_server sample_boot ''server.toml'' deployed_db with_files = (db1, with_files, Inr st)" "as_live_tls_enabled (sr_settings st)"
    using acme_started [OF named none] by blast
  let ?env = "sample_api_env\<lparr>ae_settings := sr_settings st\<rparr>"
  obtain s' resp where p: "post_settings ?env ?body ?s = (s', resp)" by fastforce
  have body: "Option.bind (json_get ?body ''tls_enabled'') as_bool = Some False" by (simp add: kdct_simps)
  have s': "s' = delayed_restart (set_db (set_setting ''tls_enabled'' ''false'' deployed_db) ?s)"
    using p st(2) by (simp add: post_settings_def body set_db_def)
  have "all_named (api_db s')" "client_nodes_schema (api_db s') = Some UuidUnique" "get_setting ''acme_enabled'' (api_db s') = None"
    using named none by (simp_all add: s' delayed_restart_def set_db_def set_setting_def all_named_def get_setting_def hm_get_insert)
  from acme_started [OF this] obtain db3 st' where r: "start_server sample_boot ''server.toml'' (api_db s') with_files = (db3, with_files, Inr st')" by blast
  have first: "kdcts_main sample_boot None deployed_db with_files = (db1, with_files, Inr st)" using st(1) by (simp add: kdcts_main_def parse_args_def)
  have again: "self_restart True sample_boot None (api_db s') with_files = Inr (db3, with_files, Inr st')"
    using r by (simp add: self_restart_def kdcts_main_def parse_args_def)
  have cfg: "config_from_file (bt_read_file sample_boot) (bt_toml sample_boot) (ka_config (parse_args None)) = Inr \<lparr>cf_server = Some boot_config, cf_client = None\<rparr>"
    using sample_config by (simp add: parse_args_def)
  have restarts: "ap_restarts s' \<noteq> ap_restarts ?s" by (simp add: s' delayed_restart_def set_db_def)
  have mgr: "choose_manager (bt_cwd sample_boot) (sc_domain boot_config) (effective_acme (api_db s') (sc_acme boot_config)) \<noteq> None"
    using sample_choice by (simp add: s' delayed_restart_def set_db_def effective_acme_def get_setting_def set_setting_def hm_get_insert sample_boot_def
        deployed_db_def install_db_def empty_db_def)
  show ?thesis
    using tls_toggle_over_restart [OF cfg _ first _ body p restarts again] mgr first again p st(2)
    by (auto simp: bool_text_def intro!: exI)
qed

end
