(* ===== verification/Challenge_Listeners.thy ===== *)
theory Challenge_Listeners
  imports Relay_Loops Startup
begin

text \<open>
  The two listeners on the plain-HTTP port: the temporary one that a certificate is obtained with at start-up, \<^verbatim>\<open>spawn_challenge_listener\<close> in \<^verbatim>\<open>crates/kdcts/src/acme.rs\<close>, and
  the one that redirects to HTTPS afterwards, \<^verbatim>\<open>run_https_redirect\<close> in \<^verbatim>\<open>proxy.rs\<close>. A connection is what its reads return, with the challenges published when
  it is answered; answers stand in the order of the connections, \<^const>\<open>None\<close> for one that failed while it was read.
\<close>

section \<open>The listeners\<close>

text \<open>Accepting may fail (\<^const>\<open>None\<close>); the loop has no end.\<close>

fun redirect_loop ::
  "(string \<Rightarrow> string option) \<Rightarrow> u16 \<Rightarrow> (read_event list \<times> (string \<rightharpoonup> string) option) option list \<Rightarrow> redirect_response option list" where
  "redirect_loop utf8 https_port [] = []"
| "redirect_loop utf8 https_port (None # evs) = redirect_loop utf8 https_port evs"
| "redirect_loop utf8 https_port (Some (es, challenges) # evs) =
     handle_redirect utf8 https_port challenges es # redirect_loop utf8 https_port evs"

definition run_https_redirect ::
  "(string \<Rightarrow> string option) \<Rightarrow> bool \<Rightarrow> string \<Rightarrow> u16 \<Rightarrow> (read_event list \<times> (string \<rightharpoonup> string) option) option list
     \<Rightarrow> net_error + redirect_response option list" where
  "run_https_redirect utf8 bind_ok addr https_port evs =
     (if bind_ok then Inr (redirect_loop utf8 https_port evs) else Inl (BindFailed addr))"

fun challenge_loop ::
  "(string \<Rightarrow> string option) \<Rightarrow> (read_event list \<times> (string \<rightharpoonup> string)) accept_event list \<Rightarrow> redirect_response option list \<times> loop_end" where
  "challenge_loop utf8 [] = ([], StillRunning)"
| "challenge_loop utf8 (AcceptFails io # evs) = challenge_loop utf8 evs"
| "challenge_loop utf8 (Accepted (es, challenges) # evs) =
     (case challenge_loop utf8 evs of (rs, e) \<Rightarrow> (serve_challenge utf8 challenges es # rs, e))"
| "challenge_loop utf8 (StopSignal # evs) = ([], ShutDown)"

definition spawn_challenge_listener ::
  "(string \<Rightarrow> string option) \<Rightarrow> (u16 \<Rightarrow> bool) \<Rightarrow> u16 \<Rightarrow> (read_event list \<times> (string \<rightharpoonup> string)) accept_event list
     \<Rightarrow> acme_error + redirect_response option list \<times> loop_end" where
  "spawn_challenge_listener utf8 bind http_port evs =
     (if bind http_port then Inr (challenge_loop utf8 evs) else Inl ListenerBindFailed)"

lemmas [kdct_simps] = run_https_redirect_def spawn_challenge_listener_def

section \<open>Both answer alike\<close>

text \<open>What the temporary listener makes of an answer of the other: everything but a challenge is not found.\<close>

fun challenge_only :: "redirect_response \<Rightarrow> redirect_response" where
  "challenge_only (Challenge200 k) = Challenge200 k"
| "challenge_only _ = NotFound404"

lemma serve_challenge_redirect:
  "serve_challenge utf8 ch es = map_option challenge_only (handle_redirect utf8 https_port (Some ch) es)"
  by (simp add: serve_challenge_def handle_redirect_def redirect_answer_def Let_def split: option.splits)

text \<open>
  C37. For the validation of a domain it makes no difference when the certificate is ordered: over the same connections, with the same challenges published, the temporary listener of
  the start-up and the redirect listener of a renewal answer every challenge alike, byte for byte; whatever the one redirects or refuses the other does not
  find. The temporary listener answers up to the signal to stop and nothing after it.
\<close>

theorem challenge_listeners_agree:
  "challenge_loop utf8 (map Accepted conns) =
     (map (map_option challenge_only) (redirect_loop utf8 https_port (map (\<lambda>(es, ch). Some (es, Some ch)) conns)), StillRunning)
   \<and> challenge_loop utf8 (map Accepted conns @ StopSignal # evs) =
     (map (map_option challenge_only) (redirect_loop utf8 https_port (map (\<lambda>(es, ch). Some (es, Some ch)) conns)), ShutDown)"
proof (induction conns)
  case (Cons c conns)
  obtain es ch where "c = (es, ch)" by (cases c)
  with Cons show ?case by (simp add: serve_challenge_redirect [where https_port = https_port])
qed simp

section \<open>The validator is answered\<close>

text \<open>The HTTP-01 challenges of the authorizations that are pending.\<close>

definition pending_challenges :: "authorization option list \<Rightarrow> (string \<times> string) list" where
  "pending_challenges az =
     List.map_filter (\<lambda>a. case a of Some a \<Rightarrow> if az_pending a then az_http01 a else None | None \<Rightarrow> None) az"

lemma authorize_publishes:
  "authorize az w = (w', Inr ()) \<Longrightarrow> distinct (map fst (pending_challenges az)) \<Longrightarrow>
   (\<forall>(tok, key) \<in> set (pending_challenges az). hm_get (aw_challenges w') tok = Some key)
   \<and> (\<forall>tok. tok \<notin> fst ` set (pending_challenges az) \<longrightarrow> hm_get (aw_challenges w') tok = hm_get (aw_challenges w) tok)"
proof (induction az w rule: authorize.induct)
  case (3 a rest w)
  show ?case
  proof (cases "az_pending a")
    case False
    with 3 show ?thesis by (simp add: pending_challenges_def map_filter_simps)
  next
    case True
    then obtain tok key where c: "az_http01 a = Some (tok, key)" "az_set_ready a"
      using "3.prems" by (auto simp: Let_def split: option.splits if_splits)
    let ?w = "w\<lparr>aw_challenges := hm_insert tok key (aw_challenges w)\<rparr>"
    have p: "pending_challenges (Some a # rest) = (tok, key) # pending_challenges rest"
      using True c by (simp add: pending_challenges_def map_filter_simps)
    have "authorize rest ?w = (w', Inr ())" using "3.prems"(1) True c by simp
    from "3.IH"(2) [OF _ c(1) refl refl c(2) this] True "3.prems"(2) p show ?thesis
      by (auto simp: hm_get_insert)
  qed
qed (simp_all add: pending_challenges_def map_filter_simps)

text \<open>
  C38. A validator that asks for a pending challenge gets its key authorization, at start-up and at a renewal: once the flow has marked its
  challenges as ready, a well-formed request for one of their tokens that fits the buffer is answered with the key authorization that belongs to it, by whichever
  of the two listeners owns the port, whatever was asked before and whatever host the request names.
\<close>

theorem validator_is_answered:
  assumes flow: "authorize az w = (w', Inr ())" "distinct (map fst (pending_challenges az))" "(tok, key) \<in> set (pending_challenges az)"
    and req: "line_safe m" "line_safe tok" "read_head 4096 [] es = Some (request_head m (ACME_PREFIX @ tok) hv rest)"
      "utf8 (request_head m (ACME_PREFIX @ tok) hv rest) = Some (request_head m (ACME_PREFIX @ tok) hv rest)"
  shows "(\<exists>as. spawn_challenge_listener utf8 (\<lambda>_. True) http_port (map Accepted conns @ [Accepted (es, hm_get (aw_challenges w'))])
        = Inr (as @ [Some (Challenge200 key)], StillRunning))
    \<and> (\<exists>as. run_https_redirect utf8 True addr https_port (evs @ [Some (es, Some (hm_get (aw_challenges w')))])
        = Inr (as @ [Some (Challenge200 key)]))"
proof -
  have h: "handle_redirect utf8 p (Some (hm_get (aw_challenges w'))) es = Some (Challenge200 key)" for p
    using authorize_publishes [OF flow(1,2)] flow(3) acme_challenge_not_redirected [of m tok utf8 hv rest p "Some (hm_get (aw_challenges w'))"] req(1,2,4) req(3)
    by (fastforce simp: handle_redirect_def)
  have "redirect_loop utf8 https_port (evs @ [Some (es, Some ch)]) = redirect_loop utf8 https_port evs @ [handle_redirect utf8 https_port (Some ch) es]" for ch
    by (induction utf8 https_port evs rule: redirect_loop.induct) simp_all
  then have redirected: "\<exists>as. run_https_redirect utf8 True addr https_port (evs @ [Some (es, Some (hm_get (aw_challenges w')))])
      = Inr (as @ [Some (Challenge200 key)])"
    by (simp add: run_https_redirect_def h)
  have "serve_challenge utf8 (hm_get (aw_challenges w')) es = Some (Challenge200 key)"
    by (simp add: serve_challenge_redirect [where https_port = 443] h)
  then have "\<exists>as. challenge_loop utf8 (map Accepted conns @ [Accepted (es, hm_get (aw_challenges w'))]) = (as @ [Some (Challenge200 key)], StillRunning)"
    by (induction conns) auto
  then have "\<exists>as. spawn_challenge_listener utf8 (\<lambda>_. True) http_port (map Accepted conns @ [Accepted (es, hm_get (aw_challenges w'))])
      = Inr (as @ [Some (Challenge200 key)], StillRunning)"
    by (simp add: spawn_challenge_listener_def)
  with redirected show ?thesis by blast
qed

section \<open>Sample run\<close>

theorem validator_is_answered_witness:
  "\<exists>as. run_https_redirect Some True ''0.0.0.0:80'' 443
     [None, Some ([ReadChunk (request_head ''GET'' (ACME_PREFIX @ ''tok'') ''a.org'' crlf)], Some (hm_get [(''tok'', ''tok.key'')]))]
   = Inr (as @ [Some (Challenge200 ''tok.key'')])"
proof -
  let ?az = "[Some \<lparr>az_pending = True, az_http01 = Some (''tok'', ''tok.key''), az_set_ready = True\<rparr>]"
  let ?w = "\<lparr>aw_files = [], aw_challenges = []\<rparr>" let ?w' = "\<lparr>aw_files = [], aw_challenges = [(''tok'', ''tok.key'')]\<rparr>"
  let ?r = "request_head ''GET'' (ACME_PREFIX @ ''tok'') ''a.org'' crlf"
  have a: "authorize ?az ?w = (?w', Inr ())" by simp
  have p: "pending_challenges ?az = [(''tok'', ''tok.key'')]" by (simp add: pending_challenges_def map_filter_simps)
  have r: "read_head 4096 [] [ReadChunk ?r] = Some ?r"
    by (simp add: request_head_def ACME_PREFIX_def crlf_def)
  from validator_is_answered [OF a, where tok = "''tok''" and key = "''tok.key''" and m = "''GET''" and es = "[ReadChunk ?r]" and hv = "''a.org''" and rest = crlf
    and ?utf8.0 = Some and addr = "''0.0.0.0:80''" and https_port = 443 and evs = "[None]"] p r
  show ?thesis by (simp add: line_safe_def)
qed

end
