(* ===== verification/Unit_Tests.thy ===== *)
theory Unit_Tests
  imports Config
begin

text \<open>
  The repository's own unit tests of the run mode, \<^verbatim>\<open>crates/tunnel/src/lib.rs\<close>, and of the validation of the server's section,
  \<^verbatim>\<open>crates/tunnel/src/config.rs\<close>, as data and as the checks they make, with the proof that the model passes them. The test of the client's section is left out: it gives a string
  literal for the optional local address, which the compiler refuses, so there is nothing that it does.
\<close>

section \<open>The defaults the tests start from\<close>

text \<open>The derived \<^verbatim>\<open>Default\<close> of the sections: empty strings and zeros, not the values an absent key gets.\<close>

definition server_config_default :: server_config where
  "server_config_default =
     \<lparr>sc_bind_addr = [], sc_default_token = MaskedString [], sc_services = [],
      sc_transport = \<lparr>tr_transport_type = TcpTransport, tr_tcp = tcp_config_default\<rparr>, sc_heartbeat_interval = 0,
      sc_port_pool = [], sc_domain = None, sc_http_port = 0, sc_https_port = 0, sc_api_port = 0,
      sc_tls_cert_path = None, sc_tls_key_path = None, sc_admin_user = None, sc_admin_password = None, sc_acme = None\<rparr>"

definition client_config_default :: client_config where
  "client_config_default =
     \<lparr>cc_remote_addr = [], cc_default_token = MaskedString [], cc_prefer_ipv6 = None, cc_services = [],
      cc_heartbeat_timeout = 0, cc_retry_interval = 0\<rparr>"

section \<open>The run mode\<close>

record mode_test =
  cfg_s :: bool
  cfg_c :: bool
  arg_s :: bool
  arg_c :: bool
  expected :: run_mode

definition mode_tests :: "mode_test list" where
  "mode_tests =
     [\<lparr>cfg_s = False, cfg_c = False, arg_s = False, arg_c = False, expected = Undetermine\<rparr>,
      \<lparr>cfg_s = True, cfg_c = False, arg_s = False, arg_c = False, expected = ModeServer\<rparr>,
      \<lparr>cfg_s = False, cfg_c = True, arg_s = False, arg_c = False, expected = ModeClient\<rparr>,
      \<lparr>cfg_s = True, cfg_c = True, arg_s = False, arg_c = False, expected = Undetermine\<rparr>,
      \<lparr>cfg_s = True, cfg_c = True, arg_s = True, arg_c = False, expected = ModeServer\<rparr>,
      \<lparr>cfg_s = True, cfg_c = True, arg_s = False, arg_c = True, expected = ModeClient\<rparr>,
      \<lparr>cfg_s = True, cfg_c = True, arg_s = True, arg_c = True, expected = Undetermine\<rparr>]"

definition mode_test_passes :: "mode_test \<Rightarrow> bool" where
  "mode_test_passes t =
     (let config = \<lparr>cf_server = (if cfg_s t then Some server_config_default else None),
                    cf_client = (if cfg_c t then Some client_config_default else None)\<rparr>;
          args = \<lparr>cli_config_path = Some [], cli_server = arg_s t, cli_client = arg_c t\<rparr> in
      determine_run_mode config args = expected t)"

definition test_determine_run_mode :: bool where
  "test_determine_run_mode \<longleftrightarrow> list_all mode_test_passes mode_tests"

section \<open>The server's section\<close>

definition foo1 :: server_service_config where
  "foo1 = (server_service_with_name ''foo1'')\<lparr>ss_service_type := ServiceTcp, ss_bind_addr := ''127.0.0.1:80'', ss_token := None\<rparr>"

text \<open>The test's assertions, in its order; validation cannot fail, so its result is the section it leaves.\<close>

definition token_is :: "string \<Rightarrow> server_config \<Rightarrow> bool" where
  "token_is s cfg \<longleftrightarrow> map_option ss_token (hm_get (sc_services cfg) ''foo1'') = Some (Some (MaskedString s))"

definition test_validate_server_config :: bool where
  "test_validate_server_config \<longleftrightarrow>
     (let cfg = server_config_default\<lparr>sc_services := hm_insert ''foo1'' foo1 []\<rparr>;
          cfg = validate_server_config (cfg\<lparr>sc_default_token := MaskedString ''123''\<rparr>);
          cfg' = validate_server_config (cfg\<lparr>sc_services := map (\<lambda>(k, s). (k, if k = ''foo1'' then s\<lparr>ss_token := Some (MaskedString ''4'')\<rparr> else s)) (sc_services cfg)\<rparr>) in
      token_is ''123'' cfg \<and> token_is ''4'' cfg')"

section \<open>They pass\<close>

lemma run_mode_test_passes: "test_determine_run_mode"
  by (simp add: test_determine_run_mode_def mode_tests_def mode_test_passes_def determine_run_mode_def)

lemma server_config_test_passes: "test_validate_server_config"
  by (simp add: test_validate_server_config_def token_is_def foo1_def server_config_default_def validate_server_config_def
      validate_server_service_def Let_def server_service_with_name_def)

text \<open>
  What the table leaves open: sections do not matter when exactly one mode is asked for, and asking for both is never accepted.
\<close>

lemma run_mode_by_arguments:
  "determine_run_mode c \<lparr>cli_config_path = p, cli_server = s, cli_client = \<not> s\<rparr> = (if s then ModeServer else ModeClient)"
  "determine_run_mode c \<lparr>cli_config_path = p, cli_server = True, cli_client = True\<rparr> = Undetermine"
  by (simp_all add: determine_run_mode_def)

end
