(* ===== verification/Spec2Isabelle.thy ===== *)
theory Spec2Isabelle
  imports Abstract_Specs End_To_End Client_Life Server_Life Challenge_Listeners Unit_Tests
begin

text \<open>
  \<^bold>\<open>Verification of kdct\<close>, a reverse tunnel with a panel that deploys containers on remote nodes.

  \<^bold>\<open>The program.\<close> The server (\<^verbatim>\<open>crates/kdcts\<close>) runs on a public machine. It accepts control channels from clients
  (\<^verbatim>\<open>crates/kdctc\<close>) on nodes behind firewalls, gives each node an identity, keeps what it knows in a SQLite database, and offers a panel over HTTP. A user of
  the panel loads images, connects a node to a bridge of ports and paths, and deploys: the server takes ports from a public pool,
  commands the client to start a container, forwards visitors of the ports over data channels that the client opens on request, and routes paths of its domain to the ports by a reverse
  proxy (Pingora). Both sides share the tunnel crate (\<^verbatim>\<open>crates/tunnel\<close>). Certificates come from files or from an ACME service.

  The control path is: panel request, deployment, command on the control channel, host operation on the node, node event, synchronisation with
  the database. The data path is: visitor, accept loop of a public port, request for a data channel, data channel, local port of the node.

  \<^bold>\<open>Theories\<close> (each opens with what it holds; source files are under \<^verbatim>\<open>crates/\<close>).

  \<^item> \<^verbatim>\<open>Kdct_Prelude\<close>: types of machine integers and bytes, hash maps as association lists, strings (search, split, trim, numbers), the locale
    \<^verbatim>\<open>inductive_invariant\<close> of transition systems and, extending it, \<^verbatim>\<open>refinement_map\<close>, the simplification collection \<^verbatim>\<open>kdct_simps\<close>.
  \<^item> \<^verbatim>\<open>Port_Pool\<close>: \<^verbatim>\<open>tunnel/src/port_pool.rs\<close>. State: free ports and their listeners, held ports. Parsing of ranges, assignment, release; no port is lost or
    given twice.
  \<^item> \<^verbatim>\<open>Route_Proxy\<close>: \<^verbatim>\<open>kdcts/src/proxy.rs\<close>. The route table, the choice of the upstream, the answers of the plain-HTTP listener; longest prefix, isolation of
    the panel, enforcement of the host.
  \<^item> \<^verbatim>\<open>Database\<close>: \<^verbatim>\<open>kdcts/src/db.rs\<close>. Tables as lists of rows, every statement and the migrations; referential integrity is kept by all of them.
  \<^item> \<^verbatim>\<open>Protocol\<close>: \<^verbatim>\<open>tunnel/src/protocol.rs\<close>. Framing, messages, UDP traffic; round trips, and what happens beyond the length of a frame. Encoding of the
    contents (bincode) is a parameter.
  \<^item> \<^verbatim>\<open>Registry\<close>, \<^verbatim>\<open>Deploy_Tracker\<close>, \<^verbatim>\<open>Deploy\<close>: \<^verbatim>\<open>registry.rs\<close>, \<^verbatim>\<open>deployment_tracker.rs\<close>, \<^verbatim>\<open>deploy.rs\<close>. Deploying and stopping a connection with the panel's whole
    state; a finished deployment is in force, a failed one leaves nothing behind.
  \<^item> \<^verbatim>\<open>Node_Sync\<close>: \<^verbatim>\<open>node_update.rs\<close> and the event loop of \<^verbatim>\<open>main.rs\<close>; the stored status of a node follows its events.
  \<^item> \<^verbatim>\<open>Config\<close>: \<^verbatim>\<open>config.rs\<close>, \<^verbatim>\<open>cli.rs\<close>, the run mode of \<^verbatim>\<open>lib.rs\<close>. Parsing of TOML is a parameter.
  \<^item> \<^verbatim>\<open>Net_Helpers\<close>: \<^verbatim>\<open>helper.rs\<close>, \<^verbatim>\<open>transport/\<close>, \<^verbatim>\<open>constants.rs\<close>. Addresses, connecting, socket options; which settings reach a socket.
  \<^item> \<^verbatim>\<open>Multi_Map\<close>: \<^verbatim>\<open>multi_map.rs\<close>. Boxes on a heap and two hash maps keyed by pointers into them; refinement of a set of triples.
  \<^item> \<^verbatim>\<open>Tunnel_Server\<close>, \<^verbatim>\<open>Tunnel_Runs\<close>: \<^verbatim>\<open>server.rs\<close>, handshakes and control channels. The tasks of all channels interleave at the granularity of
    the locks they take (\<^verbatim>\<open>tunnel_step\<close>); identities stay with their digests, reports register nodes.
  \<^item> \<^verbatim>\<open>Client_Host\<close>, \<^verbatim>\<open>Client_Agent\<close>, \<^verbatim>\<open>Client_Link\<close>: \<^verbatim>\<open>client.rs\<close> and \<^verbatim>\<open>kdctc/src/docker.rs\<close>. Host operations over a parameter that runs Docker and reads files; the control
    channel with its commands; connecting, handshakes, data channels. The handshakes of both sides fit together.
  \<^item> \<^verbatim>\<open>Port_Forward\<close>: the accept loop of a forwarded TCP port as one more task beside the server (\<^verbatim>\<open>port_step\<close>); visitors are served in order, and reach their
    port.
  \<^item> \<^verbatim>\<open>Relay_Loops\<close>: the accept loops, the pool of a service port, the relays of UDP datagrams at both ends; datagrams cross the tunnel.
  \<^item> \<^verbatim>\<open>Panel_Http\<close>, \<^verbatim>\<open>Panel_Api\<close>, \<^verbatim>\<open>Panel_Runs\<close>: \<^verbatim>\<open>api.rs\<close>, \<^verbatim>\<open>image.rs\<close>. Requests, static files, every handler, the loading of images; every request keeps the
    invariant of the panel.
  \<^item> \<^verbatim>\<open>Startup\<close>, \<^verbatim>\<open>Challenge_Listeners\<close>, \<^verbatim>\<open>Server_Start\<close>: \<^verbatim>\<open>acme.rs\<close>, \<^verbatim>\<open>main.rs\<close>, the listeners of \<^verbatim>\<open>proxy.rs\<close>, the entry points of \<^verbatim>\<open>lib.rs\<close> and of the client. The order of a
    certificate, challenges, renewal, the decision for TLS, and the state the server starts in.
  \<^item> \<^verbatim>\<open>Client_Life\<close>: \<^verbatim>\<open>Client::run\<close> and the tasks of \<^verbatim>\<open>ControlChannelHandle::new\<close> in \<^verbatim>\<open>client.rs\<close>. One task per service (\<^verbatim>\<open>client_step\<close>), which connects, serves, fails and waits;
    services outlive failures and end after a shutdown.
  \<^item> \<^verbatim>\<open>Server_Life\<close>: \<^verbatim>\<open>main\<close> and \<^verbatim>\<open>self_restart\<close> of \<^verbatim>\<open>main.rs\<close>; what a switch in the panel means after the restart it causes.
  \<^item> \<^verbatim>\<open>Abstract_Specs\<close>: what the tunnel promises of its members and the pool of its ports, as small transition systems, and that the detailed ones refine them.
  \<^item> \<^verbatim>\<open>End_To_End\<close>: a request for a deployed service, from the proxy through the pool port and the tunnel to the port that its container publishes.
  \<^item> \<^verbatim>\<open>Unit_Tests\<close>: the repository's unit tests of \<^verbatim>\<open>lib.rs\<close> and \<^verbatim>\<open>config.rs\<close>, which the model passes.
  \<^item> This theory: what spans client, server and panel.

  \<^bold>\<open>Interfaces\<close> are locales, interpreted on the model: \<^verbatim>\<open>inductive_invariant\<close> for the database, the tunnel, the panel and the accept loop, \<^verbatim>\<open>refinement_map\<close> for the tunnel and the pool, and the contracts of the
  port pool, the route table, the maps and the synchronisation that the theories above them rely on.

  \<^bold>\<open>State and failure.\<close> Shared state behind locks is a record passed through; where tasks interleave, each region under one lock is one step and the order of
  steps is arbitrary. Errors and panics are values. Machine integers keep their width (\<^verbatim>\<open>u8\<close>, \<^verbatim>\<open>u16\<close>, \<^verbatim>\<open>u64\<close>) where they can wrap; Rust's signed counters of the database are integers.
  Loops of the program that wait for the outside consume a list of events, and a list that is used up means that the loop is waiting: no fuel is used. Loops that compute are
  recursive functions with a proof of termination.

  \<^bold>\<open>Parameters\<close>, each with the documented behaviour that a theorem assumes stated in it: the codecs (bincode, JSON, TOML, base64, X.509), digests and random
  identifiers, the file system, Docker, sockets and name resolution, the back-off crate, Pingora, the ACME service, the clock. Theorems with such a hypothesis come with a sample
  run that satisfies it.

  \<^bold>\<open>Not modelled\<close>: logging; the parsing of arguments beyond their defaults (clap); file permissions; the copying
  of bytes between two connected sockets (a step without inner structure); the panel's front end, which is a browser application; the integration tests, and the unit test of the client's section, which does not compile.
\<close>


section \<open>Client and server\<close>

text \<open>What the client reports when its channel comes up.\<close>

definition first_report :: "'w host \<Rightarrow> client_service_config \<Rightarrow> 'w \<Rightarrow> node_report" where
  "first_report h service w = snd (gather_node_status h service (identity_load h w) w)"

lemma first_report_sent:
  "send_status h True (agent_new h service w, w) =
     ((agent_new h service w)\<lparr>ag_sent := [ReportNodeStatus (first_report h service w)]\<rparr>,
      fst (gather_node_status h service (identity_load h w) w))"
  by (simp add: send_status_def agent_send_def agent_new_def first_report_def split: prod.splits)

lemma connect_claimless:
  fixes s :: tunnel and nv :: string and cid key dig :: digest
  assumes inv: "tunnel_inv env s" and claim: "claimed_uuid (env_uuid_ok env) rep = None" and fresh: "nv \<notin> hm_keys (tn_bindings s)"
  defines "t \<equiv> connect env nv dig cid key rep s"
  shows "\<exists>u. ch_sent (tn_channels t (tn_next s)) = [AssignNodeUuid u] \<and> hm_get (tn_bindings t) u = Some (env_hex env dig)
    \<and> cc_node_uuid (tn_ccs t (tn_next s)) = Some u"
proof -
  let ?s = "insert_handle (tn_next s) (spawn_channel dig cid key s)"
  have wf: "hm_wf (tn_bindings s)" using inv by (simp add: tunnel_inv_def)
  obtain r b where rb: "resolve_uuid (env_hex env dig) None None (map fst (tn_registry s)) nv (tn_bindings s) = (r, b)" by fastforce
  have bound: "hm_get b (resolved_uuid r) = Some (env_hex env dig)"
    by (rule resolve_uuid_bound(1) [OF wf fresh _ rb]) simp
  have "\<exists>u. r = AssignAndUse u"
    using rb by (auto simp: resolve_uuid_def split: option.splits)
  then have "assign_cmds r = [AssignNodeUuid (resolved_uuid r)]" by (auto simp: assign_cmds_def)
  moreover have "t = reported env (tn_next s) rep r b ?s"
    unfolding t_def connect_def
    by (rule handle_report_eq) (use rb claim in \<open>simp_all add: insert_handle_def spawn_channel_def new_channel_def\<close>)
  ultimately show ?thesis
    using bound by (auto simp: reported_def insert_handle_def spawn_channel_def)
qed

lemma claimed_told_nothing:
  assumes "claimed_uuid (env_uuid_ok env) rep = Some u" "hm_get (tn_bindings s) u = Some (env_hex env dig)"
  shows "ch_sent (tn_channels (connect env nv dig cid key rep s) (tn_next s)) = []"
proof -
  let ?s = "insert_handle (tn_next s) (spawn_channel dig cid key s)"
  have "connect env nv dig cid key rep s = reported env (tn_next s) rep (Accept u) (tn_bindings s) ?s"
    unfolding connect_def
    by (rule handle_report_eq) (use assms in \<open>simp_all add: insert_handle_def spawn_channel_def new_channel_def resolve_uuid_def\<close>)
  then show ?thesis by (simp add: reported_def assign_cmds_def insert_handle_def spawn_channel_def)
qed

text \<open>
  C8. A machine keeps its identity. A client that has none reports without a claim and is assigned an identity, which is bound to its
  token's digest. Once the client has stored it, a client started anew on that machine claims it in its first report, and the server,
  after whatever else has happened there, takes it for that node again and assigns nothing: no machine is given a second identity.
\<close>

theorem identity_survives_restart:
  fixes s :: tunnel and w :: 'w and h :: "'w host" and service :: client_service_config and nv :: string and cid key dig :: digest
  assumes inv: "tunnel_inv env s" and fresh: "nv \<notin> hm_keys (tn_bindings s)"
    and none: "identity_load h w = None" and files: "files_ok h"
  defines "t \<equiv> connect env nv dig cid key (first_report h service w) s"
  shows "\<exists>u. ch_sent (tn_channels t (tn_next s)) = [AssignNodeUuid u]
    \<and> (\<forall>a a' w' w2 ok now. handle_cmd h now ok (AssignNodeUuid u) (a, w') = ((a', w2), Inr ())
         \<and> env_uuid_ok env u \<and> trim u = u \<and> u \<noteq> [] \<longrightarrow>
         (\<forall>t' nv' cid' key'. (tunnel_step env)\<^sup>*\<^sup>* t t' \<longrightarrow>
            (let t2 = connect env nv' dig cid' key' (first_report h service w2) t' in
             cc_node_uuid (tn_ccs t2 (tn_next t')) = Some u
             \<and> hm_get (tn_registry t2) u = Some (entry_of (tn_next t') u (first_report h service w2))
             \<and> ch_sent (tn_channels t2 (tn_next t')) = [])))"
proof -
  have "claimed_uuid (env_uuid_ok env) (first_report h service w) = None"
    using gather_claims [of h service None w] by (simp add: first_report_def none claimed_uuid_def)
  from connect_claimless [OF inv this fresh, of dig cid key, folded t_def]
  obtain u where u: "ch_sent (tn_channels t (tn_next s)) = [AssignNodeUuid u]" "hm_get (tn_bindings t) u = Some (env_hex env dig)"
    by blast
  have "(tunnel_step env)\<^sup>*\<^sup>* s t" unfolding t_def by (rule connect_steps [OF fresh])
  then have inv_t: "tunnel_inv env t" using tunnel.steps_inv inv by blast
  have "cc_node_uuid (tn_ccs t2 (tn_next t')) = Some u
       \<and> hm_get (tn_registry t2) u = Some (entry_of (tn_next t') u (first_report h service w2))
       \<and> ch_sent (tn_channels t2 (tn_next t')) = []"
    if save: "handle_cmd h now ok (AssignNodeUuid u) (a, w') = ((a', w2), Inr ())" and ok: "env_uuid_ok env u" "trim u = u" "u \<noteq> []"
      and steps: "(tunnel_step env)\<^sup>*\<^sup>* t t'" and t2: "t2 = connect env nv' dig cid' key' (first_report h service w2) t'"
    for a a' w' w2 now t' nv' cid' key' t2 and ok :: bool
  proof -
    have "identity_save h u w' = (w2, Inr ())" using save by (auto simp: handle_cmd_def split: prod.splits sum.splits)
    then have "identity_load h w2 = Some u" using identity_saved [OF files] ok by simp
    then have claim: "claimed_uuid (env_uuid_ok env) (first_report h service w2) = Some u"
      using gather_claims [of h service "Some u" w2] ok by (simp add: first_report_def claimed_uuid_def)
    have bound: "hm_get (tn_bindings t') u = Some (env_hex env dig)"
      using tunnel_steps_le [OF steps inv_t] u(2) by (simp add: tunnel_le_def)
    note c = connect_claimed [OF claim disjI2 [OF bound], where nv = nv' and cid = cid' and key = key', folded t2]
    from claimed_told_nothing [OF claim bound, where nv = nv' and cid = cid' and key = key', folded t2] c show ?thesis by simp
  qed
  with u(1) show ?thesis unfolding Let_def by blast
qed


section \<open>Tunnel and panel\<close>

text \<open>
  C13. A node that reconnects before its old connection is noticed to be dead ends up offline in the panel. The old channel's end removes
  the node from the registry without asking whose entry that is and reports it as disconnected; the
  panel, which has just been told twice that the node is connected, stores it as offline. Meanwhile the new channel is alive, waits
  for commands, and is the one the index names for the node.
\<close>

theorem reconnected_node_stored_offline:
  fixes key0 key1 :: digest and sv :: "'l server"
  assumes init: "tunnel_init b s0" and claim: "claimed_uuid (env_uuid_ok env) rep = Some u"
    and own: "hm_get b u = None \<or> hm_get b u = Some (env_hex env dig)"
    and cids: "cid0 \<noteq> cid1" and fresh: "new_v4 \<notin> hm_keys b" "new_v4 \<noteq> u" and panel: "sync_inv sv"
  defines "t \<equiv> leave env new_v4 0 (connect env new_v4 dig cid1 key1 rep (connect env new_v4 dig cid0 key0 rep s0))"
  shows "(tunnel_step env)\<^sup>*\<^sup>* s0 t
    \<and> ch_alive (tn_channels t 1) \<and> cc_task (tn_ccs t 1) = Waiting \<and> cc_node_uuid (tn_ccs t 1) = Some u
    \<and> hm_get (tn_uuid_index t) u = Some (cc_channel_id (tn_ccs t 1)) \<and> hm_get (tn_registry t) u = None
    \<and> (\<exists>n. get_node_by_uuid u (pn_db (sv_panel (run_updates f (map (Pair now) (tn_updates t)) sv))) = Some n
         \<and> nd_status n \<noteq> ''online'')"
proof -
  note st = stale_exit_unregisters_live_node [OF init claim own cids fresh, of key1 key0, folded t_def]
  let ?c = "connected_of (env_hex env dig) rep"
  have up: "run_updates f (map (Pair now) (tn_updates t)) sv
      = sync_down f u (sync_up f u (now, ?c) (sync_up f u (now, ?c) sv))"
    using st by (simp add: run_updates_happen)
  have inv: "sync_inv (sync_up f u (now, ?c) (sync_up f u (now, ?c) sv))" by (intro sync_inv_up panel)
  have "sync_node u (sync_up f u (now, ?c) (sync_up f u (now, ?c) sv)) \<noteq> None"
    using sync.connect_same [OF sync_inv_up [OF panel], where f = f and u = u and i = "(now, ?c)"] by fastforce
  then obtain n where n: "sync_node u (sync_down f u (sync_up f u (now, ?c) (sync_up f u (now, ?c) sv))) = Some n"
    using sync.disconnect_found [OF inv, where f = f and u = u] by (metis not_None_eq)
  from sync.disconnect_same [OF inv n] n st show ?thesis
    unfolding up sync_node_def node_online_def by blast
qed

section \<open>Sample runs\<close>

theorem identity_survives_restart_witness:
  "\<exists>u. ch_sent (tn_channels (connect sample_env ''v'' [1] [5] [5] (first_report sample_host client_service_default []) (server_from [])) 0)
     = [AssignNodeUuid u]"
proof -
  have "tunnel_inv sample_env (server_from [])" using tunnel.inv_init [of "[]"] sample_init [of "[]"] by simp
  moreover have "identity_load sample_host [] = None" by (simp add: identity_load_def identity_path_def sample_host_def)
  ultimately show ?thesis
    using identity_survives_restart [where h = sample_host and w = "[]" and s = "server_from []" and env = sample_env and nv = "''v''"
        and dig = "[1]" and cid = "[5]" and key = "[5]" and service = client_service_default] sample_files_ok
    by (auto simp: server_from_def)
qed

theorem reconnected_node_stored_offline_witness:
  "\<exists>n. get_node_by_uuid ''u'' (pn_db (sv_panel (run_updates (\<lambda>_. ''x'') (map (Pair 7) (tn_updates
      (leave sample_env ''v'' 0 (connect sample_env ''v'' [1] [6] [6] (sample_report (Some ''u''))
        (connect sample_env ''v'' [1] [5] [5] (sample_report (Some ''u'')) (server_from [])))))) sample_server))) = Some n
     \<and> nd_status n \<noteq> ''online''"
  using reconnected_node_stored_offline [OF sample_init sample_claim(1), where b = "[]" and dig = "[1]" and ?cid0.0 = "[5]" and ?cid1.0 = "[6]"
      and ?new_v4.0 = "''v''" and ?key0.0 = "[5]" and ?key1.0 = "[6]" and sv = sample_server and f = "\<lambda>_. ''x''" and now = 7]
    sample_server_inv by simp

end
